(* ===== verification/Prelude.thy ===== *)
theory Prelude
  imports Complex_Main "HOL-Library.AList" "HOL-Library.Multiset"
begin

text \<open>
  Shared ground of the development: the fact collections, the result type of fallible
  Go functions, Go's signed 64-bit integers with their wrap-around, and the generic facts
  on lists and association lists that the components use.

  A Go function that returns \<open>(T, error)\<close> is modelled with result type \<open>string + 'a\<close>:
  \<open>Inl msg\<close> carries the text of the error, \<open>Inr v\<close> the value.
  A Go \<open>int64\<close> or \<open>int\<close> (64 bits on the supported targets) is an HOL \<open>int\<close>; where an
  arithmetic operation of the code can leave the 64-bit range the model applies \<open>i64\<close>, which
  wraps exactly as the hardware does.
  A Go map is an association list: the order of the list stands for the (unspecified) order in
  which Go iterates over it, so a fact about every list is a fact about every iteration order.
\<close>

named_theorems geom_simps "operations that keep the geometry of a chunk plan"
named_theorems status_simps "facts on the status strings of the manifest"

type_synonym 'a result = "string + 'a"
type_synonym int64 = int
type_synonym bytes = string
type_synonym ('k, 'v) gomap = "('k \<times> 'v) list"

section \<open>Signed 64-bit integers\<close>

abbreviation max_i64 :: int where
  "max_i64 \<equiv> 9223372036854775807"

abbreviation min_i64 :: int where
  "min_i64 \<equiv> - 9223372036854775808"

definition i64 :: "int \<Rightarrow> int64" where
  "i64 x = (x + 9223372036854775808) mod 18446744073709551616 - 9223372036854775808"

definition in_i64 :: "int \<Rightarrow> bool" where
  "in_i64 x \<longleftrightarrow> min_i64 \<le> x \<and> x \<le> max_i64"

lemma i64_id [simp]: "min_i64 \<le> x \<Longrightarrow> x \<le> max_i64 \<Longrightarrow> i64 x = x"
  by (simp add: i64_def)

lemma in_i64_i64: "in_i64 (i64 x)"
proof -
  have "0 \<le> (x + 9223372036854775808) mod 18446744073709551616"
    by simp
  moreover have "(x + 9223372036854775808) mod 18446744073709551616 < 18446744073709551616"
    by (rule pos_mod_bound) simp
  ultimately show ?thesis unfolding in_i64_def i64_def by linarith
qed

lemma i64_cong_add: "i64 (i64 x + y) = i64 (x + y)"
proof -
  have "(i64 x + y + 9223372036854775808) mod 18446744073709551616
      = ((x + 9223372036854775808) mod 18446744073709551616 + y) mod 18446744073709551616"
    unfolding i64_def by (simp add: algebra_simps)
  also have "\<dots> = (x + y + 9223372036854775808) mod 18446744073709551616"
    by (simp add: mod_simps algebra_simps)
  finally show ?thesis unfolding i64_def by simp
qed

text \<open>Go's integer division truncates towards zero and its remainder has the sign of the dividend.\<close>

definition go_div :: "int \<Rightarrow> int \<Rightarrow> int" where
  "go_div a b = sgn a * sgn b * (\<bar>a\<bar> div \<bar>b\<bar>)"

definition go_mod :: "int \<Rightarrow> int \<Rightarrow> int" where
  "go_mod a b = a - b * go_div a b"

lemma go_div_nonneg [simp]: "0 \<le> a \<Longrightarrow> 0 < b \<Longrightarrow> go_div a b = a div b"
  by (cases "a = 0") (simp_all add: go_div_def)

lemma go_mod_nonneg [simp]: "0 \<le> a \<Longrightarrow> 0 < b \<Longrightarrow> go_mod a b = a mod b"
  by (simp add: go_mod_def minus_mult_div_eq_mod)

lemma le_div_iff_int: "0 < c \<Longrightarrow> k \<le> a div c \<longleftrightarrow> k * c \<le> (a::int)"
proof
  assume c: "0 < c" and "k \<le> a div c"
  then have "k * c \<le> a div c * c" by (intro mult_right_mono) auto
  also have "\<dots> \<le> a" using c div_mult_mod_eq [of a c] pos_mod_sign [of c a] by linarith
  finally show "k * c \<le> a" .
next
  assume c: "0 < c" and "k * c \<le> a"
  then have "k * c div c \<le> a div c" by (intro zdiv_mono1)
  then show "k \<le> a div c" using c by simp
qed

section \<open>Lists\<close>

text \<open>Update of the first element that satisfies a test: Go's \<open>for i := range xs { if p { \<dots>; break } }\<close>.\<close>

fun upd_first :: "('a \<Rightarrow> bool) \<Rightarrow> ('a \<Rightarrow> 'a) \<Rightarrow> 'a list \<Rightarrow> 'a list" where
  "upd_first p f [] = []"
| "upd_first p f (x # xs) = (if p x then f x # xs else x # upd_first p f xs)"

lemma length_upd_first [simp]: "length (upd_first p f xs) = length xs"
  by (induction xs) auto

lemma map_upd_first: "(\<And>x. p x \<Longrightarrow> g (f x) = g x) \<Longrightarrow> map g (upd_first p f xs) = map g xs"
  by (induction xs) auto

lemma upd_first_none: "\<forall>x\<in>set xs. \<not> p x \<Longrightarrow> upd_first p f xs = xs"
  by (induction xs) auto

lemma set_upd_first: "x \<in> set (upd_first p f xs) \<Longrightarrow> x \<in> set xs \<or> (\<exists>y\<in>set xs. p y \<and> x = f y)"
  by (induction xs) (auto split: if_splits)

lemma find_None_all: "find p xs = None \<longleftrightarrow> (\<forall>x\<in>set xs. \<not> p x)"
  by (auto simp: find_None_iff)

lemma find_SomeD: "find p xs = Some x \<Longrightarrow> x \<in> set xs \<and> p x"
  by (auto simp: find_Some_iff)

lemma find_upd_first:
  "(\<And>x. p x \<Longrightarrow> p (f x)) \<Longrightarrow> find p (upd_first p f xs) = map_option f (find p xs)"
  by (induction xs) auto

lemma upd_first_distinct:
  "distinct (map g xs) \<Longrightarrow> (\<And>x. p x \<longleftrightarrow> g x = k) \<Longrightarrow>
   upd_first p f xs = map (\<lambda>x. if g x = k then f x else x) xs"
proof (induction xs)
  case (Cons a xs)
  show ?case
  proof (cases "g a = k")
    case True
    have "k \<notin> g ` set xs" using Cons.prems(1) True by simp
    then have "\<forall>x\<in>set xs. g x \<noteq> k" by blast
    then have "map (\<lambda>x. if g x = k then f x else x) xs = xs"
      by (intro map_idI) auto
    with True Cons.prems(2) show ?thesis by simp
  next
    case False
    with Cons show ?thesis by simp
  qed
qed simp

section \<open>Association lists as Go maps\<close>

definition gomap_get :: "('k, 'v) gomap \<Rightarrow> 'k \<Rightarrow> 'v \<Rightarrow> 'v" where
  \<comment> \<open>\<open>m[k]\<close>: the zero value where the key is absent\<close>
  "gomap_get m k d = (case map_of m k of None \<Rightarrow> d | Some v \<Rightarrow> v)"

lemma gomap_get_update [simp]:
  "gomap_get (AList.update k v m) k' d = (if k' = k then v else gomap_get m k' d)"
  by (simp add: gomap_get_def update_conv')

end
