(* ===== verification/GoNum.thy ===== *)
theory GoNum
  imports Prelude
begin

text \<open>
  Decimal and hexadecimal text, as \<open>fmt\<close>'s verbs \<open>%d\<close> and \<open>%06d\<close>, \<open>strconv.Itoa\<close>,
  \<open>strconv.ParseInt(s, 10, 64)\<close> / \<open>strconv.Atoi\<close> and \<open>encoding/hex\<close> produce and read it.
  The lemmas are the round trips, injectivity, and the fact that rendered numbers contain only
  digits and a sign (so they never contain a separator byte).
\<close>

section \<open>Decimal digits\<close>

definition digit_char :: "nat \<Rightarrow> char" where
  "digit_char d = (char_of (48 + d) :: char)"

definition is_digit :: "char \<Rightarrow> bool" where
  "is_digit c \<longleftrightarrow> 48 \<le> (of_char c :: nat) \<and> (of_char c :: nat) \<le> 57"

definition digit_val :: "char \<Rightarrow> nat" where
  "digit_val c = of_char c - 48"

lemma of_char_digit: "d < 10 \<Longrightarrow> (of_char (digit_char d) :: nat) = 48 + d"
  by (simp add: digit_char_def)

lemma is_digit_digit_char [simp]: "d < 10 \<Longrightarrow> is_digit (digit_char d)"
  by (simp add: is_digit_def of_char_digit)

lemma digit_val_digit_char [simp]: "d < 10 \<Longrightarrow> digit_val (digit_char d) = d"
  by (simp add: digit_val_def of_char_digit)

lemma digit_char_digit_val: "is_digit c \<Longrightarrow> digit_char (digit_val c) = c"
  by (simp add: is_digit_def digit_val_def digit_char_def)

fun nat_digits :: "nat \<Rightarrow> string" where
  "nat_digits n = (if n < 10 then [digit_char n] else nat_digits (n div 10) @ [digit_char (n mod 10)])"

declare nat_digits.simps [simp del]

definition digits_val :: "string \<Rightarrow> nat" where
  "digits_val s = foldl (\<lambda>a c. a * 10 + digit_val c) 0 s"

lemma digits_val_append [simp]: "digits_val (s @ [c]) = digits_val s * 10 + digit_val c"
  by (simp add: digits_val_def)

lemma digits_val_Nil [simp]: "digits_val [] = 0"
  by (simp add: digits_val_def)

lemma digits_val_nat_digits [simp]: "digits_val (nat_digits n) = n"
proof (induction n rule: nat_digits.induct)
  case (1 n)
  show ?case
  proof (cases "n < 10")
    case True
    then show ?thesis
      using digits_val_append [of "[]" "digit_char n"] by (simp add: nat_digits.simps [of n])
  next
    case False
    then show ?thesis using 1 by (simp add: nat_digits.simps [of n] div_mult_mod_eq)
  qed
qed

lemma nat_digits_all_digits: "list_all is_digit (nat_digits n)"
proof (induction n rule: nat_digits.induct)
  case (1 n)
  then show ?case by (cases "n < 10") (simp_all add: nat_digits.simps [of n])
qed

lemma nat_digits_nonempty [simp]: "nat_digits n \<noteq> []"
  by (subst nat_digits.simps) simp

lemma nat_digits_inject [simp]: "nat_digits m = nat_digits n \<longleftrightarrow> m = n"
  by (metis digits_val_nat_digits)

section \<open>Signed decimal text\<close>

text \<open>\<open>fmt.Sprintf("%d", v)\<close> and \<open>strconv.Itoa(v)\<close>.\<close>

definition itoa :: "int \<Rightarrow> string" where
  "itoa v = (if v < 0 then CHR ''-'' # nat_digits (nat (- v)) else nat_digits (nat v))"

lemma is_digit_not_minus [simp]: "\<not> is_digit (CHR ''-'')" "\<not> is_digit (CHR ''+'')"
  by (simp_all add: is_digit_def)

lemma nat_digits_hd_digit: "is_digit (hd (nat_digits n))"
  using nat_digits_all_digits [of n] by (cases "nat_digits n") auto

lemma itoa_inject [simp]: "itoa a = itoa b \<longleftrightarrow> a = b"
proof
  assume eq: "itoa a = itoa b"
  have sgn: "hd (itoa v) = CHR ''-'' \<longleftrightarrow> v < 0" for v
    using nat_digits_hd_digit [of "nat v"] by (auto simp: itoa_def)
  then have "a < 0 \<longleftrightarrow> b < 0" using eq by metis
  with eq show "a = b"
    by (cases "a < 0") (simp_all add: itoa_def)
qed simp

lemma itoa_chars: "c \<in> set (itoa v) \<Longrightarrow> is_digit c \<or> c = CHR ''-''"
  using nat_digits_all_digits by (auto simp: itoa_def list_all_iff split: if_splits)

text \<open>\<open>fmt.Sprintf("%06d", v)\<close>: padded with zeros to width six, after the sign.\<close>

definition itoa06 :: "int \<Rightarrow> string" where
  "itoa06 v = (let s = nat_digits (nat \<bar>v\<bar>); w = (if v < 0 then 5 else 6) in
     (if v < 0 then ''-'' else '''') @ replicate (w - length s) (CHR ''0'') @ s)"

lemma digits_val_zeros [simp]: "digits_val (replicate k (CHR ''0'') @ s) = digits_val s"
proof (induction k)
  case (Suc k)
  have "digits_val (CHR ''0'' # t) = digits_val t" for t
    by (simp add: digits_val_def digit_val_def)
  with Suc show ?case by simp
qed simp

lemma itoa06_chars: "c \<in> set (itoa06 v) \<Longrightarrow> is_digit c \<or> c = CHR ''-''"
  using nat_digits_all_digits [of "nat \<bar>v\<bar>"]
  by (auto simp: itoa06_def Let_def list_all_iff is_digit_def split: if_splits)


lemma itoa06_inject: "0 \<le> a \<Longrightarrow> 0 \<le> b \<Longrightarrow> itoa06 a = itoa06 b \<longleftrightarrow> a = b"
proof
  assume nn: "0 \<le> a" "0 \<le> b" and eq: "itoa06 a = itoa06 b"
  have "digits_val (itoa06 v) = nat v" if "0 \<le> v" for v
    using that by (simp add: itoa06_def Let_def)
  with nn eq have "nat a = nat b" by metis
  with nn show "a = b" by simp
qed simp

text \<open>
  \<open>strconv.ParseInt(s, 10, 64)\<close>: an optional sign, at least one digit, only digits, and the
  value in the range of \<open>int64\<close>. \<open>strconv.Atoi\<close> is the same function on a 64-bit target.
\<close>

definition parse_int :: "string \<Rightarrow> int result" where
  "parse_int s =
     (let neg = (s \<noteq> [] \<and> hd s = CHR ''-'');
          ds = (if s \<noteq> [] \<and> (hd s = CHR ''-'' \<or> hd s = CHR ''+'') then tl s else s);
          v = (if neg then - int (digits_val ds) else int (digits_val ds)) in
      if ds = [] \<or> \<not> list_all is_digit ds then Inl ''invalid syntax''
      else if v < min_i64 \<or> max_i64 < v then Inl ''value out of range''
      else Inr v)"

lemma parse_int_itoa: "min_i64 \<le> v \<Longrightarrow> v \<le> max_i64 \<Longrightarrow> parse_int (itoa v) = Inr v"
proof (cases "v < 0")
  case True
  assume "min_i64 \<le> v" "v \<le> max_i64"
  with True show ?thesis
    using nat_digits_all_digits [of "nat (- v)"] by (simp add: parse_int_def itoa_def Let_def)
next
  case False
  assume "min_i64 \<le> v" "v \<le> max_i64"
  moreover have "hd (nat_digits (nat v)) \<noteq> CHR ''-''" "hd (nat_digits (nat v)) \<noteq> CHR ''+''"
    using nat_digits_hd_digit [of "nat v"] by auto
  ultimately show ?thesis
    using False nat_digits_all_digits [of "nat v"] by (simp add: parse_int_def itoa_def Let_def)
qed

lemma parse_int_range: "parse_int s = Inr v \<Longrightarrow> in_i64 v"
  by (auto simp: parse_int_def Let_def in_i64_def split: if_splits)

section \<open>Hexadecimal text\<close>

definition hex_digit :: "nat \<Rightarrow> char" where
  "hex_digit d = (if d < 10 then char_of (48 + d) else char_of (87 + d))"

definition hex_val :: "char \<Rightarrow> nat option" where
  "hex_val c = (let n = (of_char c :: nat) in
     if 48 \<le> n \<and> n \<le> 57 then Some (n - 48)
     else if 97 \<le> n \<and> n \<le> 102 then Some (n - 87)
     else if 65 \<le> n \<and> n \<le> 70 then Some (n - 55)
     else None)"

fun hex_encode :: "bytes \<Rightarrow> string" where
  "hex_encode [] = []"
| "hex_encode (b # bs) = hex_digit (of_char b div 16) # hex_digit (of_char b mod 16) # hex_encode bs"

fun hex_decode :: "string \<Rightarrow> bytes option" where
  "hex_decode [] = Some []"
| "hex_decode [c] = None"
| "hex_decode (a # b # s) =
     (case (hex_val a, hex_val b, hex_decode s) of
        (Some x, Some y, Some bs) \<Rightarrow> Some (char_of (16 * x + y) # bs)
      | _ \<Rightarrow> None)"

lemma hex_val_hex_digit [simp]: "d < 16 \<Longrightarrow> hex_val (hex_digit d) = Some d"
  by (simp add: hex_val_def hex_digit_def Let_def)

lemma hex_decode_encode [simp]: "hex_decode (hex_encode bs) = Some bs"
proof (induction bs)
  case (Cons b bs)
  have "(of_char b :: nat) div 16 < 16"
    using nat_of_char_less_256 [of b] by linarith
  moreover have "(char_of (16 * (of_char b div 16) + of_char b mod 16 :: nat) :: char) = b"
    by simp
  ultimately show ?case using Cons by simp
qed simp

lemma length_hex_encode [simp]: "length (hex_encode bs) = 2 * length bs"
  by (induction bs) simp_all

lemma length_hex_decode: "hex_decode s = Some bs \<Longrightarrow> length s = 2 * length bs"
  by (induction s arbitrary: bs rule: hex_decode.induct) (auto split: option.splits)

lemma hex_encode_inject [simp]: "hex_encode a = hex_encode b \<longleftrightarrow> a = b"
  by (metis hex_decode_encode option.inject)

end
