(* ===== verification/GoString.thy ===== *)
theory GoString
  imports GoNum "HOL-Library.Sublist"
begin

text \<open>
  The functions of Go's \<open>strings\<close> package that the program uses. A Go string is a sequence of
  bytes, here a \<open>string\<close> (an Isabelle \<open>char\<close> is a byte). Case mapping and trimming are those of
  ASCII text: bytes from 128 on are left alone, so for file, host and interface names outside
  ASCII the model maps no case and trims no Unicode space.
\<close>

definition is_space :: "char \<Rightarrow> bool" where
  \<comment> \<open>tab, line feed, vertical tab, form feed, carriage return, blank\<close>
  "is_space c \<longleftrightarrow> (let n = (of_char c :: nat) in (9 \<le> n \<and> n \<le> 13) \<or> n = 32)"

definition trim_left_by :: "(char \<Rightarrow> bool) \<Rightarrow> string \<Rightarrow> string" where
  "trim_left_by p s = dropWhile p s"

definition trim_right_by :: "(char \<Rightarrow> bool) \<Rightarrow> string \<Rightarrow> string" where
  "trim_right_by p s = rev (dropWhile p (rev s))"

definition trim_by :: "(char \<Rightarrow> bool) \<Rightarrow> string \<Rightarrow> string" where
  "trim_by p s = trim_right_by p (trim_left_by p s)"

text \<open>\<open>strings.TrimSpace\<close>.\<close>

definition trim_space :: "string \<Rightarrow> string" where
  "trim_space s = trim_by is_space s"

definition lower_char :: "char \<Rightarrow> char" where
  "lower_char c = (let n = (of_char c :: nat) in if 65 \<le> n \<and> n \<le> 90 then char_of (n + 32) else c)"

definition upper_char :: "char \<Rightarrow> char" where
  "upper_char c = (let n = (of_char c :: nat) in if 97 \<le> n \<and> n \<le> 122 then char_of (n - 32) else c)"

text \<open>\<open>strings.ToLower\<close>, \<open>strings.ToUpper\<close> and \<open>strings.EqualFold\<close>.\<close>

definition to_lower :: "string \<Rightarrow> string" where
  "to_lower s = map lower_char s"

definition to_upper :: "string \<Rightarrow> string" where
  "to_upper s = map upper_char s"

definition equal_fold :: "string \<Rightarrow> string \<Rightarrow> bool" where
  "equal_fold a b \<longleftrightarrow> to_lower a = to_lower b"

text \<open>\<open>strings.HasPrefix\<close>, \<open>HasSuffix\<close>, \<open>Contains\<close>, \<open>TrimPrefix\<close>, \<open>TrimSuffix\<close>.\<close>

definition has_prefix :: "string \<Rightarrow> string \<Rightarrow> bool" where
  "has_prefix s p \<longleftrightarrow> prefix p s"

definition has_suffix :: "string \<Rightarrow> string \<Rightarrow> bool" where
  "has_suffix s p \<longleftrightarrow> suffix p s"

fun contains :: "string \<Rightarrow> string \<Rightarrow> bool" where
  "contains [] p \<longleftrightarrow> p = []"
| "contains (c # s) p \<longleftrightarrow> prefix p (c # s) \<or> contains s p"

definition trim_prefix :: "string \<Rightarrow> string \<Rightarrow> string" where
  "trim_prefix s p = (if prefix p s then drop (length p) s else s)"

definition trim_suffix :: "string \<Rightarrow> string \<Rightarrow> string" where
  "trim_suffix s p = (if suffix p s then take (length s - length p) s else s)"

text \<open>\<open>strings.Split\<close> with a separator of one byte, and \<open>strings.Join\<close> with one.\<close>

fun split_on :: "char \<Rightarrow> string \<Rightarrow> string list" where
  "split_on d [] = [[]]"
| "split_on d (c # s) =
     (if c = d then [] # split_on d s
      else (case split_on d s of [] \<Rightarrow> [[c]] | w # ws \<Rightarrow> (c # w) # ws))"

fun join_with :: "char \<Rightarrow> string list \<Rightarrow> string" where
  "join_with d [] = []"
| "join_with d [w] = w"
| "join_with d (w # ws) = w @ d # join_with d ws"

text \<open>
  \<open>strings.ReplaceAll\<close>: the leftmost occurrences, without overlap. An empty pattern (which the
  program never passes) is left alone.
\<close>

function replace_all :: "string \<Rightarrow> string \<Rightarrow> string \<Rightarrow> string" where
  "replace_all p r [] = []"
| "replace_all p r (c # s) =
     (if p \<noteq> [] \<and> prefix p (c # s) then r @ replace_all p r (drop (length p) (c # s))
      else c # replace_all p r s)"
  by pat_completeness auto
termination
  by (relation "measure (\<lambda>(p, r, s). length s)") auto

section \<open>Facts\<close>

lemma lower_char_idem [simp]: "lower_char (lower_char c) = lower_char c"
  by (simp add: lower_char_def Let_def)

lemma to_lower_idem [simp]: "to_lower (to_lower s) = to_lower s"
  by (simp add: to_lower_def comp_def)

lemma to_lower_append [simp]: "to_lower (a @ b) = to_lower a @ to_lower b"
  by (simp add: to_lower_def)

lemma to_lower_Nil_iff [simp]: "to_lower s = [] \<longleftrightarrow> s = []"
  by (simp add: to_lower_def)

lemma length_to_lower [simp]: "length (to_lower s) = length s"
  by (simp add: to_lower_def)

lemma equal_fold_refl [simp]: "equal_fold a a"
  by (simp add: equal_fold_def)

lemma trim_by_subset: "set (trim_by p s) \<subseteq> set s"
  unfolding trim_by_def trim_right_by_def trim_left_by_def
  by (auto dest!: set_dropWhileD)

lemma trim_space_subset: "set (trim_space s) \<subseteq> set s"
  by (simp add: trim_space_def trim_by_subset)

lemma trim_by_Nil [simp]: "trim_by p [] = []"
  by (simp add: trim_by_def trim_right_by_def trim_left_by_def)

lemma trim_space_Nil [simp]: "trim_space [] = []"
  by (simp add: trim_space_def)

lemma trim_by_id: "s \<noteq> [] \<Longrightarrow> \<not> p (hd s) \<Longrightarrow> \<not> p (last s) \<Longrightarrow> trim_by p s = s"
proof -
  assume s: "s \<noteq> []" "\<not> p (hd s)" "\<not> p (last s)"
  then have "dropWhile p s = s" by (cases s) auto
  moreover have "dropWhile p (rev s) = rev s"
    using s by (cases s rule: rev_cases) auto
  ultimately show ?thesis
    by (simp add: trim_by_def trim_right_by_def trim_left_by_def)
qed

lemma trim_by_ends: "trim_by p s \<noteq> [] \<Longrightarrow> \<not> p (hd (trim_by p s)) \<and> \<not> p (last (trim_by p s))"
proof -
  define t where "t = dropWhile p s"
  assume ne: "trim_by p s \<noteq> []"
  have eq: "trim_by p s = rev (dropWhile p (rev t))"
    by (simp add: trim_by_def trim_right_by_def trim_left_by_def t_def)
  have "\<not> p (last (trim_by p s))"
    using ne hd_dropWhile [of p "rev t"] by (simp add: eq last_rev)
  moreover have "\<not> p (hd (trim_by p s))"
  proof -
    have t: "t \<noteq> []" using ne eq by auto
    then have "\<not> p (hd t)" unfolding t_def using hd_dropWhile by blast
    moreover obtain u where u: "t = trim_by p s @ u"
      using eq takeWhile_dropWhile_id [of p "rev t"]
      by (metis rev_append rev_rev_ident)
    have "hd t = hd (trim_by p s)" using ne by (subst u) simp
    ultimately show ?thesis by simp
  qed
  ultimately show ?thesis by simp
qed

lemma trim_space_idem [simp]: "trim_space (trim_space s) = trim_space s"
  unfolding trim_space_def
  by (cases "trim_by is_space s = []") (simp_all add: trim_by_id trim_by_ends)

lemma split_on_nonempty [simp]: "split_on d s \<noteq> []"
  by (induction s) (auto split: list.splits)

lemma join_split [simp]: "join_with d (split_on d s) = s"
proof (induction s)
  case (Cons c s)
  then show ?case
    by (cases "split_on d s"; cases "tl (split_on d s)") auto
qed simp

lemma split_on_no_sep: "d \<notin> set s \<Longrightarrow> split_on d s = [s]"
  by (induction s) auto

lemma split_on_sep_free: "w \<in> set (split_on d s) \<Longrightarrow> d \<notin> set w"
  by (induction s arbitrary: w) (auto split: list.splits if_splits)

lemma split_on_subset: "w \<in> set (split_on d s) \<Longrightarrow> set w \<subseteq> set s"
  by (induction s arbitrary: w) (force split: list.splits if_splits)+

lemma split_on_append_sep: "d \<notin> set a \<Longrightarrow> split_on d (a @ d # s) = a # split_on d s"
  by (induction a) auto

lemma split_join: "ws \<noteq> [] \<Longrightarrow> (\<forall>w\<in>set ws. d \<notin> set w) \<Longrightarrow> split_on d (join_with d ws) = ws"
  by (induction d ws rule: join_with.induct) (auto simp: split_on_no_sep split_on_append_sep)

lemma contains_iff: "contains s p \<longleftrightarrow> sublist p s"
proof (induction s)
  case Nil
  then show ?case by simp
next
  case (Cons c s)
  then show ?case by (auto simp: sublist_Cons_right)
qed

lemma trim_prefix_append [simp]: "trim_prefix (p @ s) p = s"
  by (simp add: trim_prefix_def)

lemma trim_suffix_append [simp]: "trim_suffix (s @ p) p = s"
  by (simp add: trim_suffix_def suffix_def)

text \<open>After replacing a pattern by a text that shares no byte with it, the pattern is gone.\<close>

lemma set_replace_all: "x \<in> set (replace_all p r s) \<Longrightarrow> x \<in> set s \<or> x \<in> set r"
proof (induction p r s rule: replace_all.induct)
  case (2 p r c s)
  then show ?case using in_set_dropD [of x "length p" "c # s"] by (auto split: if_splits)
qed simp

lemma replace_all_char_gone: "d \<notin> set r \<Longrightarrow> d \<notin> set (replace_all [d] r s)"
proof (induction "[d]" r s rule: replace_all.induct)
  case (2 r c s)
  then show ?case by auto
qed simp

end
