(* ===== verification/Proto.thy ===== *)
theory Proto
  imports GoString
begin

text \<open>
  The wire protocol, \<open>internal/proto/proto.go\<close>: the chunk header and its acknowledgement, the
  canonical byte string under the HMAC, signing and verification, structural validation, and the
  length-prefixed frames. HMAC-SHA256 is the parameter \<open>hmac\<close> (key, message) and the JSON codec
  the parameters \<open>marshal\<close> and \<open>unmarshal\<close>; what a property needs of them is a hypothesis of it.
\<close>

section \<open>Code\<close>

record header =
  h_message_type :: string
  h_transfer_id :: string
  h_file_name :: string
  h_part_index :: int
  h_total_parts :: int
  h_part_size :: int64
  h_chunk_index :: int64
  h_offset :: int64
  h_total_bytes :: int64
  h_lab :: bool
  h_lab_path :: string
  h_receive_rel_path :: string
  h_publish_name :: string
  h_folder_result :: string
  h_chunk_sha256 :: string
  h_auth :: string

record chunk_ack =
  ack_type :: string
  ack_transfer_id :: string
  ack_chunk_index :: int64
  ack_status :: string
  ack_bytes_received :: int64
  ack_error :: string

abbreviation NUL :: char where "NUL \<equiv> CHR 0x00"

definition auth_fields :: "header \<Rightarrow> string list" where
  "auth_fields h = [''v1'', h_message_type h, h_transfer_id h, h_file_name h, itoa (h_part_index h),
     itoa (h_total_parts h), itoa (h_part_size h), itoa (h_chunk_index h), itoa (h_offset h),
     itoa (h_total_bytes h), if h_lab h then ''true'' else ''false'', h_lab_path h,
     h_receive_rel_path h, h_publish_name h, h_folder_result h, h_chunk_sha256 h]"

definition auth_payload :: "header \<Rightarrow> bytes" where
  "auth_payload h = join_with NUL (auth_fields h)"

definition sign_header :: "(bytes \<Rightarrow> bytes \<Rightarrow> bytes) \<Rightarrow> bytes \<Rightarrow> header \<Rightarrow> header" where
  "sign_header hmac secret h =
     (if secret = [] then h
      else h\<lparr>h_auth := hex_encode (hmac secret (auth_payload (h\<lparr>h_auth := ''''\<rparr>)))\<rparr>)"

definition verify_header :: "(bytes \<Rightarrow> bytes \<Rightarrow> bytes) \<Rightarrow> bytes \<Rightarrow> header \<Rightarrow> bool" where
  "verify_header hmac secret h =
     (if secret = [] then True
      else case hex_decode (h_auth h) of
             None \<Rightarrow> False
           | Some provided \<Rightarrow>
               if provided = [] then False
               else hmac secret (auth_payload (h\<lparr>h_auth := ''''\<rparr>)) = provided)"

definition default_type :: "string \<Rightarrow> header \<Rightarrow> header" where
  "default_type t h = (if h_message_type h = '''' then h\<lparr>h_message_type := t\<rparr> else h)"

definition id_char :: "char \<Rightarrow> bool" where
  "id_char c \<longleftrightarrow> (let n = (of_char c :: nat) in
     (97 \<le> n \<and> n \<le> 122) \<or> (65 \<le> n \<and> n \<le> 90) \<or> (48 \<le> n \<and> n \<le> 57) \<or> n = 45 \<or> n = 95)"

definition sha256_size :: nat where "sha256_size = 32"

definition validate_header :: "header \<Rightarrow> unit result" where
  "validate_header h =
     (if h_message_type h \<noteq> '''' \<and> h_message_type h \<noteq> ''chunk_start'' then Inl ''invalid message type''
      else if length (h_transfer_id h) = 0 \<or> 128 < length (h_transfer_id h)
              \<or> \<not> list_all id_char (h_transfer_id h) then Inl ''invalid transfer_id''
      else if trim_space (h_file_name h) = '''' then Inl ''invalid file_name''
      else if h_total_parts h < 1 \<or> 1000000 < h_total_parts h \<or> h_chunk_index h < 0
              \<or> h_total_parts h \<le> h_chunk_index h \<or> h_part_index h \<noteq> i64 (h_chunk_index h + 1)
           then Inl ''invalid chunk position''
      else if h_total_bytes h < 0 \<or> h_offset h < 0 \<or> h_part_size h < 0
              \<or> h_total_bytes h < h_part_size h \<or> i64 (h_total_bytes h - h_part_size h) < h_offset h
           then Inl ''invalid chunk bounds''
      else if h_chunk_sha256 h \<noteq> '''' then
        (if length (h_chunk_sha256 h) \<noteq> sha256_size * 2 then Inl ''invalid chunk_sha256''
         else case hex_decode (h_chunk_sha256 h) of None \<Rightarrow> Inl ''invalid chunk_sha256'' | Some _ \<Rightarrow> Inr ())
      else Inr ())"

text \<open>Frames: four bytes of big-endian length, then the JSON text.\<close>

definition be32 :: "nat \<Rightarrow> bytes" where
  "be32 n = [char_of (n div 16777216), char_of (n div 65536), char_of (n div 256), char_of n]"

definition be32_val :: "bytes \<Rightarrow> nat" where
  "be32_val bs = foldl (\<lambda>a b. a * 256 + of_char b) 0 bs"

definition max_frame :: nat where "max_frame = 64 * 1024"

definition write_frame :: "('v \<Rightarrow> bytes result) \<Rightarrow> 'v \<Rightarrow> bytes result" where
  "write_frame marshal v =
     (case marshal v of
        Inl e \<Rightarrow> Inl e
      | Inr b \<Rightarrow> if max_frame < length b then Inl ''frame too large'' else Inr (be32 (length b) @ b))"

text \<open>Reading consumes a prefix of the stream; the rest is returned with the value.\<close>

definition read_frame :: "(bytes \<Rightarrow> 'v result) \<Rightarrow> bytes \<Rightarrow> ('v \<times> bytes) result" where
  "read_frame unmarshal stream =
     (if length stream < 4 then Inl ''EOF''
      else let n = be32_val (take 4 stream); rest = drop 4 stream in
        if n = 0 \<or> max_frame < n then Inl ''invalid frame length''
        else if length rest < n then Inl ''unexpected EOF''
        else case unmarshal (take n rest) of Inl e \<Rightarrow> Inl e | Inr v \<Rightarrow> Inr (v, drop n rest))"

definition write_header :: "(header \<Rightarrow> bytes result) \<Rightarrow> header \<Rightarrow> bytes result" where
  "write_header marshal h = write_frame marshal (default_type ''chunk_start'' h)"

definition read_header :: "(bytes \<Rightarrow> header result) \<Rightarrow> bytes \<Rightarrow> (header \<times> bytes) result" where
  "read_header unmarshal stream =
     (case read_frame unmarshal stream of
        Inl e \<Rightarrow> Inl e
      | Inr (h, rest) \<Rightarrow> Inr (default_type ''chunk_start'' h, rest))"

definition default_ack :: "chunk_ack \<Rightarrow> chunk_ack" where
  "default_ack a = (if ack_type a = '''' then a\<lparr>ack_type := ''chunk_ack''\<rparr> else a)"

definition write_chunk_ack :: "(chunk_ack \<Rightarrow> bytes result) \<Rightarrow> chunk_ack \<Rightarrow> bytes result" where
  "write_chunk_ack marshal a = write_frame marshal (default_ack a)"

definition read_chunk_ack :: "(bytes \<Rightarrow> chunk_ack result) \<Rightarrow> bytes \<Rightarrow> (chunk_ack \<times> bytes) result" where
  "read_chunk_ack unmarshal stream =
     (case read_frame unmarshal stream of Inl e \<Rightarrow> Inl e | Inr (a, rest) \<Rightarrow> Inr (default_ack a, rest))"

section \<open>Frames round trip\<close>

lemma length_be32 [simp]: "length (be32 n) = 4"
  by (simp add: be32_def)

lemma be32_val_be32: "n < 4294967296 \<Longrightarrow> be32_val (be32 n) = n"
proof -
  assume n: "n < 4294967296"
  have "be32_val (be32 n) = ((n div 16777216 mod 256 * 256 + n div 65536 mod 256) * 256
      + n div 256 mod 256) * 256 + n mod 256"
    by (simp add: be32_def be32_val_def)
  also have "n div 16777216 mod 256 = n div 16777216" using n by (intro mod_less) auto
  also have "n div 16777216 * 256 + n div 65536 mod 256 = n div 65536"
    using div_mult_mod_eq [of "n div 65536" 256] by (simp add: div_mult2_eq [symmetric])
  also have "n div 65536 * 256 + n div 256 mod 256 = n div 256"
    using div_mult_mod_eq [of "n div 256" 256] by (simp add: div_mult2_eq [symmetric])
  finally show ?thesis by simp
qed

lemma read_write_frame:
  "write_frame marshal v = Inr fr \<Longrightarrow> marshal v = Inr b \<Longrightarrow> b \<noteq> [] \<Longrightarrow> unmarshal b = Inr v' \<Longrightarrow>
   read_frame unmarshal (fr @ rest) = Inr (v', rest)"
  by (auto simp: write_frame_def read_frame_def Let_def be32_val_be32 max_frame_def split: if_splits)

lemma read_frame_consumes:
  "read_frame unmarshal stream = Inr (v, rest) \<Longrightarrow>
   \<exists>b. length b \<le> max_frame \<and> b \<noteq> [] \<and> unmarshal b = Inr v \<and> stream = take 4 stream @ b @ rest"
proof -
  assume r: "read_frame unmarshal stream = Inr (v, rest)"
  define n where "n = be32_val (take 4 stream)"
  define b where "b = take n (drop 4 stream)"
  from r have "n \<noteq> 0" "n \<le> max_frame" "n \<le> length (drop 4 stream)" "unmarshal b = Inr v"
    and rest: "rest = drop n (drop 4 stream)"
    by (auto simp: read_frame_def Let_def n_def [symmetric] b_def [symmetric] split: if_splits sum.splits)
  moreover from this have "length b = n" "b \<noteq> []" by (auto simp: b_def)
  moreover have "stream = take 4 stream @ b @ rest"
    unfolding b_def rest by (metis append_take_drop_id)
  ultimately show ?thesis by metis
qed

lemma default_type_idem [simp]: "default_type ''chunk_start'' (default_type ''chunk_start'' h) = default_type ''chunk_start'' h"
  by (simp add: default_type_def)

lemma auth_payload_auth [simp]: "auth_payload (h\<lparr>h_auth := a\<rparr>) = auth_payload h"
  by (simp add: auth_payload_def auth_fields_def)

lemma sign_header_sel [simp]:
  "h_offset (sign_header hmac k h) = h_offset h"
  "h_part_size (sign_header hmac k h) = h_part_size h"
  "h_message_type (sign_header hmac k h) = h_message_type h"
  "auth_payload (sign_header hmac k h) = auth_payload h"
  by (simp_all add: sign_header_def)

lemma validate_header_auth [simp]: "validate_header (h\<lparr>h_auth := a\<rparr>) = validate_header h"
  by (simp add: validate_header_def)

lemma validate_header_sign [simp]: "validate_header (sign_header hmac k h) = validate_header h"
  by (simp add: sign_header_def)

section \<open>The canonical payload\<close>

text \<open>The text fields of a header that the peer controls; numbers and the flag render without NUL.\<close>

definition nul_free :: "header \<Rightarrow> bool" where
  "nul_free h \<longleftrightarrow> list_all (\<lambda>s. NUL \<notin> set s) [h_message_type h, h_transfer_id h, h_file_name h,
     h_lab_path h, h_receive_rel_path h, h_publish_name h, h_folder_result h, h_chunk_sha256 h]"

lemma itoa_no_nul: "NUL \<notin> set (itoa v)"
  using itoa_chars [of NUL v] by (auto simp: is_digit_def)

lemma auth_fields_nul_free: "nul_free h \<Longrightarrow> \<forall>w\<in>set (auth_fields h). NUL \<notin> set w"
  by (auto simp: auth_fields_def nul_free_def itoa_no_nul)

lemma auth_payload_split: "nul_free h \<Longrightarrow> split_on NUL (auth_payload h) = auth_fields h"
  unfolding auth_payload_def using auth_fields_nul_free
  by (intro split_join) (auto simp: auth_fields_def)

lemma auth_fields_eqD: "auth_fields h = auth_fields h' \<Longrightarrow> h\<lparr>h_auth := ''''\<rparr> = h'\<lparr>h_auth := ''''\<rparr>"
  by (cases h; cases h') (auto simp: auth_fields_def split: if_splits)

section \<open>Properties\<close>

text \<open>
  C32: The canonical payload determines every field but \<open>Auth\<close>: two headers whose texts contain no
  NUL byte have the same payload only if they agree on everything the HMAC is meant to cover.
\<close>

theorem auth_payload_injective:
  assumes "nul_free h" "nul_free h'" "auth_payload h = auth_payload h'"
  shows "h\<lparr>h_auth := ''''\<rparr> = h'\<lparr>h_auth := ''''\<rparr>"
proof (rule auth_fields_eqD)
  show "auth_fields h = auth_fields h'"
    using auth_payload_split [OF assms(1)] auth_payload_split [OF assms(2)] assms(3) by simp
qed

definition demo_header :: header where
  "demo_header = \<lparr>h_message_type = '''', h_transfer_id = ''tx-1'', h_file_name = ''a.bin'',
     h_part_index = 1, h_total_parts = 2, h_part_size = 4, h_chunk_index = 0, h_offset = 0,
     h_total_bytes = 7, h_lab = False, h_lab_path = '''', h_receive_rel_path = '''',
     h_publish_name = '''', h_folder_result = '''', h_chunk_sha256 = '''', h_auth = ''''\<rparr>"

theorem auth_payload_injective_witness:
  "demo_header\<lparr>h_auth := ''''\<rparr> = (demo_header\<lparr>h_auth := ''00''\<rparr>)\<lparr>h_auth := ''''\<rparr>"
proof -
  have "nul_free demo_header" "nul_free (demo_header\<lparr>h_auth := ''00''\<rparr>)" by code_simp+
  then show ?thesis by (rule auth_payload_injective) simp
qed

text \<open>
  The separator is not escaped, so with NUL bytes allowed in the text fields the payload is
  ambiguous: two headers that pass \<open>ValidateHeader\<close> and differ in the receive path have the same
  payload, hence the same HMAC under every key.
\<close>

theorem auth_payload_ambiguous:
  "\<exists>h h'. validate_header h = Inr () \<and> validate_header h' = Inr () \<and>
     h_receive_rel_path h \<noteq> h_receive_rel_path h' \<and>
     (\<forall>hmac secret. h_auth (sign_header hmac secret h) = h_auth (sign_header hmac secret h'))"
proof -
  let ?h = "demo_header\<lparr>h_lab_path := [CHR ''a'', NUL, CHR ''b''], h_receive_rel_path := ''c''\<rparr>"
  let ?h' = "demo_header\<lparr>h_lab_path := ''a'', h_receive_rel_path := [CHR ''b'', NUL, CHR ''c'']\<rparr>"
  have v: "validate_header ?h = Inr ()" "validate_header ?h' = Inr ()" by code_simp+
  have p: "auth_payload ?h = auth_payload ?h'" by (simp add: auth_payload_def auth_fields_def demo_header_def)
  have "h_auth (sign_header hmac secret ?h) = h_auth (sign_header hmac secret ?h')" for hmac secret
    using p by (simp add: sign_header_def demo_header_def)
  with v show ?thesis by (intro exI [of _ ?h] exI [of _ ?h']) (simp add: demo_header_def)
qed



end
