(* ===== verification/Chunk.thy ===== *)
theory Chunk
  imports Prelude
begin

text \<open>
  The chunk planner, \<open>internal/chunk/chunk.go\<close>, and the weighted two-way splitter,
  \<open>internal/split/split.go\<close>. The planning loop advances an \<open>int64\<close> offset by the chunk size; for
  a total close to the largest \<open>int64\<close> that addition wraps, so the loop is a
  \<open>partial_function\<close> whose result \<open>None\<close> means that it does not return. A plan is judged by
  \<open>tiling\<close>: consecutive indices, contiguous offsets, positive sizes, summing up to the file.
\<close>

section \<open>Code\<close>

definition MiB :: int where "MiB = 1024 * 1024"

record chunk =
  ch_index :: int64
  ch_offset :: int64
  ch_size :: int64
  ch_start :: int64
  ch_end :: int64

record plan =
  pl_total_bytes :: int64
  pl_chunk_size :: int64
  pl_chunks :: "chunk list"

definition auto_chunk_size :: "int64 \<Rightarrow> int64" where
  "auto_chunk_size totalBytes =
     (if totalBytes < 100 * MiB then 2 * MiB
      else if totalBytes \<le> 1024 * MiB then 4 * MiB
      else if totalBytes \<le> 4 * 1024 * MiB then 8 * MiB
      else 16 * MiB)"

definition chunk_count :: "int64 \<Rightarrow> int64 \<Rightarrow> int64" where
  "chunk_count totalBytes chunkSize =
     (if totalBytes \<le> 0 \<or> chunkSize \<le> 0 then 0
      else let count = go_div totalBytes chunkSize in
        if go_mod totalBytes chunkSize \<noteq> 0 then i64 (count + 1) else count)"

text \<open>The loop of \<open>BuildPlan\<close>: loop variables \<open>i\<close> and \<open>offset\<close>, the slice built so far in \<open>acc\<close>.\<close>

partial_function (option) plan_loop ::
    "int64 \<Rightarrow> int64 \<Rightarrow> int64 \<Rightarrow> int64 \<Rightarrow> chunk list \<Rightarrow> chunk list option" where
  "plan_loop totalBytes chunkSize i offset acc =
     (if offset < totalBytes then
        (let remain = i64 (totalBytes - offset);
             sz = (if remain < chunkSize then remain else chunkSize)
         in plan_loop totalBytes chunkSize (i64 (i + 1)) (i64 (offset + chunkSize))
              (acc @ [\<lparr>ch_index = i, ch_offset = offset, ch_size = sz,
                       ch_start = offset, ch_end = i64 (i64 (offset + sz) - 1)\<rparr>]))
      else Some acc)"

definition build_plan :: "int64 \<Rightarrow> int64 \<Rightarrow> plan result option" where
  "build_plan totalBytes chunkSize =
     (if totalBytes < 0 then Some (Inl ''invalid total bytes'')
      else if chunkSize \<le> 0 then Some (Inl ''invalid chunk size'')
      else case plan_loop totalBytes chunkSize 0 0 [] of
             None \<Rightarrow> None
           | Some cs \<Rightarrow> Some (Inr \<lparr>pl_total_bytes = totalBytes, pl_chunk_size = chunkSize, pl_chunks = cs\<rparr>))"

text \<open>\<open>split.ComputeParts\<close>: the product and the sum are 64-bit and wrap.\<close>

definition compute_parts :: "int64 \<Rightarrow> int64 \<Rightarrow> int64 \<Rightarrow> (int64 \<times> int64) result" where
  "compute_parts tot leftWeight rightWeight =
     (if tot < 0 \<or> leftWeight \<le> 0 \<or> rightWeight \<le> 0 then Inl ''invalid inputs''
      else let sum = i64 (leftWeight + rightWeight);
               left = go_div (i64 (tot * leftWeight)) sum;
               right = i64 (tot - left)
           in Inr (left, right))"

section \<open>Tilings of a file\<close>

type_synonym geom = "int64 \<times> int64 \<times> int64" \<comment> \<open>index, offset, size\<close>

definition chunk_geom :: "chunk \<Rightarrow> geom" where
  "chunk_geom c = (ch_index c, ch_offset c, ch_size c)"

fun tiling :: "int \<Rightarrow> int \<Rightarrow> int \<Rightarrow> geom list \<Rightarrow> bool" where
  "tiling i off tot [] \<longleftrightarrow> off = tot"
| "tiling i off tot ((ix, o', sz) # gs) \<longleftrightarrow>
     ix = i \<and> o' = off \<and> 0 < sz \<and> sz \<le> tot - off \<and> tiling (i + 1) (off + sz) tot gs"

definition file_slice :: "bytes \<Rightarrow> geom \<Rightarrow> bytes" where
  "file_slice content g = (case g of (ix, o', sz) \<Rightarrow> take (nat sz) (drop (nat o') content))"

lemma tiling_sum: "tiling i off tot gs \<Longrightarrow> sum_list (map (\<lambda>(_, _, sz). sz) gs) = tot - off"
  by (induction i off tot gs rule: tiling.induct) auto

lemma tiling_le: "tiling i off tot gs \<Longrightarrow> off \<le> tot"
  by (induction i off tot gs rule: tiling.induct) auto

lemma tiling_indices: "tiling i off tot gs \<Longrightarrow> map fst gs = map (\<lambda>k. i + int k) [0..<length gs]"
proof (induction i off tot gs rule: tiling.induct)
  case (2 i off tot ix o' sz gs)
  then have "map fst gs = map (\<lambda>k. i + 1 + int k) [0..<length gs]" by simp
  also have "\<dots> = map (\<lambda>k. i + int k) [1..<Suc (length gs)]"
    by (simp add: map_Suc_upt [symmetric] comp_def add.assoc del: upt_Suc)
  finally show ?case using 2 by (simp add: upt_conv_Cons del: upt_Suc)
qed simp

lemma tiling_distinct: "tiling i off tot gs \<Longrightarrow> distinct (map fst gs)"
  by (simp add: tiling_indices distinct_map inj_on_def)

lemma tiling_concat:
  "tiling i off tot gs \<Longrightarrow> 0 \<le> off \<Longrightarrow> int (length content) = tot \<Longrightarrow>
   concat (map (file_slice content) gs) = drop (nat off) content"
proof (induction i off tot gs rule: tiling.induct)
  case (1 i off tot)
  then show ?case by simp
next
  case (2 i off tot ix o' sz gs)
  then have IH: "concat (map (file_slice content) gs) = drop (nat (off + sz)) content" by simp
  have "file_slice content (ix, o', sz) @ drop (nat (off + sz)) content = drop (nat off) content"
    using 2 append_take_drop_id [of "nat sz" "drop (nat off) content"]
    by (simp add: file_slice_def nat_add_distrib add.commute)
  with IH show ?case by simp
qed

lemma tiling_slices_length:
  "tiling i off tot gs \<Longrightarrow> 0 \<le> off \<Longrightarrow> int (length content) = tot \<Longrightarrow>
   list_all (\<lambda>g. int (length (file_slice content g)) = snd (snd g)) gs"
proof (induction i off tot gs rule: tiling.induct)
  case (2 i off tot ix o' sz gs)
  then show ?case by (auto simp: file_slice_def)
qed simp

section \<open>Correctness of the planner\<close>

definition spec_chunk :: "int \<Rightarrow> int \<Rightarrow> int \<Rightarrow> chunk" where
  "spec_chunk tot cs k = (let o' = k * cs; sz = min cs (tot - o') in
     \<lparr>ch_index = k, ch_offset = o', ch_size = sz, ch_start = o', ch_end = o' + sz - 1\<rparr>)"

lemma chunk_count_pos:
  assumes "0 < cs" "0 \<le> tot" "tot \<le> max_i64"
  shows "chunk_count tot cs = (tot + cs - 1) div cs"
proof (cases "tot = 0")
  case True
  with assms show ?thesis by (simp add: chunk_count_def)
next
  case False
  have q: "0 \<le> tot div cs" "tot div cs \<le> tot"
    using assms False by (simp_all add: pos_imp_zdiv_nonneg_iff int_div_le_self)
  have "cs = 1 \<or> 2 \<le> cs" using assms by linarith
  moreover have "(tot + cs - 1) div cs = (if tot mod cs = 0 then tot div cs else tot div cs + 1)"
  proof -
    have t: "tot = cs * (tot div cs) + tot mod cs" by simp
    have r: "0 \<le> tot mod cs" "tot mod cs < cs" using assms by simp_all
    show ?thesis
    proof (cases "tot mod cs = 0")
      case True
      then have "tot + cs - 1 = (cs - 1) + cs * (tot div cs)" using t by linarith
      moreover have "((cs - 1) + cs * (tot div cs)) div cs = tot div cs + (cs - 1) div cs"
        using assms by (intro div_mult_self2) auto
      ultimately have "(tot + cs - 1) div cs = tot div cs + (cs - 1) div cs" by (simp only:)
      then show ?thesis using True assms by simp
    next
      case False
      have "tot + cs - 1 = (tot mod cs - 1) + cs * (tot div cs + 1)"
        using t by (simp add: algebra_simps)
      moreover have "((tot mod cs - 1) + cs * (tot div cs + 1)) div cs
          = (tot div cs + 1) + (tot mod cs - 1) div cs"
        using assms by (intro div_mult_self2) auto
      ultimately have "(tot + cs - 1) div cs = (tot div cs + 1) + (tot mod cs - 1) div cs"
        by (simp only:)
      then show ?thesis using False r by simp
    qed
  qed
  moreover have "tot mod cs \<noteq> 0 \<Longrightarrow> tot div cs + 1 \<le> max_i64"
  proof -
    assume m: "tot mod cs \<noteq> 0"
    then have "2 \<le> cs" using assms \<open>cs = 1 \<or> 2 \<le> cs\<close> by auto
    then have "tot div cs \<le> tot div 2"
      using assms by (intro zdiv_mono2) auto
    then show ?thesis using assms by linarith
  qed
  ultimately show ?thesis using False assms q by (simp add: chunk_count_def Let_def)
qed

lemma lt_chunk_count_iff:
  assumes "0 < cs" "0 \<le> tot" "tot \<le> max_i64"
  shows "k < chunk_count tot cs \<longleftrightarrow> k * cs < tot"
proof -
  have "k < (tot + cs - 1) div cs \<longleftrightarrow> k + 1 \<le> (tot + cs - 1) div cs" by linarith
  also have "\<dots> \<longleftrightarrow> (k + 1) * cs \<le> tot + cs - 1"
    using assms by (simp add: le_div_iff_int)
  also have "\<dots> \<longleftrightarrow> k * cs < tot" by (simp add: algebra_simps) linarith
  finally show ?thesis using assms by (simp add: chunk_count_pos)
qed

lemma plan_loop_spec:
  assumes cs: "0 < cs" and tot: "0 \<le> tot" "tot + cs \<le> max_i64 + 1"
  shows "0 \<le> k \<Longrightarrow> k \<le> chunk_count tot cs \<Longrightarrow>
    plan_loop tot cs k (k * cs) acc = Some (acc @ map (spec_chunk tot cs) [k..chunk_count tot cs - 1])"
proof (induction "nat (chunk_count tot cs - k)" arbitrary: k acc)
  case 0
  then have "\<not> k * cs < tot"
    using lt_chunk_count_iff [of cs tot k] assms by simp
  with 0 show ?case by (simp add: plan_loop.simps)
next
  case (Suc m)
  then have k: "k < chunk_count tot cs" by simp
  then have lt: "k * cs < tot"
    using lt_chunk_count_iff [of cs tot k] assms by simp
  have nn: "0 \<le> k * cs" using Suc cs by simp
  have "k * 1 \<le> k * cs" using Suc cs by (intro mult_left_mono) auto
  then have kb: "k + 1 \<le> max_i64" using lt tot cs by linarith
  have adv: "i64 (k * cs + cs) = k * cs + cs" using lt tot nn cs by (intro i64_id) linarith+
  have step: "(k + 1) * cs = k * cs + cs" by (simp add: algebra_simps)
  have IH: "plan_loop tot cs (k + 1) ((k + 1) * cs) (acc @ [spec_chunk tot cs k])
      = Some (acc @ [spec_chunk tot cs k] @ map (spec_chunk tot cs) [k + 1..chunk_count tot cs - 1])"
    using Suc.hyps(1) [of "k + 1" "acc @ [spec_chunk tot cs k]"] Suc.hyps(2) Suc.prems k by simp
  have c: "\<lparr>ch_index = k, ch_offset = k * cs,
      ch_size = (if i64 (tot - k * cs) < cs then i64 (tot - k * cs) else cs),
      ch_start = k * cs,
      ch_end = i64 (i64 (k * cs + (if i64 (tot - k * cs) < cs then i64 (tot - k * cs) else cs)) - 1)\<rparr>
      = spec_chunk tot cs k"
    using nn lt tot cs by (auto simp: spec_chunk_def Let_def min_def)
  have "plan_loop tot cs k (k * cs) acc
      = plan_loop tot cs (k + 1) ((k + 1) * cs) (acc @ [spec_chunk tot cs k])"
    using lt nn tot cs kb Suc.prems adv
    by (subst plan_loop.simps) (simp add: Let_def c step)
  also have "\<dots> = Some (acc @ map (spec_chunk tot cs) [k..chunk_count tot cs - 1])"
    using IH k upto_rec1 [of k "chunk_count tot cs - 1"] by simp
  finally show ?case .
qed


lemma spec_chunks_tiling:
  assumes cs: "0 < cs" and tot: "0 \<le> tot" "tot \<le> max_i64"
  shows "0 \<le> k \<Longrightarrow> k \<le> chunk_count tot cs \<Longrightarrow>
    tiling k (min tot (k * cs)) tot (map (chunk_geom \<circ> spec_chunk tot cs) [k..chunk_count tot cs - 1])"
proof (induction "nat (chunk_count tot cs - k)" arbitrary: k)
  case 0
  then have "\<not> k * cs < tot" using lt_chunk_count_iff [of cs tot k] assms by simp
  with 0 show ?case by simp
next
  case (Suc m)
  then have k: "k < chunk_count tot cs" by simp
  then have lt: "k * cs < tot" using lt_chunk_count_iff [of cs tot k] assms by simp
  have IH: "tiling (k + 1) (min tot ((k + 1) * cs)) tot
      (map (chunk_geom \<circ> spec_chunk tot cs) [k + 1..chunk_count tot cs - 1])"
    using Suc by simp
  have e: "k * cs + min cs (tot - k * cs) = min tot ((k + 1) * cs)"
    by (simp add: min_def algebra_simps)
  have "chunk_geom (spec_chunk tot cs k) = (k, k * cs, min cs (tot - k * cs))"
    by (simp add: chunk_geom_def spec_chunk_def Let_def)
  moreover have "[k..chunk_count tot cs - 1] = k # [k + 1..chunk_count tot cs - 1]"
    using k by (simp add: upto_rec1)
  ultimately show ?case using IH lt cs by (simp add: min_absorb2 e)
qed

lemma build_plan_eq:
  assumes "0 < cs" "0 \<le> tot" "tot + cs \<le> max_i64 + 1"
  shows "build_plan tot cs = Some (Inr \<lparr>pl_total_bytes = tot, pl_chunk_size = cs,
           pl_chunks = map (spec_chunk tot cs) [0..chunk_count tot cs - 1]\<rparr>)"
proof -
  have "0 \<le> chunk_count tot cs"
    using assms by (simp add: chunk_count_pos pos_imp_zdiv_nonneg_iff)
  then show ?thesis
    using assms plan_loop_spec [of cs tot 0 "[]"] by (simp add: build_plan_def)
qed

lemma build_plan_ok:
  assumes "0 < cs" "0 \<le> tot" "tot + cs \<le> max_i64 + 1"
  obtains p where "build_plan tot cs = Some (Inr p)" "pl_total_bytes p = tot" "pl_chunk_size p = cs"
    "tiling 0 0 tot (map chunk_geom (pl_chunks p))"
    "int (length (pl_chunks p)) = chunk_count tot cs"
    "\<forall>c\<in>set (pl_chunks p). 0 < ch_size c \<and> ch_size c \<le> cs"
proof -
  have n: "0 \<le> chunk_count tot cs"
    using assms by (simp add: chunk_count_pos pos_imp_zdiv_nonneg_iff)
  have t: "tiling 0 0 tot (map (chunk_geom \<circ> spec_chunk tot cs) [0..chunk_count tot cs - 1])"
    using spec_chunks_tiling [of cs tot 0] assms n by simp
  have "0 < ch_size (spec_chunk tot cs k) \<and> ch_size (spec_chunk tot cs k) \<le> cs"
    if "k \<in> set [0..chunk_count tot cs - 1]" for k
    using that lt_chunk_count_iff [of cs tot k] assms by (auto simp: spec_chunk_def Let_def)
  then show thesis using that build_plan_eq [OF assms] t n by (auto simp: comp_def)
qed

section \<open>Properties\<close>

text \<open>
  C28: For every file length and positive chunk size whose sum fits in 63 bits, \<open>BuildPlan\<close>
  returns a plan; its chunks are numbered from zero, contiguous, of positive size at most the
  chunk size, exactly \<open>ChunkCount\<close> many, and cutting any file of that length along the plan and
  concatenating the pieces gives the file back.
\<close>

theorem build_plan_partitions_file:
  assumes "0 < cs" "0 \<le> tot" "tot + cs \<le> max_i64 + 1"
  shows "\<exists>p. build_plan tot cs = Some (Inr p)
    \<and> tiling 0 0 tot (map chunk_geom (pl_chunks p))
    \<and> int (length (pl_chunks p)) = chunk_count tot cs
    \<and> (\<forall>c\<in>set (pl_chunks p). 0 < ch_size c \<and> ch_size c \<le> cs)
    \<and> (\<forall>content. int (length content) = tot \<longrightarrow>
         concat (map (\<lambda>c. file_slice content (chunk_geom c)) (pl_chunks p)) = content)"
proof -
  obtain p where p: "build_plan tot cs = Some (Inr p)"
    "tiling 0 0 tot (map chunk_geom (pl_chunks p))"
    "int (length (pl_chunks p)) = chunk_count tot cs"
    "\<forall>c\<in>set (pl_chunks p). 0 < ch_size c \<and> ch_size c \<le> cs"
    using build_plan_ok [OF assms] by metis
  have "concat (map (\<lambda>c. file_slice content (chunk_geom c)) (pl_chunks p)) = content"
    if "int (length content) = tot" for content
    using tiling_concat [OF p(2) _ that] by (simp add: comp_def)
  with p show ?thesis by blast
qed

theorem build_plan_partitions_file_witness:
  "\<exists>p. build_plan 10 4 = Some (Inr p) \<and> int (length (pl_chunks p)) = 3"
proof -
  have "chunk_count 10 4 = 3" by code_simp
  then show ?thesis using build_plan_partitions_file [of 4 10] by auto
qed

definition wrap_offsets :: "int set" where
  "wrap_offsets = {0, 4611686018427387904, min_i64, - 4611686018427387904}"

lemma wrap_offsets_closed: "off \<in> wrap_offsets \<Longrightarrow> i64 (off + 4611686018427387904) \<in> wrap_offsets"
  by (auto simp: wrap_offsets_def i64_def)

lemma plan_loop_overflow_aux:
  assumes ret: "plan_loop tot cs i off acc = Some r"
  shows "tot = max_i64 \<longrightarrow> cs = 4611686018427387904 \<longrightarrow> off \<notin> wrap_offsets"
proof (rule plan_loop.raw_induct [where P = "\<lambda>tot cs i off acc r.
    tot = max_i64 \<longrightarrow> cs = 4611686018427387904 \<longrightarrow> off \<notin> wrap_offsets", OF _ ret])
  fix f tot cs i off acc r
  assume IH: "\<And>tot cs i off acc r. f tot cs i off acc = Some r \<Longrightarrow>
        tot = max_i64 \<longrightarrow> cs = 4611686018427387904 \<longrightarrow> off \<notin> wrap_offsets"
    and eq: "(if off < tot then
        (let remain = i64 (tot - off); sz = (if remain < cs then remain else cs)
         in f tot cs (i64 (i + 1)) (i64 (off + cs))
              (acc @ [\<lparr>ch_index = i, ch_offset = off, ch_size = sz,
                       ch_start = off, ch_end = i64 (i64 (off + sz) - 1)\<rparr>]))
      else Some acc) = Some r"
  show "tot = max_i64 \<longrightarrow> cs = 4611686018427387904 \<longrightarrow> off \<notin> wrap_offsets"
  proof (intro impI notI)
    assume a: "tot = max_i64" "cs = 4611686018427387904" and o': "off \<in> wrap_offsets"
    then have "off < tot" using a by (auto simp: wrap_offsets_def)
    with eq have "\<exists>i' acc'. f tot cs i' (i64 (off + cs)) acc' = Some r" by (auto simp: Let_def)
    then have "i64 (off + cs) \<notin> wrap_offsets" using IH a by blast
    then show False using wrap_offsets_closed [OF o'] a by simp
  qed
qed

text \<open>
  C40: The limit is real: for a total of 2^63 - 1 bytes and chunks of 2^62 bytes the offset wraps
  to a negative number and \<open>BuildPlan\<close> never returns.
\<close>

theorem build_plan_overflow_diverges: "build_plan max_i64 4611686018427387904 = None"
proof -
  have "plan_loop max_i64 4611686018427387904 0 0 [] \<noteq> Some r" for r
    using plan_loop_overflow_aux [of max_i64 4611686018427387904 0 0 "[]" r]
    by (auto simp: wrap_offsets_def)
  then have "plan_loop max_i64 4611686018427387904 0 0 [] = None" by (meson not_Some_eq)
  then show ?thesis by (simp add: build_plan_def)
qed

text \<open>
  \<open>split.ComputeParts\<close> divides a length into two nonnegative parts that add up to it, the
  first within one byte of its exact share, as long as product and weight sum fit in 63 bits.
\<close>

theorem compute_parts_sound:
  assumes "0 \<le> n" "0 < lw" "0 < rw" "n * lw \<le> max_i64" "lw + rw \<le> max_i64"
  shows "\<exists>l r. compute_parts n lw rw = Inr (l, r) \<and> l + r = n \<and> 0 \<le> l \<and> 0 \<le> r
    \<and> l * (lw + rw) \<le> n * lw \<and> n * lw < (l + 1) * (lw + rw)"
proof -
  define l where "l = n * lw div (lw + rw)"
  have nl: "0 \<le> n * lw" and s: "0 < lw + rw" using assms by simp_all
  have l0: "0 \<le> l" using nl s by (simp add: l_def pos_imp_zdiv_nonneg_iff)
  have lb: "l * (lw + rw) \<le> n * lw" using s by (simp add: l_def flip: le_div_iff_int)
  have "\<not> l + 1 \<le> n * lw div (lw + rw)" by (simp add: l_def)
  then have ub: "n * lw < (l + 1) * (lw + rw)" using s by (simp add: le_div_iff_int)
  have "n * lw \<le> n * (lw + rw)" using assms by (intro mult_left_mono) auto
  with lb have "l * (lw + rw) \<le> n * (lw + rw)" by linarith
  then have ln: "l \<le> n" using s by simp
  have "n * 1 \<le> n * lw" using assms by (intro mult_left_mono) auto
  then have nb: "n \<le> max_i64" using assms by linarith
  have "i64 (n * lw) = n * lw" "i64 (lw + rw) = lw + rw" "i64 (n - l) = n - l"
    using assms nl s l0 ln nb by (intro i64_id; linarith)+
  then have "compute_parts n lw rw = Inr (l, n - l)"
    using assms go_div_nonneg [OF nl s] by (simp add: compute_parts_def l_def Let_def)
  then show ?thesis using l0 ln lb ub by auto
qed

theorem compute_parts_sound_witness:
  "\<exists>l r. compute_parts 100 3 1 = Inr (l, r) \<and> l + r = 100"
  using compute_parts_sound [of 100 3 1] by auto

text \<open>
  Without that bound the 64-bit product wraps: a valid call with a length of 2^62 bytes and
  weights 2 and 1 yields a negative first part.
\<close>

theorem compute_parts_overflow:
  "compute_parts 4611686018427387904 2 1 = Inr (- 3074457345618258602, 7686143364045646506)"
  by code_simp

end
