(* ===== verification/SplitCli.thy ===== *)
theory SplitCli
  imports Proto Chunk
begin

text \<open>
  The diagnostic split sender, \<open>cmd/multisend/main.go\<close>: the ratio argument, the two headers it
  signs and writes, the acceptance test of the acknowledgement, and the progress bar. Sockets,
  flags and the terminal are not modelled; file hashes and the transfer id are arguments.
\<close>

section \<open>Code\<close>

text \<open>
  \<open>fmt.Sscanf(s, "%d:%d", &a, &b)\<close> after the split into two parts: the first number must end at
  the colon; after the second number any further text is ignored. Leading blanks of each operand
  are skipped; the model covers inputs whose numbers carry no base prefix.
\<close>

definition scan_int :: "string \<Rightarrow> (int \<times> string) result" where
  "scan_int s =
     (let t = dropWhile (\<lambda>c. c = CHR '' '' \<or> c = CHR 0x09) s;
          sg = (if t \<noteq> [] \<and> (hd t = CHR ''-'' \<or> hd t = CHR ''+'') then [hd t] else []);
          u = drop (length sg) t; ds = takeWhile is_digit u
      in case parse_int (sg @ ds) of Inl e \<Rightarrow> Inl e | Inr v \<Rightarrow> Inr (v, drop (length ds) u))"

definition parse_ratio :: "string \<Rightarrow> (int64 \<times> int64) result" where
  "parse_ratio s =
     (if length (split_on (CHR '':'') s) \<noteq> 2 then Inl ''expected A:B''
      else case scan_int s of
        Inl e \<Rightarrow> Inl e
      | Inr (a, rest) \<Rightarrow>
          (case rest of
             c # rest' \<Rightarrow>
               if c \<noteq> CHR '':'' then Inl ''input does not match format''
               else (case scan_int rest' of
                       Inl e \<Rightarrow> Inl e
                     | Inr (b, _) \<Rightarrow> if a \<le> 0 \<or> b \<le> 0 then Inl ''weights must be > 0'' else Inr (a, b))
           | [] \<Rightarrow> Inl ''unexpected EOF''))"

definition split_header :: "string \<Rightarrow> string \<Rightarrow> int \<Rightarrow> int64 \<Rightarrow> int64 \<Rightarrow> int64 \<Rightarrow> string \<Rightarrow> header" where
  "split_header transferID base part partSize offset totalBytes hash =
     \<lparr>h_message_type = '''', h_transfer_id = transferID, h_file_name = base, h_part_index = part,
      h_total_parts = 2, h_part_size = partSize, h_chunk_index = part - 1, h_offset = offset,
      h_total_bytes = totalBytes, h_lab = False, h_lab_path = '''', h_receive_rel_path = '''',
      h_publish_name = '''', h_folder_result = '''', h_chunk_sha256 = hash, h_auth = ''''\<rparr>"

text \<open>The two headers of \<open>main\<close>, signed, for the parts that \<open>ComputeParts\<close> returns.\<close>

definition split_headers :: "(bytes \<Rightarrow> bytes \<Rightarrow> bytes) \<Rightarrow> bytes \<Rightarrow> string \<Rightarrow> string \<Rightarrow> int64 \<Rightarrow>
    int64 \<Rightarrow> int64 \<Rightarrow> string \<Rightarrow> string \<Rightarrow> (header \<times> header) result" where
  "split_headers hmac secret transferID base fsize leftW rightW cableHash wifiHash =
     (case compute_parts fsize leftW rightW of
        Inl e \<Rightarrow> Inl e
      | Inr (aSize, bSize) \<Rightarrow> Inr
          (sign_header hmac secret (split_header transferID base 1 aSize 0 fsize cableHash),
           sign_header hmac secret (split_header transferID base 2 bSize aSize fsize wifiHash)))"

text \<open>The end of \<open>sendPart\<close>: bytes written and the acknowledgement decide success.\<close>

definition send_part_result :: "header \<Rightarrow> int64 \<Rightarrow> chunk_ack result \<Rightarrow> unit result" where
  "send_part_result h n ack =
     (if n \<noteq> h_part_size h then Inl ''short send''
      else case ack of
        Inl e \<Rightarrow> Inl e
      | Inr a \<Rightarrow> if ack_status a \<noteq> ''done'' \<or> ack_transfer_id a \<noteq> h_transfer_id h
                   \<or> ack_chunk_index a \<noteq> h_chunk_index h \<or> ack_bytes_received a \<noteq> h_part_size h
                then Inl ''receiver rejected chunk'' else Inr ())"

definition bar :: "int64 \<Rightarrow> int64 \<Rightarrow> nat \<Rightarrow> string" where
  "bar done tot width =
     (if tot \<le> 0 then ''['' @ replicate width (CHR ''-'') @ '']''
      else let filled = go_div (i64 (done * int width)) tot;
               filled = (if int width < filled then int width else filled);
               filled = (if filled < 0 then 0 else filled)
           in ''['' @ replicate (nat filled) (CHR ''#'') @ replicate (width - nat filled) (CHR ''-'') @ '']'')"

section \<open>Properties\<close>

lemma hex64_ok: "length bs = 32 \<Longrightarrow> hex_encode bs \<noteq> '''' \<and> length (hex_encode bs) = sha256_size * 2"
  by (cases bs) (simp_all add: sha256_size_def)

text \<open>
  With valid weights and no overflow both headers of the split sender pass \<open>ValidateHeader\<close>,
  and their two parts tile the file.
\<close>

theorem split_headers_valid:
  assumes "0 \<le> n" "0 < lw" "0 < rw" "n * lw \<le> max_i64" "lw + rw \<le> max_i64"
    and "tid \<noteq> ''''" "length tid \<le> 128" "list_all id_char tid" "trim_space base \<noteq> ''''"
    and "length dg1 = 32" "length dg2 = 32"
  shows "\<exists>h1 h2. split_headers hmac secret tid base n lw rw (hex_encode dg1) (hex_encode dg2) = Inr (h1, h2)
    \<and> validate_header h1 = Inr () \<and> validate_header h2 = Inr ()
    \<and> h_offset h1 = 0 \<and> h_offset h2 = h_part_size h1 \<and> h_part_size h1 + h_part_size h2 = n"
proof -
  obtain l r where lr: "compute_parts n lw rw = Inr (l, r)" "l + r = n" "0 \<le> l" "0 \<le> r"
    using compute_parts_sound [OF assms(1-5)] by auto
  have "n * 1 \<le> n * lw" using assms by (intro mult_left_mono) auto
  then have b: "n \<le> max_i64" using assms by linarith
  have i: "i64 (n - l) = n - l" "i64 (n - r) = n - r" using lr b by (intro i64_id; linarith)+
  have v: "validate_header (split_header tid base p sz off n (hex_encode dg)) = Inr ()"
    if "p = 1 \<or> p = 2" "0 \<le> sz" "0 \<le> off" "sz \<le> n" "off \<le> n - sz" "i64 (n - sz) = n - sz" "length dg = 32"
    for p sz off dg
    using that assms hex64_ok [of dg]
    by (auto simp: validate_header_def split_header_def)
  have "validate_header (split_header tid base 1 l 0 n (hex_encode dg1)) = Inr ()"
    using lr i assms by (intro v) auto
  moreover have "validate_header (split_header tid base 2 r l n (hex_encode dg2)) = Inr ()"
    using lr i assms by (intro v) auto
  ultimately show ?thesis using lr by (simp add: split_headers_def split_header_def)
qed

theorem split_headers_valid_witness:
  "\<exists>h1 h2. split_headers (\<lambda>k m. k) ''k'' ''tx-1'' ''a.bin'' 100 3 1 (hex_encode (replicate 32 (CHR ''x'')))
     (hex_encode (replicate 32 (CHR ''y''))) = Inr (h1, h2) \<and> h_part_size h1 + h_part_size h2 = 100"
proof -
  have "list_all id_char ''tx-1''" "trim_space ''a.bin'' \<noteq> ''''" by code_simp+
  then show ?thesis
    using split_headers_valid [of 100 3 1 "''tx-1''" "''a.bin''" "replicate 32 (CHR ''x'')"
        "replicate 32 (CHR ''y'')" "\<lambda>k m. k" "''k''"] by auto
qed

lemma default_type_payload:
  "h_message_type h = '''' \<Longrightarrow> auth_payload (default_type ''chunk_start'' h) \<noteq> auth_payload h"
proof
  assume mt: "h_message_type h = ''''"
    and eq: "auth_payload (default_type ''chunk_start'' h) = auth_payload h"
  have "length (auth_payload (default_type ''chunk_start'' h)) = length (auth_payload h) + 11"
    using mt by (simp add: auth_payload_def auth_fields_def default_type_def)
  with eq show False by simp
qed

text \<open>
  The split sender signs before \<open>WriteHeader\<close> fills in the message type, so the payload that the
  receiver authenticates is another one: with a secret configured, and no HMAC collision between the
  two payloads, every header of the split sender is rejected by a receiver with the same secret.
\<close>

theorem split_sender_auth_rejected:
  assumes "secret \<noteq> ''''"
    and h: "h = split_header tid base part sz off fsize hash"
    and "hmac secret (auth_payload (default_type ''chunk_start'' h)) \<noteq> hmac secret (auth_payload h)"
  shows "auth_payload (default_type ''chunk_start'' h) \<noteq> auth_payload h \<and>
    \<not> verify_header hmac secret (default_type ''chunk_start'' (sign_header hmac secret h))"
proof -
  have mt: "h_message_type h = ''''" by (simp add: h split_header_def)
  have d: "default_type ''chunk_start'' (sign_header hmac secret h)
      = (default_type ''chunk_start'' h)\<lparr>h_auth := hex_encode (hmac secret (auth_payload h))\<rparr>"
    using mt assms(1) by (simp add: default_type_def sign_header_def)
  show ?thesis
    using default_type_payload [OF mt] assms(1,3) by (simp add: d verify_header_def)
qed

theorem split_sender_auth_rejected_witness:
  "\<not> verify_header (\<lambda>k m. k @ m) ''key'' (default_type ''chunk_start''
      (sign_header (\<lambda>k m. k @ m) ''key'' (split_header ''tx-1'' ''a'' 1 4 0 7 '''')))"
  using split_sender_auth_rejected [of "''key''" _ "''tx-1''" "''a''" 1 4 0 7 "''''" "\<lambda>k m. k @ m", OF _ refl]
    default_type_payload [of "split_header ''tx-1'' ''a'' 1 4 0 7 ''''"]
  by (simp add: split_header_def)

lemma takeWhile_digits:
  "list_all is_digit ds \<Longrightarrow> rest = [] \<or> \<not> is_digit (hd rest) \<Longrightarrow> takeWhile is_digit (ds @ rest) = ds"
  by (cases rest) (auto simp: list_all_iff)

lemma scan_int_itoa:
  assumes "0 < v" "v \<le> max_i64" "rest = [] \<or> \<not> is_digit (hd rest)"
  shows "scan_int (itoa v @ rest) = Inr (v, rest)"
proof -
  let ?d = "nat_digits (nat v)"
  have ne: "?d \<noteq> []" and hd: "is_digit (hd ?d)" and all: "list_all is_digit ?d"
    by (simp_all add: nat_digits_hd_digit nat_digits_all_digits)
  obtain c ds where d: "?d = c # ds" using ne by (cases ?d) auto
  with hd have c: "c \<noteq> CHR '' ''" "c \<noteq> CHR 0x09" "c \<noteq> CHR ''-''" "c \<noteq> CHR ''+''"
    by (auto simp: is_digit_def)
  have tw: "takeWhile is_digit (?d @ rest) = ?d" using all assms(3) by (rule takeWhile_digits)
  have "parse_int ?d = Inr v" using parse_int_itoa [of v] assms by (simp add: itoa_def)
  then show ?thesis
    using assms c tw by (simp add: scan_int_def itoa_def d Let_def)
qed

text \<open>The ratio argument is read back as written: parsing \<open>A:B\<close> gives the positive weights A and B.\<close>

theorem parse_ratio_roundtrip:
  assumes "0 < a" "a \<le> max_i64" "0 < b" "b \<le> max_i64"
  shows "parse_ratio (itoa a @ CHR '':'' # itoa b) = Inr (a, b)"
proof -
  have colon: "CHR '':'' \<notin> set (itoa v)" for v
    using itoa_chars [of "CHR '':''" v] by (auto simp: is_digit_def)
  have "length (split_on (CHR '':'') (itoa a @ CHR '':'' # itoa b)) = 2"
    using colon by (simp add: split_on_append_sep split_on_no_sep)
  moreover have "scan_int (itoa a @ CHR '':'' # itoa b) = Inr (a, CHR '':'' # itoa b)"
    using assms by (intro scan_int_itoa) (auto simp: is_digit_def)
  moreover have "scan_int (itoa b) = Inr (b, [])" using scan_int_itoa [of b "[]"] assms by simp
  ultimately show ?thesis using assms by (simp add: parse_ratio_def)
qed

theorem parse_ratio_roundtrip_witness: "parse_ratio (itoa 2 @ CHR '':'' # itoa 1) = Inr (2, 1)"
  by (rule parse_ratio_roundtrip) simp_all

lemma bar_length: "length (bar d t w) = w + 2"
  by (auto simp: bar_def Let_def)

end
