(* ===== verification/Ports.thy ===== *)
theory Ports
  imports GoString
begin

text \<open>
  Port ranges, \<open>internal/ports/ports.go\<close>: normalisation, parsing, exclusion, the parser of the
  Windows list of excluded ranges, and the search for a free port. Whether the operating system
  lets the process listen on a port is the parameter \<open>can_listen\<close>, the output of \<open>netsh\<close> is the
  parameter \<open>netsh_out\<close> (\<open>None\<close> when the command fails).
\<close>

section \<open>Code\<close>

record port_range =
  rg_start :: int
  rg_end :: int

definition rg_normalize :: "port_range \<Rightarrow> port_range" where
  "rg_normalize r = (if rg_end r < rg_start r then r\<lparr>rg_start := rg_end r, rg_end := rg_start r\<rparr> else r)"

definition rg_contains :: "port_range \<Rightarrow> int \<Rightarrow> bool" where
  "rg_contains r port = (let r = rg_normalize r in rg_start r \<le> port \<and> port \<le> rg_end r)"

definition is_valid_port :: "int \<Rightarrow> bool" where
  "is_valid_port port \<longleftrightarrow> 1 \<le> port \<and> port \<le> 65535"

definition parse_range :: "string \<Rightarrow> port_range result" where
  "parse_range s =
     (case split_on (CHR ''-'') (trim_space s) of
        [p0, p1] \<Rightarrow>
          (case parse_int (trim_space p0) of
             Inl e \<Rightarrow> Inl e
           | Inr a \<Rightarrow>
              (case parse_int (trim_space p1) of
                 Inl e \<Rightarrow> Inl e
               | Inr b \<Rightarrow>
                  (let r = rg_normalize \<lparr>rg_start = a, rg_end = b\<rparr> in
                   if \<not> is_valid_port (rg_start r) \<or> \<not> is_valid_port (rg_end r)
                   then Inl ''invalid port bounds'' else Inr r)))
      | _ \<Rightarrow> Inl ''invalid range'')"

text \<open>\<open>IsPortAvailableTCP\<close> and \<open>IsPortAvailableUDP\<close>.\<close>

definition is_port_available :: "(int \<Rightarrow> bool) \<Rightarrow> int \<Rightarrow> bool" where
  "is_port_available can_listen port = (if \<not> is_valid_port port then False else can_listen port)"

definition normalize_valid_range :: "port_range \<Rightarrow> port_range result" where
  "normalize_valid_range rg =
     (let rg = rg_normalize rg in
      if \<not> is_valid_port (rg_start rg) \<or> \<not> is_valid_port (rg_end rg) then Inl ''invalid port range''
      else Inr rg)"

definition is_excluded :: "int \<Rightarrow> port_range list \<Rightarrow> bool" where
  "is_excluded port ranges = list_ex (\<lambda>r. rg_contains r port) ranges"

text \<open>The regular expression \<open>^\s*(\d+)\s+(\d+)\s*\<close> on one line: the two groups.\<close>

definition match_range_line :: "string \<Rightarrow> (string \<times> string) option" where
  "match_range_line line =
     (let a = dropWhile is_space line; d1 = takeWhile is_digit a; b = dropWhile is_digit a;
          c = dropWhile is_space b; d2 = takeWhile is_digit c
      in if d1 = [] \<or> takeWhile is_space b = [] \<or> d2 = [] then None else Some (d1, d2))"

definition atoi_or_zero :: "string \<Rightarrow> int" where
  \<comment> \<open>\<open>a, _ := strconv.Atoi(s)\<close> on digits: out of range yields the largest value\<close>
  "atoi_or_zero s = (case parse_int s of Inr v \<Rightarrow> v | Inl e \<Rightarrow> if e = ''value out of range'' then max_i64 else 0)"

definition windows_excluded_ranges :: "string option \<Rightarrow> port_range list" where
  "windows_excluded_ranges netsh_out =
     (case netsh_out of None \<Rightarrow> []
      | Some out \<Rightarrow>
          filter (\<lambda>r. is_valid_port (rg_start r) \<and> is_valid_port (rg_end r))
            (map (\<lambda>(a, b). rg_normalize \<lparr>rg_start = atoi_or_zero a, rg_end = atoi_or_zero b\<rparr>)
              (List.map_filter match_range_line (split_on (CHR 0x0A) out))))"

text \<open>\<open>PickTCP\<close> and \<open>PickUDP\<close>, which differ in the two parameters only.\<close>

definition pick_port :: "string option \<Rightarrow> (int \<Rightarrow> bool) \<Rightarrow> port_range \<Rightarrow> int result" where
  "pick_port netsh_out can_listen rg =
     (case normalize_valid_range rg of
        Inl e \<Rightarrow> Inl e
      | Inr rg \<Rightarrow>
          (let ex = windows_excluded_ranges netsh_out in
           case find (\<lambda>p. \<not> is_excluded p ex \<and> is_port_available can_listen p) [rg_start rg..rg_end rg] of
             Some p \<Rightarrow> Inr p
           | None \<Rightarrow> Inl ''no available port in range''))"

section \<open>Properties\<close>

lemma rg_normalize_ordered: "rg_start (rg_normalize r) \<le> rg_end (rg_normalize r)"
  by (simp add: rg_normalize_def)

lemma rg_normalize_idem [simp]: "rg_normalize (rg_normalize r) = rg_normalize r"
  by (simp add: rg_normalize_def)

lemma rg_contains_normalize [simp]: "rg_contains (rg_normalize r) p = rg_contains r p"
  by (simp add: rg_contains_def)

lemma find_upto_least:
  "find P [a..b] = Some p \<Longrightarrow> a \<le> p \<and> p \<le> b \<and> P p \<and> (\<forall>q. a \<le> q \<longrightarrow> q < p \<longrightarrow> \<not> P q)"
proof (induction a b rule: upto.induct)
  case (1 a b)
  show ?case
  proof (cases "a \<le> b")
    case True
    then have u: "[a..b] = a # [a + 1..b]" by (rule upto_rec1)
    show ?thesis
    proof (cases "P a")
      case False
      then have f: "find P [a + 1..b] = Some p" using "1.prems" u by simp
      show ?thesis using "1.IH" [OF True f] False by (metis add1_zle_eq linorder_not_le order_antisym_conv order_less_imp_le zle_add1_eq_le add_le_cancel_right order_le_less)
    qed (use "1.prems" u True in auto)
  qed (use "1.prems" in simp)
qed

text \<open>
  The port search returns the lowest port of the (normalised) range that is neither excluded nor
  taken, and reports failure exactly when the range is invalid or holds no such port.
\<close>

theorem pick_port_least:
  "case pick_port netsh can_listen rg of
     Inr p \<Rightarrow> rg_contains rg p \<and> is_valid_port p \<and> can_listen p
        \<and> \<not> is_excluded p (windows_excluded_ranges netsh)
        \<and> (\<forall>q. rg_contains rg q \<and> q < p \<longrightarrow> \<not> can_listen q \<or> is_excluded q (windows_excluded_ranges netsh))
   | Inl e \<Rightarrow> \<not> is_valid_port (rg_start (rg_normalize rg)) \<or> \<not> is_valid_port (rg_end (rg_normalize rg))
        \<or> (\<forall>q. rg_contains rg q \<longrightarrow> \<not> can_listen q \<or> is_excluded q (windows_excluded_ranges netsh))"
proof (cases "is_valid_port (rg_start (rg_normalize rg)) \<and> is_valid_port (rg_end (rg_normalize rg))")
  case False
  then show ?thesis by (auto simp: pick_port_def normalize_valid_range_def Let_def)
next
  case True
  let ?r = "rg_normalize rg" and ?ex = "windows_excluded_ranges netsh"
  let ?P = "\<lambda>p. \<not> is_excluded p ?ex \<and> is_port_available can_listen p"
  have valid: "is_valid_port q" if "rg_start ?r \<le> q" "q \<le> rg_end ?r" for q
    using True that by (simp add: is_valid_port_def)
  show ?thesis
  proof (cases "find ?P [rg_start ?r..rg_end ?r]")
    case None
    then have "\<forall>q. rg_contains rg q \<longrightarrow> \<not> can_listen q \<or> is_excluded q ?ex"
      using valid by (auto simp: find_None_all rg_contains_def Let_def is_port_available_def)
    with None True show ?thesis by (simp add: pick_port_def normalize_valid_range_def Let_def)
  next
    case (Some p)
    have "rg_start ?r \<le> p \<and> p \<le> rg_end ?r \<and> ?P p \<and> (\<forall>q. rg_start ?r \<le> q \<longrightarrow> q < p \<longrightarrow> \<not> ?P q)"
      using Some by (rule find_upto_least)
    then show ?thesis
      using Some True valid
      by (auto simp: pick_port_def normalize_valid_range_def Let_def rg_contains_def is_port_available_def)
  qed
qed

lemma itoa_ends:
  "0 \<le> v \<Longrightarrow> itoa v \<noteq> [] \<and> \<not> is_space (hd (itoa v)) \<and> \<not> is_space (last (itoa v))"
proof -
  assume "0 \<le> v"
  then have d: "itoa v = nat_digits (nat v)" by (simp add: itoa_def)
  have "\<not> is_space c" if "is_digit c" for c
    using that by (auto simp: is_digit_def is_space_def Let_def)
  moreover have "is_digit (hd (nat_digits (nat v)))" "is_digit (last (nat_digits (nat v)))"
    using nat_digits_all_digits [of "nat v"] by (simp_all add: list_all_iff)
  ultimately show ?thesis unfolding d by simp
qed

lemma itoa_trim: "0 \<le> v \<Longrightarrow> trim_space (itoa v) = itoa v"
  unfolding trim_space_def using itoa_ends [of v] by (intro trim_by_id) auto

text \<open>A range written as \<open>A-B\<close> with valid ports, in either order, parses to the ordered range.\<close>

theorem parse_range_roundtrip:
  assumes "is_valid_port a" "is_valid_port b"
  shows "parse_range (itoa a @ CHR ''-'' # itoa b) = Inr \<lparr>rg_start = min a b, rg_end = max a b\<rparr>"
proof -
  have nn: "0 \<le> a" "0 \<le> b" "a \<le> max_i64" "b \<le> max_i64" using assms by (auto simp: is_valid_port_def)
  have dash: "CHR ''-'' \<notin> set (itoa v)" if "0 \<le> v" for v
    using that nat_digits_all_digits [of "nat v"] by (auto simp: itoa_def list_all_iff)
  have t: "trim_space (itoa a @ CHR ''-'' # itoa b) = itoa a @ CHR ''-'' # itoa b"
    unfolding trim_space_def using itoa_ends [OF nn(1)] itoa_ends [OF nn(2)] by (intro trim_by_id) auto
  have "split_on (CHR ''-'') (itoa a @ CHR ''-'' # itoa b) = [itoa a, itoa b]"
    using nn dash by (simp add: split_on_append_sep split_on_no_sep)
  then show ?thesis
    using assms nn by (auto simp: parse_range_def t itoa_trim parse_int_itoa Let_def rg_normalize_def min_def max_def)
qed

theorem parse_range_roundtrip_witness:
  "parse_range (itoa 56210 @ CHR ''-'' # itoa 56200) = Inr \<lparr>rg_start = 56200, rg_end = 56210\<rparr>"
  using parse_range_roundtrip [of 56210 56200] by (simp add: is_valid_port_def)

text \<open>The witness of \<open>pick_port_least\<close>: the first two ports are taken and excluded, 56202 is returned.\<close>

definition demo_listen :: "int \<Rightarrow> bool" where
  "demo_listen p \<longleftrightarrow> p \<noteq> 56200"

definition demo_netsh :: string where
  "demo_netsh = ''  56201   56201''"

theorem pick_port_least_witness:
  "pick_port (Some demo_netsh) demo_listen \<lparr>rg_start = 56210, rg_end = 56200\<rparr> = Inr 56202
   \<and> is_excluded 56201 (windows_excluded_ranges (Some demo_netsh))"
proof -
  have e: "pick_port (Some demo_netsh) demo_listen \<lparr>rg_start = 56210, rg_end = 56200\<rparr> = Inr 56202"
  proof -
    have a: "split_on (CHR 0x0A) demo_netsh = [''  56201   56201'']" by code_simp
    have b: "match_range_line ''  56201   56201'' = Some (''56201'', ''56201'')" by code_simp
    have c: "parse_int ''56201'' = Inr 56201" by (simp add: parse_int_def digits_val_def is_digit_def digit_val_def Let_def)
    have d: "windows_excluded_ranges (Some demo_netsh) = [\<lparr>rg_start = 56201, rg_end = 56201\<rparr>]"
      by (simp add: windows_excluded_ranges_def a List.map_filter_def b c atoi_or_zero_def rg_normalize_def is_valid_port_def)
    show ?thesis
      by (simp add: pick_port_def normalize_valid_range_def d rg_normalize_def is_valid_port_def upto_rec1
          is_excluded_def rg_contains_def is_port_available_def demo_listen_def)
  qed
  have c: "rg_contains \<lparr>rg_start = 56210, rg_end = 56200\<rparr> 56201" by (simp add: rg_contains_def rg_normalize_def)
  have "rg_contains \<lparr>rg_start = 56210, rg_end = 56200\<rparr> q \<and> q < 56202 \<longrightarrow>
      \<not> demo_listen q \<or> is_excluded q (windows_excluded_ranges (Some demo_netsh))" for q
    using pick_port_least [where netsh = "Some demo_netsh" and can_listen = demo_listen and rg = "\<lparr>rg_start = 56210, rg_end = 56200\<rparr>"]
    unfolding e sum.case by blast
  from this [of 56201] show ?thesis using c e by (simp add: demo_listen_def)
qed

end
