(* ===== verification/Config.thy ===== *)
theory Config
  imports Ports
begin

text \<open>
  The node configuration, \<open>internal/config/config.go\<close>: its record, the defaults, the normalisers of
  the enumerated settings, the secrets, and the migration that runs on every load. A slice that the
  code compares with \<open>nil\<close> is an option (\<open>None\<close> is \<open>nil\<close>). What the environment supplies (host
  name, user profile, clock, random secrets, the path join) comes in through \<open>config_env\<close>. The
  migration is a list of guarded updates run in the order of the code; \<open>quiet\<close> updates are those
  that do not set the \<open>migrated\<close> flag.
\<close>

section \<open>Data\<close>

record selected_ports =
  sp_transfer :: int
  sp_discovery :: int
  sp_local_api :: int
  sp_control :: int

record config =
  cfg_schema_version :: int
  cfg_app_version :: string
  cfg_node_id :: string
  cfg_display_name :: string
  cfg_receive_path :: string
  cfg_transfer_port :: int
  cfg_discovery_port :: int
  cfg_discovery_mode :: string
  cfg_interfaces_mode :: string
  cfg_scheduler :: string
  cfg_chunk_mode :: string
  cfg_chunk_size_mb :: int
  cfg_start_on_login :: bool
  cfg_local_api_port :: int
  cfg_control_port :: int
  cfg_transfer_port_range :: port_range
  cfg_discovery_port_range :: port_range
  cfg_local_api_port_range :: port_range
  cfg_control_port_range :: port_range
  cfg_selected_ports :: selected_ports
  cfg_interface_policy :: string
  cfg_interface_refresh :: int
  cfg_allow_new_interfaces :: bool
  cfg_ignore_virtual :: bool
  cfg_ignore_vpn :: bool
  cfg_ignore_link_local :: bool
  cfg_allowed_if_types :: "string list"
  cfg_manual_interfaces :: "string list option"
  cfg_ignored_interfaces :: "string list option"
  cfg_cleanup_completed_chunks :: bool
  cfg_keep_manifests :: bool
  cfg_cleanup_empty_download_dirs :: bool
  cfg_download_pipeline_mode :: string
  cfg_download_in_flight_per_chan :: int
  cfg_download_channel_strategy :: string
  cfg_download_split_cable_pct :: int
  cfg_pull_folder_result :: string
  cfg_node_secret :: string
  cfg_require_auth :: bool
  cfg_remote_send_roots :: "string list option"

record config_env =
  env_computer_name :: string
  env_user_profile :: string
  env_now_nano :: int
  env_default_secret :: string \<comment> \<open>the secret generated by \<open>DefaultConfig\<close>\<close>
  env_fresh_secret :: string \<comment> \<open>the secret generated by the migration itself\<close>
  env_join :: "string list \<Rightarrow> string" \<comment> \<open>\<open>filepath.Join\<close>\<close>

section \<open>Normalisers and secrets\<close>

definition normalize_interface_policy :: "string \<Rightarrow> string" where
  "normalize_interface_policy v =
     (if to_lower (trim_space v) = ''manual'' \<or> to_lower (trim_space v) = ''all''
      then to_lower (trim_space v) else ''auto'')"

definition normalize_download_pipeline_mode :: "string \<Rightarrow> string" where
  "normalize_download_pipeline_mode v =
     (if to_lower (trim_space v) = ''pipelined'' then ''pipelined'' else ''legacy'')"

definition normalize_download_channel_strategy :: "string \<Rightarrow> string" where
  "normalize_download_channel_strategy v =
     (if to_lower (trim_space v) = ''strict_split'' then ''strict_split'' else ''dynamic'')"

definition normalize_pull_folder_result :: "string \<Rightarrow> string" where
  "normalize_pull_folder_result v =
     (if to_lower (trim_space v) = ''extract'' then ''extract'' else ''zip'')"

text \<open>\<open>GenerateSecret\<close>: the 32 random bytes are its argument.\<close>

definition generate_secret :: "bytes \<Rightarrow> string" where
  "generate_secret random32 = hex_encode random32"

text \<open>The nil slice and the empty slice are both the empty key: no authentication.\<close>

definition secret_bytes :: "config \<Rightarrow> bytes" where
  "secret_bytes c =
     (let s = trim_space (cfg_node_secret c) in
      if s = '''' then ''''
      else case hex_decode s of
             Some b \<Rightarrow> if 0 < length b then b else s
           | None \<Rightarrow> s)"

definition auth_secret :: "config \<Rightarrow> bytes" where
  "auth_secret c = (if \<not> cfg_require_auth c then '''' else secret_bytes c)"

section \<open>Defaults\<close>

definition default_config :: "config_env \<Rightarrow> config" where
  "default_config env =
     (let host = (if env_computer_name env = '''' then ''multisend-node'' else env_computer_name env);
          nodeID = to_upper host @ ''-'' @ itoa (go_mod (env_now_nano env) 100000000);
          userProfile = (if env_user_profile env = ''''
                         then [CHR ''C'', CHR '':'', CHR 0x5C] @ ''Users'' @ [CHR 0x5C] @ ''Public''
                         else env_user_profile env)
      in \<lparr>cfg_schema_version = 4, cfg_app_version = ''0.1.0'', cfg_node_id = nodeID,
          cfg_display_name = host, cfg_receive_path = env_join env [userProfile, ''Downloads'', ''MultiSend''],
          cfg_transfer_port = 55202, cfg_discovery_port = 55203, cfg_discovery_mode = ''auto'',
          cfg_interfaces_mode = ''auto'', cfg_scheduler = ''auto'', cfg_chunk_mode = ''auto'',
          cfg_chunk_size_mb = 32, cfg_start_on_login = True, cfg_local_api_port = 55204,
          cfg_control_port = 55205,
          cfg_transfer_port_range = \<lparr>rg_start = 56200, rg_end = 56210\<rparr>,
          cfg_discovery_port_range = \<lparr>rg_start = 56211, rg_end = 56220\<rparr>,
          cfg_local_api_port_range = \<lparr>rg_start = 56221, rg_end = 56230\<rparr>,
          cfg_control_port_range = \<lparr>rg_start = 56231, rg_end = 56240\<rparr>,
          cfg_selected_ports = \<lparr>sp_transfer = 56200, sp_discovery = 56211, sp_local_api = 56221,
            sp_control = 56231\<rparr>,
          cfg_interface_policy = ''auto'', cfg_interface_refresh = 5, cfg_allow_new_interfaces = True,
          cfg_ignore_virtual = True, cfg_ignore_vpn = True, cfg_ignore_link_local = True,
          cfg_allowed_if_types = [''ethernet'', ''wifi'', ''usb_ethernet'', ''unknown''],
          cfg_manual_interfaces = Some [],
          cfg_ignored_interfaces = Some [''loopback'', ''hyper-v'', ''tailscale'', ''vpn'', ''virtualbox'',
            ''vmware'', ''docker'', ''wsl'', ''bluetooth''],
          cfg_cleanup_completed_chunks = False, cfg_keep_manifests = True,
          cfg_cleanup_empty_download_dirs = False, cfg_download_pipeline_mode = ''pipelined'',
          cfg_download_in_flight_per_chan = 2, cfg_download_channel_strategy = ''dynamic'',
          cfg_download_split_cable_pct = 50, cfg_pull_folder_result = ''zip'',
          cfg_node_secret = env_default_secret env, cfg_require_auth = False,
          cfg_remote_send_roots = Some []\<rparr>)"

section \<open>Migration\<close>

datatype migration = Migration
  (mg_guard: "config \<Rightarrow> bool") (mg_update: "config \<Rightarrow> config") (mg_quiet: bool)

fun run_migrations :: "migration list \<Rightarrow> config \<Rightarrow> bool \<Rightarrow> bool \<times> config" where
  "run_migrations [] c migrated = (migrated, c)"
| "run_migrations (m # ms) c migrated =
     (if mg_guard m c then run_migrations ms (mg_update m c) (migrated \<or> \<not> mg_quiet m)
      else run_migrations ms c migrated)"

definition upd_selected :: "(selected_ports \<Rightarrow> selected_ports) \<Rightarrow> config \<Rightarrow> config" where
  "upd_selected f c = c\<lparr>cfg_selected_ports := f (cfg_selected_ports c)\<rparr>"

definition unset_range :: "port_range \<Rightarrow> bool" where
  "unset_range r \<longleftrightarrow> rg_start r = 0 \<or> rg_end r = 0"

definition migrations_schema :: "config_env \<Rightarrow> migration list" where
  "migrations_schema env =
    [Migration (\<lambda>c. cfg_schema_version c < 2) (\<lambda>c. c\<lparr>cfg_schema_version := 2\<rparr>) False,
     Migration (\<lambda>c. cfg_schema_version c < 3)
       (\<lambda>c. c\<lparr>cfg_cleanup_completed_chunks := False, cfg_keep_manifests := True,
              cfg_cleanup_empty_download_dirs := False, cfg_schema_version := 3\<rparr>) False,
     Migration (\<lambda>c. cfg_schema_version c < 4) (\<lambda>c. c\<lparr>cfg_schema_version := 4\<rparr>) False,
     Migration (\<lambda>c. trim_space (cfg_node_secret c) = '''') (\<lambda>c. c\<lparr>cfg_node_secret := env_fresh_secret env\<rparr>) False,
     Migration (\<lambda>c. cfg_remote_send_roots c = None) (\<lambda>c. c\<lparr>cfg_remote_send_roots := Some []\<rparr>) False]"

definition migrations_ports :: "config \<Rightarrow> migration list" where
  "migrations_ports def =
    [Migration (\<lambda>c. unset_range (cfg_transfer_port_range c))
       (\<lambda>c. c\<lparr>cfg_transfer_port_range := cfg_transfer_port_range def\<rparr>) False,
     Migration (\<lambda>c. unset_range (cfg_discovery_port_range c))
       (\<lambda>c. c\<lparr>cfg_discovery_port_range := cfg_discovery_port_range def\<rparr>) False,
     Migration (\<lambda>c. unset_range (cfg_local_api_port_range c))
       (\<lambda>c. c\<lparr>cfg_local_api_port_range := cfg_local_api_port_range def\<rparr>) False,
     Migration (\<lambda>c. unset_range (cfg_control_port_range c))
       (\<lambda>c. c\<lparr>cfg_control_port_range := cfg_control_port_range def\<rparr>) False,
     Migration (\<lambda>c. sp_transfer (cfg_selected_ports c) = 0)
       (\<lambda>c. upd_selected (\<lambda>s. s\<lparr>sp_transfer := (if cfg_transfer_port c \<noteq> 0 then cfg_transfer_port c
          else rg_start (cfg_transfer_port_range c))\<rparr>) c) False,
     Migration (\<lambda>c. sp_discovery (cfg_selected_ports c) = 0)
       (\<lambda>c. upd_selected (\<lambda>s. s\<lparr>sp_discovery := (if cfg_discovery_port c \<noteq> 0 then cfg_discovery_port c
          else rg_start (cfg_discovery_port_range c))\<rparr>) c) False,
     Migration (\<lambda>c. sp_local_api (cfg_selected_ports c) = 0)
       (\<lambda>c. upd_selected (\<lambda>s. s\<lparr>sp_local_api := (if cfg_local_api_port c \<noteq> 0 then cfg_local_api_port c
          else rg_start (cfg_local_api_port_range c))\<rparr>) c) False,
     Migration (\<lambda>c. sp_control (cfg_selected_ports c) = 0)
       (\<lambda>c. upd_selected (\<lambda>s. s\<lparr>sp_control := (if cfg_control_port c \<noteq> 0 then cfg_control_port c
          else rg_start (cfg_control_port_range c))\<rparr>) c) False,
     Migration (\<lambda>c. cfg_transfer_port c = 0) (\<lambda>c. c\<lparr>cfg_transfer_port := sp_transfer (cfg_selected_ports c)\<rparr>) True,
     Migration (\<lambda>c. cfg_discovery_port c = 0) (\<lambda>c. c\<lparr>cfg_discovery_port := sp_discovery (cfg_selected_ports c)\<rparr>) True,
     Migration (\<lambda>c. cfg_local_api_port c = 0) (\<lambda>c. c\<lparr>cfg_local_api_port := sp_local_api (cfg_selected_ports c)\<rparr>) True,
     Migration (\<lambda>c. cfg_control_port c = 0) (\<lambda>c. c\<lparr>cfg_control_port := sp_control (cfg_selected_ports c)\<rparr>) True]"

definition migrations_modes :: "config \<Rightarrow> migration list" where
  "migrations_modes def =
    [Migration (\<lambda>c. trim_space (cfg_interface_policy c) = '''')
       (\<lambda>c. c\<lparr>cfg_interface_policy := cfg_interface_policy def\<rparr>) False,
     Migration (\<lambda>c. cfg_interface_policy c \<noteq> normalize_interface_policy (cfg_interface_policy c))
       (\<lambda>c. c\<lparr>cfg_interface_policy := normalize_interface_policy (cfg_interface_policy c)\<rparr>) False,
     Migration (\<lambda>c. cfg_interface_refresh c \<le> 0) (\<lambda>c. c\<lparr>cfg_interface_refresh := cfg_interface_refresh def\<rparr>) False,
     Migration (\<lambda>c. cfg_allowed_if_types c = [])
       (\<lambda>c. c\<lparr>cfg_allowed_if_types := cfg_allowed_if_types def\<rparr>) False,
     Migration (\<lambda>c. \<not> list_ex (\<lambda>t. equal_fold t ''unknown'') (cfg_allowed_if_types c))
       (\<lambda>c. c\<lparr>cfg_allowed_if_types := cfg_allowed_if_types c @ [''unknown'']\<rparr>) False,
     Migration (\<lambda>c. cfg_manual_interfaces c = None) (\<lambda>c. c\<lparr>cfg_manual_interfaces := Some []\<rparr>) False,
     Migration (\<lambda>c. cfg_ignored_interfaces c = None) (\<lambda>c. c\<lparr>cfg_ignored_interfaces := Some []\<rparr>) False,
     Migration (\<lambda>c. cfg_download_pipeline_mode c \<noteq> normalize_download_pipeline_mode (cfg_download_pipeline_mode c))
       (\<lambda>c. c\<lparr>cfg_download_pipeline_mode := normalize_download_pipeline_mode (cfg_download_pipeline_mode c)\<rparr>) False,
     Migration (\<lambda>c. cfg_download_in_flight_per_chan c \<le> 0)
       (\<lambda>c. c\<lparr>cfg_download_in_flight_per_chan := cfg_download_in_flight_per_chan def\<rparr>) False,
     Migration (\<lambda>c. cfg_download_channel_strategy c \<noteq> normalize_download_channel_strategy (cfg_download_channel_strategy c))
       (\<lambda>c. c\<lparr>cfg_download_channel_strategy := normalize_download_channel_strategy (cfg_download_channel_strategy c)\<rparr>) False,
     Migration (\<lambda>c. cfg_download_split_cable_pct c \<le> 0 \<or> 100 \<le> cfg_download_split_cable_pct c)
       (\<lambda>c. c\<lparr>cfg_download_split_cable_pct := cfg_download_split_cable_pct def\<rparr>) False,
     Migration (\<lambda>c. cfg_pull_folder_result c \<noteq> normalize_pull_folder_result (cfg_pull_folder_result c))
       (\<lambda>c. c\<lparr>cfg_pull_folder_result := normalize_pull_folder_result (cfg_pull_folder_result c)\<rparr>) False]"

definition migrations :: "config_env \<Rightarrow> migration list" where
  "migrations env = migrations_schema env @ migrations_ports (default_config env)
     @ migrations_modes (default_config env)"

definition migrate_legacy_config :: "config_env \<Rightarrow> config \<Rightarrow> bool \<times> config" where
  "migrate_legacy_config env c = run_migrations (migrations env) c False"

section \<open>Lemmas on guarded updates\<close>

definition quiesced :: "migration list \<Rightarrow> config \<Rightarrow> bool" where
  "quiesced ms c \<longleftrightarrow> list_all (\<lambda>m. \<not> mg_guard m c) ms"

text \<open>
  Each update, run when every earlier guard is false and its own is true, falsifies its own guard
  and keeps the earlier ones false.
\<close>

fun settles :: "migration list \<Rightarrow> migration list \<Rightarrow> bool" where
  "settles pre [] = True"
| "settles pre (m # ms) =
     ((\<forall>c. quiesced pre c \<longrightarrow> mg_guard m c \<longrightarrow> quiesced (m # pre) (mg_update m c)) \<and> settles (m # pre) ms)"

lemma quiesced_simps [simp]:
  "quiesced [] c" "quiesced (m # ms) c \<longleftrightarrow> \<not> mg_guard m c \<and> quiesced ms c"
  by (simp_all add: quiesced_def)

lemma run_migrations_quiesces:
  "settles pre ms \<Longrightarrow> quiesced pre c \<Longrightarrow>
   quiesced pre (snd (run_migrations ms c b)) \<and> quiesced ms (snd (run_migrations ms c b))"
proof (induction ms arbitrary: pre c b)
  case (Cons m ms)
  then show ?case
    using Cons.IH [of "m # pre" "mg_update m c" "b \<or> \<not> mg_quiet m"] Cons.IH [of "m # pre" c b]
    by auto
qed simp

lemma run_migrations_fixpoint: "quiesced ms c \<Longrightarrow> run_migrations ms c b = (b, c)"
  by (induction ms) auto

lemma run_migrations_invariant:
  "(\<And>m c. m \<in> set ms \<Longrightarrow> f (mg_update m c) = f c) \<Longrightarrow> f (snd (run_migrations ms c b)) = f c"
  by (induction ms arbitrary: c b) auto

lemma normalizer_values:
  "normalize_interface_policy v \<in> {''auto'', ''manual'', ''all''}"
  "normalize_download_pipeline_mode v \<in> {''pipelined'', ''legacy''}"
  "normalize_download_channel_strategy v \<in> {''strict_split'', ''dynamic''}"
  "normalize_pull_folder_result v \<in> {''extract'', ''zip''}"
  by (auto simp: normalize_interface_policy_def normalize_download_pipeline_mode_def
      normalize_download_channel_strategy_def normalize_pull_folder_result_def)

lemma normalizer_fixed:
  "v \<in> {''auto'', ''manual'', ''all''} \<Longrightarrow> normalize_interface_policy v = v \<and> trim_space v \<noteq> ''''"
  "v \<in> {''pipelined'', ''legacy''} \<Longrightarrow> normalize_download_pipeline_mode v = v"
  "v \<in> {''strict_split'', ''dynamic''} \<Longrightarrow> normalize_download_channel_strategy v = v"
  "v \<in> {''extract'', ''zip''} \<Longrightarrow> normalize_pull_folder_result v = v"
  by (elim insertE emptyE; hypsubst; code_simp)+

lemma normalizer_idem [simp]:
  "normalize_interface_policy (normalize_interface_policy v) = normalize_interface_policy v"
  "trim_space (normalize_interface_policy v) \<noteq> ''''"
  "normalize_download_pipeline_mode (normalize_download_pipeline_mode v) = normalize_download_pipeline_mode v"
  "normalize_download_channel_strategy (normalize_download_channel_strategy v) = normalize_download_channel_strategy v"
  "normalize_pull_folder_result (normalize_pull_folder_result v) = normalize_pull_folder_result v"
  using normalizer_values [of v] normalizer_fixed by blast+

lemma default_config_fields:
  "\<not> unset_range (cfg_transfer_port_range (default_config env))"
  "\<not> unset_range (cfg_discovery_port_range (default_config env))"
  "\<not> unset_range (cfg_local_api_port_range (default_config env))"
  "\<not> unset_range (cfg_control_port_range (default_config env))"
  "trim_space (cfg_interface_policy (default_config env)) \<noteq> ''''"
  "cfg_interface_refresh (default_config env) = 5"
  "cfg_allowed_if_types (default_config env) = [''ethernet'', ''wifi'', ''usb_ethernet'', ''unknown'']"
  "cfg_download_in_flight_per_chan (default_config env) = 2"
  "cfg_download_split_cable_pct (default_config env) = 50"
  using normalizer_fixed(1) [of "''auto''"]
  by (simp_all add: default_config_def Let_def unset_range_def)

lemma migrations_settle: "trim_space (env_fresh_secret env) \<noteq> '''' \<Longrightarrow> settles [] (migrations env)"
  unfolding migrations_def migrations_schema_def migrations_ports_def migrations_modes_def append.simps
    settles.simps
  apply (intro conjI)
  apply (simp_all add: default_config_fields upd_selected_def)
  apply (auto simp: unset_range_def)
  done

lemma default_config_quiesced:
  "trim_space (env_default_secret env) \<noteq> '''' \<Longrightarrow> quiesced (migrations env) (default_config env)"
  using normalizer_fixed
  by (simp add: migrations_def migrations_schema_def migrations_ports_def migrations_modes_def
      default_config_def Let_def unset_range_def equal_fold_def to_lower_def)

text \<open>What the rest of the agent relies on in a loaded configuration.\<close>

definition config_usable :: "config \<Rightarrow> bool" where
  "config_usable c \<longleftrightarrow> 4 \<le> cfg_schema_version c \<and> trim_space (cfg_node_secret c) \<noteq> '''' \<and>
     cfg_transfer_port c \<noteq> 0 \<and> cfg_discovery_port c \<noteq> 0 \<and> cfg_local_api_port c \<noteq> 0 \<and>
     cfg_control_port c \<noteq> 0 \<and>
     cfg_interface_policy c \<in> {''auto'', ''manual'', ''all''} \<and> 0 < cfg_interface_refresh c \<and>
     (\<exists>t\<in>set (cfg_allowed_if_types c). equal_fold t ''unknown'') \<and>
     cfg_remote_send_roots c \<noteq> None \<and>
     cfg_download_pipeline_mode c \<in> {''pipelined'', ''legacy''} \<and>
     0 < cfg_download_in_flight_per_chan c \<and>
     cfg_download_channel_strategy c \<in> {''strict_split'', ''dynamic''} \<and>
     0 < cfg_download_split_cable_pct c \<and> cfg_download_split_cable_pct c < 100 \<and>
     cfg_pull_folder_result c \<in> {''extract'', ''zip''}"

lemma quiesced_usable: "quiesced (migrations env) c \<Longrightarrow> config_usable c"
  using normalizer_values(1) [of "cfg_interface_policy c"]
    normalizer_values(2) [of "cfg_download_pipeline_mode c"]
    normalizer_values(3) [of "cfg_download_channel_strategy c"]
    normalizer_values(4) [of "cfg_pull_folder_result c"]
  by (simp add: migrations_def migrations_schema_def migrations_ports_def migrations_modes_def
      config_usable_def list_ex_iff)

lemma migrations_keep_user_fields:
  "m \<in> set (migrations env) \<Longrightarrow>
   (cfg_node_id (mg_update m c), cfg_display_name (mg_update m c), cfg_receive_path (mg_update m c),
    cfg_chunk_size_mb (mg_update m c), cfg_require_auth (mg_update m c)) =
   (cfg_node_id c, cfg_display_name c, cfg_receive_path c, cfg_chunk_size_mb c, cfg_require_auth c)"
  by (auto simp: migrations_def migrations_schema_def migrations_ports_def migrations_modes_def
      upd_selected_def)

text \<open>
  C39: the migration that runs on every load is idempotent and repairs every setting. When the random
  generator supplies a nonblank secret, the migrated configuration has the current schema, nonzero
  ports, a secret, and every enumerated or bounded setting inside its range, whatever the file held;
  it keeps the user's identity and paths, and a second load changes nothing and reports that nothing
  was migrated, so that the file is not rewritten again.
\<close>

theorem migrate_idempotent:
  assumes "trim_space (env_fresh_secret env) \<noteq> ''''"
  shows "let c' = snd (migrate_legacy_config env c) in
     config_usable c' \<and> migrate_legacy_config env c' = (False, c') \<and>
     (cfg_node_id c', cfg_receive_path c', cfg_require_auth c') =
     (cfg_node_id c, cfg_receive_path c, cfg_require_auth c)"
proof -
  let ?c = "snd (migrate_legacy_config env c)"
  have q: "quiesced (migrations env) ?c"
    using run_migrations_quiesces [OF migrations_settle [OF assms], of c False]
    by (simp add: migrate_legacy_config_def)
  have "migrate_legacy_config env ?c = (False, ?c)"
    using run_migrations_fixpoint [OF q] by (simp add: migrate_legacy_config_def)
  moreover have "(cfg_node_id ?c, cfg_display_name ?c, cfg_receive_path ?c, cfg_chunk_size_mb ?c,
      cfg_require_auth ?c) = (cfg_node_id c, cfg_display_name c, cfg_receive_path c,
      cfg_chunk_size_mb c, cfg_require_auth c)"
    unfolding migrate_legacy_config_def
    by (rule run_migrations_invariant [where f = "\<lambda>c. (cfg_node_id c, cfg_display_name c,
      cfg_receive_path c, cfg_chunk_size_mb c, cfg_require_auth c)", OF migrations_keep_user_fields])
  ultimately show ?thesis using quiesced_usable [OF q] by (simp add: Let_def)
qed

definition demo_env :: config_env where
  "demo_env = \<lparr>env_computer_name = ''node'', env_user_profile = ''C:'', env_now_nano = 7,
     env_default_secret = ''ab'', env_fresh_secret = ''cd'', env_join = concat\<rparr>"

definition legacy_config :: config where
  "legacy_config = (default_config demo_env)\<lparr>cfg_schema_version := 1, cfg_node_secret := '' '',
     cfg_transfer_port := 0, cfg_download_split_cable_pct := 120, cfg_remote_send_roots := None\<rparr>"

theorem migrate_idempotent_witness:
  "config_usable (snd (migrate_legacy_config demo_env legacy_config)) \<and> \<not> config_usable legacy_config"
proof -
  have "trim_space (env_fresh_secret demo_env) \<noteq> ''''" by code_simp
  from migrate_idempotent [OF this, of legacy_config] show ?thesis
    by (simp add: Let_def config_usable_def legacy_config_def)
qed

lemma hex_digit_not_space: "d < 16 \<Longrightarrow> \<not> is_space (hex_digit d)"
  by (simp add: hex_digit_def is_space_def Let_def)

lemma hex_encode_no_space: "c \<in> set (hex_encode r) \<Longrightarrow> \<not> is_space c"
proof (induction r rule: hex_encode.induct)
  case (2 b bs)
  have "of_char b div 16 < (16::nat)" using nat_of_char_less_256 [of b] by linarith
  with 2 show ?case
    using hex_digit_not_space [of "of_char b div 16"] hex_digit_not_space [of "of_char b mod 16"] by auto
qed simp

lemma hex_encode_trim: "trim_space (hex_encode r) = hex_encode r"
proof (cases "hex_encode r = ''''")
  case False
  then show ?thesis unfolding trim_space_def
    by (intro trim_by_id False)
      (use False hd_in_set last_in_set in \<open>blast dest: hex_encode_no_space\<close>)+
qed simp

text \<open>
  a secret survives its hexadecimal rendering. For any 32 random bytes, the secret that
  \<open>GenerateSecret\<close> writes into the configuration is read back by \<open>SecretBytes\<close> as exactly those
  bytes, and it is the key used for authentication exactly when authentication is required: otherwise
  the key is empty.
\<close>

theorem secret_roundtrip:
  assumes "length r = 32"
  shows "secret_bytes (c\<lparr>cfg_node_secret := generate_secret r\<rparr>) = r \<and>
         auth_secret (c\<lparr>cfg_node_secret := generate_secret r\<rparr>) = (if cfg_require_auth c then r else '''')"
proof -
  have "trim_space (hex_encode r) = hex_encode r" by (rule hex_encode_trim)
  moreover have "hex_encode r \<noteq> ''''"
    using assms length_hex_encode [of r] by (metis list.size(3) mult_eq_0_iff zero_neq_numeral)
  ultimately show ?thesis using assms hex_decode_encode [of r]
    by (auto simp: secret_bytes_def auth_secret_def generate_secret_def Let_def)
qed

theorem secret_roundtrip_witness:
  "secret_bytes ((default_config demo_env)\<lparr>cfg_node_secret := generate_secret (replicate 32 CHR ''k'')\<rparr>)
   = replicate 32 CHR ''k''"
  by (rule secret_roundtrip [of "replicate 32 CHR ''k''" "default_config demo_env", THEN conjunct1]) simp

end
