(* ===== verification/Netif.thy ===== *)
theory Netif
  imports Config "HOL-Library.Word"
begin

text \<open>
  Network interfaces: \<open>internal/netif/netif.go\<close>, \<open>internal/ifmonitor/ifmonitor.go\<close> and the
  interface scans of \<open>internal/discovery/discovery.go\<close>. The operating system's answer
  (\<open>net.Interfaces\<close>, \<open>Interface.Addrs\<close>) is an argument: \<open>None\<close> is its error. An address is the
  Go interface value \<open>net.Addr\<close>; its bytes are 8-bit words. The byte operations of package \<open>net\<close>
  that the code calls (\<open>To4\<close>, \<open>String\<close>, \<open>Contains\<close>) are written out for version 4 addresses.
\<close>

unbundle bit_operations_syntax

type_synonym byte8 = "8 word"
type_synonym ip = "byte8 list" \<comment> \<open>\<open>net.IP\<close>; the empty list is nil\<close>

datatype ip4 = IP4 byte8 byte8 byte8 byte8 \<comment> \<open>what \<open>To4\<close> returns when it is not nil\<close>

datatype net_addr = IPNet ip ip | IPAddr ip | OtherAddr

record iface =
  ifc_name :: string
  ifc_up :: bool
  ifc_loopback :: bool
  ifc_addrs :: "net_addr list option"

record interface_info =
  info_name :: string
  info_type :: string
  info_ipv4 :: string
  info_usable :: bool
  info_reason :: string

section \<open>Addresses\<close>

definition ip4_of :: "ip \<Rightarrow> ip4" where
  "ip4_of b = IP4 (b ! 0) (b ! 1) (b ! 2) (b ! 3)"

text \<open>\<open>IP.To4\<close>: a 4-byte address, or a 16-byte one with the mapped prefix.\<close>

definition to4 :: "ip \<Rightarrow> ip4 option" where
  "to4 b =
     (if length b = 4 then Some (ip4_of b)
      else if length b = 16 \<and> take 12 b = replicate 10 0 @ [255, 255] then Some (ip4_of (drop 12 b))
      else None)"

fun ip4_string :: "ip4 \<Rightarrow> string" where
  "ip4_string (IP4 a b c d) = join_with CHR ''.'' (map (\<lambda>w. itoa (uint w)) [a, b, c, d])"

fun is_loopback_ip :: "ip4 \<Rightarrow> bool" where
  "is_loopback_ip (IP4 a b c d) \<longleftrightarrow> a = 127"

fun is_unspecified :: "ip4 \<Rightarrow> bool" where
  "is_unspecified (IP4 a b c d) \<longleftrightarrow> a = 0 \<and> b = 0 \<and> c = 0 \<and> d = 0"

fun is_link_local :: "ip4 \<Rightarrow> bool" where
  "is_link_local (IP4 a b c d) \<longleftrightarrow> a = 169 \<and> b = 254"

definition ip_from_addr :: "net_addr \<Rightarrow> ip4 option" where
  "ip_from_addr a = (case a of IPNet i m \<Rightarrow> to4 i | IPAddr i \<Rightarrow> to4 i | OtherAddr \<Rightarrow> None)"

section \<open>\<open>DetectUsableIPv4\<close>\<close>

definition ignored_names :: "string list" where
  "ignored_names = [''loopback'', ''hyper-v'', ''vethernet'', ''tailscale'', ''vpn'', ''virtualbox'',
     ''vmware'', ''docker'', ''wsl'', ''bluetooth'']"

definition should_ignore_interface_name :: "string \<Rightarrow> bool" where
  "should_ignore_interface_name name \<longleftrightarrow> list_ex (contains (to_lower name)) ignored_names"

fun dedupe_from :: "string list \<Rightarrow> ip4 list \<Rightarrow> ip4 list" where
  "dedupe_from seen [] = []"
| "dedupe_from seen (ip # ips) =
     (if ip4_string ip \<in> set seen then dedupe_from seen ips
      else ip # dedupe_from (ip4_string ip # seen) ips)"

definition dedupe :: "ip4 list \<Rightarrow> ip4 list" where
  "dedupe ips = dedupe_from [] ips"

definition keep_ipv4 :: "net_addr \<Rightarrow> ip4 option" where
  "keep_ipv4 a =
     (case ip_from_addr a of
        None \<Rightarrow> None
      | Some i \<Rightarrow> if is_loopback_ip i \<or> is_unspecified i \<or> is_link_local i then None else Some i)"

definition detect_usable_ipv4 :: "iface list option \<Rightarrow> ip4 list result" where
  "detect_usable_ipv4 ifs =
     (case ifs of
        None \<Rightarrow> Inl ''net.Interfaces failed''
      | Some l \<Rightarrow> Inr (dedupe (concat (map
          (\<lambda>ifc. if \<not> ifc_up ifc \<or> ifc_loopback ifc \<or> should_ignore_interface_name (ifc_name ifc) then []
                 else case ifc_addrs ifc of None \<Rightarrow> [] | Some as \<Rightarrow> List.map_filter keep_ipv4 as) l))))"

section \<open>\<open>DetectUsableInterfaces\<close>\<close>

definition classify_type :: "string \<Rightarrow> string" where
  "classify_type name =
     (let l = to_lower name in
      if contains l ''wi-fi'' \<or> contains l ''wifi'' \<or> contains l ''wireless'' then ''wifi''
      else if contains l ''usb'' \<and> contains l ''ethernet'' then ''usb_ethernet''
      else if contains l ''ethernet'' then ''ethernet''
      else ''unknown'')"

text \<open>A nil slice of settings is the empty list for the loops.\<close>

definition slice_of :: "'a list option \<Rightarrow> 'a list" where
  "slice_of xs = (case xs of None \<Rightarrow> [] | Some l \<Rightarrow> l)"

definition should_ignore_by_name :: "config \<Rightarrow> string \<Rightarrow> bool" where
  "should_ignore_by_name cfg name \<longleftrightarrow>
     (let l = to_lower name in
      list_ex (\<lambda>n. contains l (to_lower (trim_space n))) (slice_of (cfg_ignored_interfaces cfg)) \<or>
      (cfg_ignore_virtual cfg \<and>
        list_ex (contains l) [''hyper-v'', ''vethernet'', ''wsl'', ''docker'', ''vmware'', ''virtualbox'']) \<or>
      (cfg_ignore_vpn cfg \<and> list_ex (contains l) [''tailscale'', ''vpn'']) \<or>
      contains l ''bluetooth'')"

fun first_usable_ipv4 :: "net_addr list \<Rightarrow> bool \<Rightarrow> ip4 option" where
  "first_usable_ipv4 [] ignore_link_local = None"
| "first_usable_ipv4 (a # as) ignore_link_local =
     (case ip_from_addr a of
        None \<Rightarrow> first_usable_ipv4 as ignore_link_local
      | Some i \<Rightarrow>
          if is_loopback_ip i \<or> is_unspecified i then first_usable_ipv4 as ignore_link_local
          else if ignore_link_local \<and> is_link_local i then first_usable_ipv4 as ignore_link_local
          else Some i)"

definition is_allowed_type :: "config \<Rightarrow> string \<Rightarrow> bool" where
  "is_allowed_type cfg typ \<longleftrightarrow> list_ex (\<lambda>t. equal_fold (trim_space t) typ) (cfg_allowed_if_types cfg)"

definition is_allowed_by_policy :: "config \<Rightarrow> interface_info \<Rightarrow> bool" where
  "is_allowed_by_policy cfg info =
     (let p = normalize_interface_policy (cfg_interface_policy cfg) in
      if p = ''manual'' then
        list_ex (\<lambda>n. let v = trim_space n in equal_fold v (info_name info) \<or> equal_fold v (info_ipv4 info))
          (slice_of (cfg_manual_interfaces cfg))
      else if p = ''all'' then True
      else is_allowed_type cfg (info_type info))"

definition inspect_interface :: "config \<Rightarrow> iface \<Rightarrow> interface_info" where
  "inspect_interface cfg ifc =
     (let info = \<lparr>info_name = ifc_name ifc, info_type = classify_type (ifc_name ifc), info_ipv4 = '''',
                  info_usable = False, info_reason = ''''\<rparr> in
      if \<not> ifc_up ifc then info\<lparr>info_reason := ''disconnected''\<rparr>
      else if ifc_loopback ifc then info\<lparr>info_reason := ''loopback''\<rparr>
      else if should_ignore_by_name cfg (ifc_name ifc) then info\<lparr>info_reason := ''ignored-by-name''\<rparr>
      else case ifc_addrs ifc of
        None \<Rightarrow> info\<lparr>info_reason := ''addr-query-failed''\<rparr>
      | Some as \<Rightarrow>
          (case first_usable_ipv4 as (cfg_ignore_link_local cfg) of
             None \<Rightarrow> info\<lparr>info_reason := ''no-usable-ipv4''\<rparr>
           | Some i \<Rightarrow>
               let info = info\<lparr>info_ipv4 := ip4_string i\<rparr> in
               if \<not> is_allowed_by_policy cfg info
               then (if info_reason info = '''' then info\<lparr>info_reason := ''policy-blocked''\<rparr> else info)
               else info\<lparr>info_usable := True\<rparr>))"

definition detect_usable_interfaces :: "config \<Rightarrow> iface list option \<Rightarrow> interface_info list" where
  "detect_usable_interfaces cfg ifs =
     (case ifs of None \<Rightarrow> [] | Some l \<Rightarrow> map (inspect_interface cfg) l)"

section \<open>Broadcast addresses and local networks of the discovery\<close>

text \<open>
  A network is its masked address and the mask's first four bytes. The masks of interface addresses
  are 4 bytes long for a version 4 address; the scans look at the first four bytes of any mask.
\<close>

datatype ip_net = Net4 (net_ip: ip4) (net_mask: ip4)

fun map2_ip4 :: "(byte8 \<Rightarrow> byte8 \<Rightarrow> byte8) \<Rightarrow> ip4 \<Rightarrow> ip4 \<Rightarrow> ip4" where
  "map2_ip4 f (IP4 a b c d) (IP4 a' b' c' d') = IP4 (f a a') (f b b') (f c c') (f d d')"

text \<open>The scan shared by \<open>broadcastTargets\<close> and \<open>localIPv4Nets\<close>: address and mask of each usable IPNet.\<close>

definition usable_net :: "net_addr \<Rightarrow> (ip4 \<times> ip4) option" where
  "usable_net a =
     (case a of
        IPNet i m \<Rightarrow>
          (if i = [] \<or> m = [] then None
           else case to4 i of
                  None \<Rightarrow> None
                | Some i4 \<Rightarrow> if length m < 4 \<or> is_link_local i4 then None else Some (i4, ip4_of m))
      | _ \<Rightarrow> None)"

definition usable_nets :: "iface list option \<Rightarrow> (ip4 \<times> ip4) list" where
  "usable_nets ifs =
     (case ifs of
        None \<Rightarrow> []
      | Some l \<Rightarrow> concat (map
          (\<lambda>ifc. if \<not> ifc_up ifc \<or> ifc_loopback ifc \<or> should_ignore_interface_name (ifc_name ifc) then []
                 else case ifc_addrs ifc of None \<Rightarrow> [] | Some as \<Rightarrow> List.map_filter usable_net as) l))"

definition bcast_of :: "ip4 \<times> ip4 \<Rightarrow> ip4" where
  "bcast_of n = map2_ip4 (\<lambda>i m. i OR NOT m) (fst n) (snd n)"

text \<open>\<open>broadcastTargets\<close>: the \<open>seen\<close> map keeps the first of equal addresses, as \<open>dedupe\<close> does.\<close>

definition broadcast_targets :: "iface list option \<Rightarrow> ip4 list" where
  "broadcast_targets ifs = dedupe (map bcast_of (usable_nets ifs))"

definition local_ipv4_nets :: "iface list option \<Rightarrow> ip_net list" where
  "local_ipv4_nets ifs = map (\<lambda>n. Net4 (map2_ip4 (AND) (fst n) (snd n)) (snd n)) (usable_nets ifs)"

text \<open>\<open>IPNet.Contains\<close> for version 4 and \<open>belongsToAnyNet\<close>.\<close>

definition net_contains :: "ip_net \<Rightarrow> ip4 \<Rightarrow> bool" where
  "net_contains n i \<longleftrightarrow>
     map2_ip4 (AND) (net_ip n) (net_mask n) = map2_ip4 (AND) i (net_mask n)"

definition belongs_to_any_net :: "ip4 \<Rightarrow> ip_net list \<Rightarrow> bool" where
  "belongs_to_any_net i nets \<longleftrightarrow> list_ex (\<lambda>n. net_contains n i) nets"

section \<open>Lemmas\<close>

lemma uint_byte_digits: "CHR ''.'' \<notin> set (itoa (uint (w :: byte8)))"
  using itoa_chars [of "CHR ''.''" "uint w"] by (auto simp: is_digit_def)

lemma ip4_string_inject: "ip4_string a = ip4_string b \<longleftrightarrow> a = b"
proof
  assume e: "ip4_string a = ip4_string b"
  obtain a1 a2 a3 a4 where a: "a = IP4 a1 a2 a3 a4" by (cases a)
  obtain b1 b2 b3 b4 where b: "b = IP4 b1 b2 b3 b4" by (cases b)
  have "map (\<lambda>w. itoa (uint w)) [a1, a2, a3, a4] = map (\<lambda>w. itoa (uint w)) [b1, b2, b3, b4]"
    using arg_cong [OF e, of "split_on CHR ''.''"] unfolding a b ip4_string.simps
    by (subst (asm) (1 2) split_join) (auto simp: uint_byte_digits)
  then show "a = b" by (simp add: a b itoa_inject word_uint_eq_iff)
qed simp

lemma dedupe_from_correct:
  "distinct (dedupe_from seen ips) \<and>
   set (dedupe_from seen ips) = {i \<in> set ips. ip4_string i \<notin> set seen}"
  by (induction seen ips rule: dedupe_from.induct) (auto simp: ip4_string_inject)

lemma dedupe_correct: "distinct (dedupe ips)" "set (dedupe ips) = set ips"
  using dedupe_from_correct [of "[]" ips] by (simp_all add: dedupe_def)

lemma first_usable_ipv4_Some:
  "first_usable_ipv4 as ll = Some i \<Longrightarrow>
   (\<exists>a\<in>set as. ip_from_addr a = Some i) \<and> \<not> is_loopback_ip i \<and> \<not> is_unspecified i \<and>
   (ll \<longrightarrow> \<not> is_link_local i)"
  by (induction as ll rule: first_usable_ipv4.induct) (auto split: option.splits if_splits)

lemma first_usable_ipv4_None:
  "first_usable_ipv4 as ll = None \<longleftrightarrow>
   (\<forall>a\<in>set as. \<forall>i. ip_from_addr a = Some i \<longrightarrow>
      is_loopback_ip i \<or> is_unspecified i \<or> ll \<and> is_link_local i)"
  by (induction as ll rule: first_usable_ipv4.induct) (auto split: option.splits)

lemma bcast_in_net: "map2_ip4 (AND) (map2_ip4 (\<lambda>i m. i OR NOT m) i m) m = map2_ip4 (AND) i m"
proof -
  have "(a OR NOT b) AND b = a AND b" for a b :: byte8 by (simp add: bit.conj_disj_distrib2)
  then show ?thesis by (cases i; cases m) simp
qed

lemma mask_idem: "map2_ip4 (AND) (map2_ip4 (AND) i m) m = map2_ip4 (AND) i m"
  by (cases i; cases m) (simp add: and.assoc)

lemma contains_blank [simp]: "contains s ''''"
  by (cases s) auto

lemma inspect_name [simp]: "info_name (inspect_interface cfg ifc) = ifc_name ifc"
  by (auto simp: inspect_interface_def Let_def split: option.splits)

lemma inspect_usable:
  "info_usable (inspect_interface cfg ifc) \<Longrightarrow>
   ifc_up ifc \<and> \<not> ifc_loopback ifc \<and> \<not> should_ignore_by_name cfg (ifc_name ifc) \<and>
   (\<exists>as i. ifc_addrs ifc = Some as \<and> first_usable_ipv4 as (cfg_ignore_link_local cfg) = Some i \<and>
      info_ipv4 (inspect_interface cfg ifc) = ip4_string i \<and>
      is_allowed_by_policy cfg (inspect_interface cfg ifc))"
  by (auto simp: inspect_interface_def Let_def is_allowed_by_policy_def split: option.splits if_splits)

text \<open>
  an interface reported usable is fit for a transfer. It exists and is up, is no loopback and
  is not ignored by name, its address is one of its own, neither loopback nor unspecified nor (when
  those are ignored) link-local, and under the manual policy the user listed its name or address.
\<close>

theorem usable_interface_sound:
  assumes "info \<in> set (detect_usable_interfaces cfg ifs)" and "info_usable info"
  shows "\<exists>l ifc as a i. ifs = Some l \<and> ifc \<in> set l \<and> ifc_name ifc = info_name info \<and>
     ifc_up ifc \<and> \<not> ifc_loopback ifc \<and> \<not> should_ignore_by_name cfg (ifc_name ifc) \<and>
     ifc_addrs ifc = Some as \<and> a \<in> set as \<and> ip_from_addr a = Some i \<and> info_ipv4 info = ip4_string i \<and>
     \<not> is_loopback_ip i \<and> \<not> is_unspecified i \<and> (cfg_ignore_link_local cfg \<longrightarrow> \<not> is_link_local i) \<and>
     (normalize_interface_policy (cfg_interface_policy cfg) = ''manual'' \<longrightarrow>
        (\<exists>n\<in>set (slice_of (cfg_manual_interfaces cfg)).
           equal_fold (trim_space n) (info_name info) \<or> equal_fold (trim_space n) (info_ipv4 info)))"
proof -
  obtain l ifc where l: "ifs = Some l" "ifc \<in> set l" "info = inspect_interface cfg ifc"
    using assms(1) by (auto simp: detect_usable_interfaces_def split: option.splits)
  obtain as i where i: "ifc_up ifc" "\<not> ifc_loopback ifc" "\<not> should_ignore_by_name cfg (ifc_name ifc)"
    "ifc_addrs ifc = Some as" "first_usable_ipv4 as (cfg_ignore_link_local cfg) = Some i"
    "info_ipv4 info = ip4_string i" "is_allowed_by_policy cfg info"
    using inspect_usable [of cfg ifc] assms(2) l(3) by blast
  obtain a where a: "a \<in> set as" "ip_from_addr a = Some i" "\<not> is_loopback_ip i" "\<not> is_unspecified i"
    "cfg_ignore_link_local cfg \<longrightarrow> \<not> is_link_local i"
    using first_usable_ipv4_Some [OF i(5)] by blast
  have "normalize_interface_policy (cfg_interface_policy cfg) = ''manual'' \<longrightarrow>
        (\<exists>n\<in>set (slice_of (cfg_manual_interfaces cfg)).
           equal_fold (trim_space n) (info_name info) \<or> equal_fold (trim_space n) (info_ipv4 info))"
    using i(7) by (auto simp: is_allowed_by_policy_def Let_def list_ex_iff)
  with l i a show ?thesis by (intro exI [of _ l] exI [of _ ifc] exI [of _ as] exI [of _ a] exI [of _ i]) simp
qed

definition demo_iface :: iface where
  "demo_iface = \<lparr>ifc_name = ''Ethernet 2'', ifc_up = True, ifc_loopback = False,
     ifc_addrs = Some [OtherAddr, IPNet [192, 168, 1, 7] [255, 255, 255, 0]]\<rparr>"

theorem usable_interface_sound_witness:
  "\<exists>ifc a i. ifc = demo_iface \<and> ip_from_addr a = Some i \<and>
     info_ipv4 (inspect_interface (default_config demo_env) ifc) = ip4_string i \<and> \<not> is_loopback_ip i"
proof -
  let ?i = "inspect_interface (default_config demo_env) demo_iface"
  have m: "?i \<in> set (detect_usable_interfaces (default_config demo_env) (Some [demo_iface]))"
    by (simp add: detect_usable_interfaces_def)
  have u: "info_usable ?i" by code_simp
  show ?thesis using usable_interface_sound [OF m u] by auto
qed

text \<open>
  one blank entry in the list of ignored interfaces disables every interface: the blank text
  is a substring of every name, so no interface is ever usable, whatever the policy.
\<close>

theorem blank_ignore_disables_all:
  assumes "n \<in> set (slice_of (cfg_ignored_interfaces cfg))" and "trim_space n = ''''"
  shows "list_all (\<lambda>info. \<not> info_usable info) (detect_usable_interfaces cfg ifs)"
proof -
  have "should_ignore_by_name cfg name" for name
  proof -
    have "contains (to_lower name) (to_lower (trim_space n))" by (simp add: assms(2) to_lower_def)
    then show ?thesis using assms(1) unfolding should_ignore_by_name_def Let_def list_ex_iff by blast
  qed
  then have "\<not> info_usable (inspect_interface cfg ifc)" for ifc using inspect_usable by blast
  then show ?thesis by (auto simp: detect_usable_interfaces_def list_all_iff split: option.splits)
qed

theorem blank_ignore_disables_all_witness:
  "list_all (\<lambda>info. \<not> info_usable info)
     (detect_usable_interfaces ((default_config demo_env)\<lparr>cfg_ignored_interfaces := Some ['' '']\<rparr>)
        (Some [demo_iface]))"
  by (rule blank_ignore_disables_all [of "'' ''"]) (simp_all add: slice_of_def trim_space_def trim_by_def
      trim_right_by_def trim_left_by_def is_space_def)

text \<open>
  the broadcast targets cover the local networks exactly: no target twice, each inside one of
  the networks that the probe scan accepts, and each of those networks has its own broadcast
  address among the targets.
\<close>

theorem broadcast_targets_cover:
  "distinct (broadcast_targets ifs) \<and>
   (\<forall>t\<in>set (broadcast_targets ifs). belongs_to_any_net t (local_ipv4_nets ifs)) \<and>
   (\<forall>n\<in>set (local_ipv4_nets ifs). \<exists>t\<in>set (broadcast_targets ifs).
      net_contains n t \<and> t = map2_ip4 (\<lambda>i m. i OR NOT m) (net_ip n) (net_mask n))"
proof -
  have "(i AND m) OR NOT m = i OR NOT m" for i m :: byte8 by (simp add: bit.disj_conj_distrib2)
  then have b: "map2_ip4 (\<lambda>i m. i OR NOT m) (map2_ip4 (AND) i m) m = map2_ip4 (\<lambda>i m. i OR NOT m) i m" for i m
    by (cases i; cases m) simp
  let ?net = "\<lambda>n. Net4 (map2_ip4 (AND) (fst n) (snd n)) (snd n)"
  have "net_contains (?net n) (bcast_of n)"
    "bcast_of n = map2_ip4 (\<lambda>i m. i OR NOT m) (net_ip (?net n)) (net_mask (?net n))" for n
    by (simp_all add: net_contains_def bcast_of_def bcast_in_net mask_idem b)
  then show ?thesis
    unfolding broadcast_targets_def local_ipv4_nets_def dedupe_correct belongs_to_any_net_def
      list_ex_iff set_map ball_simps bex_simps
    by (blast intro: dedupe_correct(1))
qed

theorem broadcast_targets_cover_witness:
  "broadcast_targets (Some [demo_iface]) = [IP4 192 168 1 255] \<and>
   belongs_to_any_net (IP4 192 168 1 255) (local_ipv4_nets (Some [demo_iface]))"
proof -
  have t: "broadcast_targets (Some [demo_iface]) = [IP4 192 168 1 255]" by code_simp
  then show ?thesis using broadcast_targets_cover [of "Some [demo_iface]"] by simp
qed

end
