(* ===== verification/Discovery.thy ===== *)
theory Discovery
  imports Netif "HOL-Library.List_Lexorder" "HOL-Library.Char_ord"
begin

text \<open>
  Peer discovery, \<open>internal/discovery/discovery.go\<close>: the manager's tables of peers and probes, the
  handling of a received packet, the listing of peers, and the probe cycle over the ARP table. Times
  are nanoseconds. The JSON decoder, the lines of the ARP table and the outcome of a TCP dial are
  arguments. A Go map is an association list: the order of its entries is the order of iteration,
  which Go leaves open, and the listing is shown not to depend on it.
\<close>

section \<open>Data\<close>

record hello =
  hl_type :: string
  hl_node_id :: string
  hl_name :: string
  hl_transfer_port :: int
  hl_discovery_port :: int
  hl_control_port :: int
  hl_ips :: "string list"
  hl_version :: string
  hl_ts :: int

record peer =
  peer_hello :: hello
  peer_addr :: string
  peer_last_seen :: int

record manager =
  dm_node_id :: string
  dm_name :: string
  dm_version :: string
  dm_tcp_port :: int
  dm_udp_port :: int
  dm_control_port :: int
  dm_udp_port_start :: int
  dm_udp_port_end :: int
  dm_peers :: "(string \<times> peer) list"
  dm_last_probe :: "(string \<times> int) list"

abbreviation second :: int where "second \<equiv> 1000000000"

definition peer_ttl :: int where
  "peer_ttl = 45 * second"

definition new_manager :: "string \<Rightarrow> string \<Rightarrow> string \<Rightarrow> int \<Rightarrow> int \<Rightarrow> int \<Rightarrow> int \<Rightarrow> int \<Rightarrow> manager" where
  "new_manager nodeID name version tcpPort udpPort controlPort udpPortStart udpPortEnd =
     (let (s, e) = (if udpPortStart \<le> 0 \<or> udpPortEnd \<le> 0 then (udpPort, udpPort)
                    else (udpPortStart, udpPortEnd));
          (s, e) = (if e < s then (e, s) else (s, e))
      in \<lparr>dm_node_id = nodeID, dm_name = name, dm_version = version, dm_tcp_port = tcpPort,
          dm_udp_port = udpPort, dm_control_port = controlPort, dm_udp_port_start = s,
          dm_udp_port_end = e, dm_peers = [], dm_last_probe = []\<rparr>)"

text \<open>\<open>helloPayload\<close>: the value that is marshalled; addresses and clock are arguments.\<close>

definition hello_payload :: "manager \<Rightarrow> string list \<Rightarrow> int \<Rightarrow> hello" where
  "hello_payload m ips now_unix =
     \<lparr>hl_type = ''MULTISEND_HELLO'', hl_node_id = dm_node_id m, hl_name = dm_name m,
      hl_transfer_port = dm_tcp_port m, hl_discovery_port = dm_udp_port m,
      hl_control_port = dm_control_port m, hl_ips = ips, hl_version = dm_version m, hl_ts = now_unix\<rparr>"

text \<open>The destinations of \<open>sendHelloBroadcast\<close>: every port of the range, each local target, then the limited broadcast.\<close>

definition hello_destinations :: "manager \<Rightarrow> iface list option \<Rightarrow> (ip4 \<times> int) list" where
  "hello_destinations m ifs =
     concat (map (\<lambda>port. map (\<lambda>t. (t, port)) (broadcast_targets ifs @ [IP4 255 255 255 255]))
       [dm_udp_port_start m .. dm_udp_port_end m])"

text \<open>The package's own \<open>itoa\<close>; negation of an int64 wraps.\<close>

fun itoa_loop :: "nat \<Rightarrow> string \<Rightarrow> string" where
  "itoa_loop v buf = (if v = 0 then buf else itoa_loop (v div 10) (char_of (48 + v mod 10) # buf))"

declare itoa_loop.simps [simp del]

definition disc_itoa :: "int \<Rightarrow> string" where
  "disc_itoa v =
     (if v = 0 then ''0''
      else let w = (if v < 0 then i64 (- v) else v);
               buf = itoa_loop (nat w) [] in
           if v < 0 then CHR ''-'' # buf else buf)"

section \<open>Peers\<close>

definition handle_packet ::
  "(bytes \<Rightarrow> hello option) \<Rightarrow> manager \<Rightarrow> bytes \<Rightarrow> string option \<Rightarrow> int \<Rightarrow> manager" where
  "handle_packet unmarshal m packet addr now =
     (case addr of
        None \<Rightarrow> m
      | Some ip \<Rightarrow>
          (case unmarshal packet of
             None \<Rightarrow> m
           | Some h \<Rightarrow>
               if hl_type h \<noteq> ''MULTISEND_HELLO'' \<or> hl_node_id h = '''' \<or> hl_node_id h = dm_node_id m then m
               else if \<not> is_valid_port (hl_transfer_port h) \<or>
                 (hl_discovery_port h \<noteq> 0 \<and> \<not> is_valid_port (hl_discovery_port h)) \<or>
                 (hl_control_port h \<noteq> 0 \<and> \<not> is_valid_port (hl_control_port h)) then m
               else m\<lparr>dm_peers := AList.update (hl_node_id h)
                        \<lparr>peer_hello = h, peer_addr = ip, peer_last_seen = now\<rparr> (dm_peers m)\<rparr>))"

definition has_fresh_real_peer :: "(string \<times> peer) list \<Rightarrow> int \<Rightarrow> string \<Rightarrow> bool" where
  "has_fresh_real_peer ps now addr \<longleftrightarrow>
     list_ex (\<lambda>(i, p). \<not> has_prefix i ''probe-'' \<and> peer_addr p = addr \<and>
       now - peer_last_seen p \<le> peer_ttl) ps"

text \<open>The order of the listing: lower-case name, then node id, as the less function of \<open>sort.Slice\<close>.\<close>

datatype peer_key = PeerKey string string

definition key_of :: "peer \<Rightarrow> peer_key" where
  "key_of p = PeerKey (to_lower (hl_name (peer_hello p))) (hl_node_id (peer_hello p))"

instantiation peer_key :: linorder
begin

fun less_peer_key :: "peer_key \<Rightarrow> peer_key \<Rightarrow> bool" where
  "less_peer_key (PeerKey left i) (PeerKey right j) = (if left = right then i < j else left < right)"

definition less_eq_peer_key :: "peer_key \<Rightarrow> peer_key \<Rightarrow> bool" where
  "less_eq_peer_key a b = (a < b \<or> a = b)"

instance
proof
  fix x y z :: peer_key
  show "(x < y) = (x \<le> y \<and> \<not> y \<le> x)" by (cases x; cases y) (auto simp: less_eq_peer_key_def)
  show "x \<le> x" by (simp add: less_eq_peer_key_def)
  show "x \<le> y \<Longrightarrow> y \<le> z \<Longrightarrow> x \<le> z"
    by (cases x; cases y; cases z) (auto simp: less_eq_peer_key_def split: if_splits)
  show "x \<le> y \<Longrightarrow> y \<le> x \<Longrightarrow> x = y"
    by (cases x; cases y) (auto simp: less_eq_peer_key_def split: if_splits)
  show "x \<le> y \<or> y \<le> x" by (cases x; cases y) (auto simp: less_eq_peer_key_def)
qed

end

text \<open>The loop of \<open>Peers\<close>: over the entries, with the map it deletes from and the list it builds.\<close>

fun peers_loop :: "int \<Rightarrow> (string \<times> peer) list \<Rightarrow> (string \<times> peer) list \<Rightarrow> peer list
    \<Rightarrow> (string \<times> peer) list \<times> peer list" where
  "peers_loop now [] ps out = (ps, out)"
| "peers_loop now ((i, p) # todo) ps out =
     (if peer_ttl < now - peer_last_seen p then peers_loop now todo (AList.delete i ps) out
      else if has_prefix i ''probe-'' \<and> has_fresh_real_peer ps now (peer_addr p)
      then peers_loop now todo ps out
      else peers_loop now todo ps (out @ [p]))"

definition peers :: "manager \<Rightarrow> int \<Rightarrow> manager \<times> peer list" where
  "peers m now =
     (let (ps, out) = peers_loop now (dm_peers m) (dm_peers m) [] in
      (m\<lparr>dm_peers := ps\<rparr>, sort_key key_of out))"

section \<open>Probes\<close>

definition next_probe_interval :: "manager \<Rightarrow> int \<Rightarrow> int" where
  "next_probe_interval m now =
     (let stable = length (filter (\<lambda>(i, p). now - peer_last_seen p \<le> 15 * second) (dm_peers m)) in
      if 0 < stable then 20 * second else 6 * second)"

definition was_probed_recently :: "manager \<Rightarrow> string \<Rightarrow> int \<Rightarrow> int \<Rightarrow> bool" where
  "was_probed_recently m ip now cooldown \<longleftrightarrow>
     (case map_of (dm_last_probe m) ip of None \<Rightarrow> False | Some t \<Rightarrow> now - t < cooldown)"

definition mark_probed :: "manager \<Rightarrow> string \<Rightarrow> int \<Rightarrow> manager" where
  "mark_probed m ip t = m\<lparr>dm_last_probe := AList.update ip t (dm_last_probe m)\<rparr>"

definition probe_peer :: "manager \<Rightarrow> string \<Rightarrow> int \<Rightarrow> peer" where
  "probe_peer m ip now =
     \<lparr>peer_hello = \<lparr>hl_type = ''MULTISEND_PROBE'', hl_node_id = ''probe-'' @ ip, hl_name = ''Node '' @ ip,
        hl_transfer_port = dm_tcp_port m, hl_discovery_port = 0, hl_control_port = dm_control_port m,
        hl_ips = [ip], hl_version = ''probe'', hl_ts = 0\<rparr>,
      peer_addr = ip, peer_last_seen = now\<rparr>"

definition upsert_probe_peer :: "manager \<Rightarrow> string \<Rightarrow> int \<Rightarrow> manager" where
  "upsert_probe_peer m ip now =
     (if has_fresh_real_peer (dm_peers m) now ip then m
      else m\<lparr>dm_peers := AList.update (''probe-'' @ ip) (probe_peer m ip now) (dm_peers m)\<rparr>)"

text \<open>
  \<open>net.ParseIP\<close> on the dotted form, and \<open>candidateIPsFromARP\<close>: the matches of its regular
  expression, line by line, are the argument (an empty list when \<open>arp\<close> fails).
\<close>

definition parse_octet :: "string \<Rightarrow> byte8 option" where
  "parse_octet s =
     (if s \<noteq> [] \<and> length s \<le> 3 \<and> list_all is_digit s \<and> (hd s = CHR ''0'' \<longrightarrow> length s = 1)
      then case parse_int s of
             Inr v \<Rightarrow> if v \<le> 255 then Some (word_of_int v) else None
           | Inl e \<Rightarrow> None
      else None)"

definition parse_ip4 :: "string \<Rightarrow> ip4 option" where
  "parse_ip4 s =
     (case split_on CHR ''.'' s of
        [a, b, c, d] \<Rightarrow>
          (case (parse_octet a, parse_octet b, parse_octet c, parse_octet d) of
             (Some a, Some b, Some c, Some d) \<Rightarrow> Some (IP4 a b c d)
           | _ \<Rightarrow> None)
      | _ \<Rightarrow> None)"

definition arp_candidate :: "ip_net list \<Rightarrow> string \<Rightarrow> bool" where
  "arp_candidate nets ip =
     (case parse_ip4 ip of
        None \<Rightarrow> False
      | Some i \<Rightarrow> \<not> has_prefix ip ''127.'' \<and> \<not> has_prefix ip ''169.254.'' \<and> belongs_to_any_net i nets)"

definition candidate_ips :: "ip_net list \<Rightarrow> string list \<Rightarrow> string list" where
  "candidate_ips nets matches = (if nets = [] then [] else sort (remdups (filter (arp_candidate nets) matches)))"

text \<open>The loop of \<open>runProbeCycle\<close>; \<open>dial\<close> is the TCP connect, \<open>later\<close> the clock when it is back.\<close>

fun probe_loop :: "(string \<Rightarrow> bool) \<Rightarrow> (string \<Rightarrow> int) \<Rightarrow> string list \<Rightarrow> nat \<Rightarrow> int \<Rightarrow> string list \<Rightarrow> nat \<Rightarrow> manager \<Rightarrow> manager" where
  "probe_loop dial later localSet maxHosts now [] checked m = m"
| "probe_loop dial later localSet maxHosts now (ip # ips) checked m =
     (if maxHosts \<le> checked then m
      else if ip \<in> set localSet then probe_loop dial later localSet maxHosts now ips checked m
      else if was_probed_recently m ip now (15 * second)
      then probe_loop dial later localSet maxHosts now ips checked m
      else let m = mark_probed m ip now in
           if dial ip then probe_loop dial later localSet maxHosts now ips (checked + 1)
                             (upsert_probe_peer m ip (later ip))
           else probe_loop dial later localSet maxHosts now ips (checked + 1) m)"

definition run_probe_cycle ::
  "(string \<Rightarrow> bool) \<Rightarrow> (string \<Rightarrow> int) \<Rightarrow> iface list option \<Rightarrow> string list \<Rightarrow> string list \<Rightarrow> int \<Rightarrow> manager \<Rightarrow> manager" where
  "run_probe_cycle dial later ifs matches ips now m =
     (let candidates = candidate_ips (local_ipv4_nets ifs) matches in
      if candidates = [] then m
      else probe_loop dial later ips (min 20 (length candidates)) now candidates 0 m)"

section \<open>Lemmas on the listing\<close>

definition expired :: "int \<Rightarrow> peer \<Rightarrow> bool" where
  "expired now p \<longleftrightarrow> peer_ttl < now - peer_last_seen p"

definition listed :: "(string \<times> peer) list \<Rightarrow> int \<Rightarrow> string \<times> peer \<Rightarrow> bool" where
  "listed ps now e \<longleftrightarrow> \<not> expired now (snd e) \<and>
     \<not> (has_prefix (fst e) ''probe-'' \<and> has_fresh_real_peer ps now (peer_addr (snd e)))"

lemma has_fresh_iff:
  "has_fresh_real_peer ps now a \<longleftrightarrow>
   (\<exists>(i, p)\<in>set ps. \<not> has_prefix i ''probe-'' \<and> peer_addr p = a \<and> \<not> expired now p)"
  by (auto simp: has_fresh_real_peer_def list_ex_iff expired_def)

lemma has_fresh_delete_expired:
  "distinct (map fst ps0) \<Longrightarrow> (i, p) \<in> set ps0 \<Longrightarrow> expired now p \<Longrightarrow> set ps \<subseteq> set ps0 \<Longrightarrow>
   has_fresh_real_peer (AList.delete i ps) now a = has_fresh_real_peer ps now a"
  unfolding has_fresh_iff AList.delete_eq by (auto dest: eq_key_imp_eq_value)

lemma peers_loop_correct:
  assumes "distinct (map fst ps0)"
  shows "set todo \<subseteq> set ps0 \<Longrightarrow> set ps \<subseteq> set ps0 \<Longrightarrow>
     (\<And>a. has_fresh_real_peer ps now a = has_fresh_real_peer ps0 now a) \<Longrightarrow>
     peers_loop now todo ps out =
       (filter (\<lambda>e. \<forall>e'\<in>set todo. expired now (snd e') \<longrightarrow> fst e' \<noteq> fst e) ps,
        out @ map snd (filter (listed ps0 now) todo))"
proof (induction todo arbitrary: ps out)
  case (Cons e todo)
  obtain i p where e: "e = (i, p)" by force
  show ?case
  proof (cases "expired now p")
    case True
    have "set (AList.delete i ps) \<subseteq> set ps0" using Cons.prems(2) by (auto simp: AList.delete_eq)
    moreover have "has_fresh_real_peer (AList.delete i ps) now a = has_fresh_real_peer ps0 now a" for a
      using has_fresh_delete_expired [OF assms _ True Cons.prems(2)] Cons.prems(1,3) e by simp
    ultimately have "peers_loop now todo (AList.delete i ps) out =
        (filter (\<lambda>e. \<forall>e'\<in>set todo. expired now (snd e') \<longrightarrow> fst e' \<noteq> fst e) (AList.delete i ps),
         out @ map snd (filter (listed ps0 now) todo))"
      using Cons.IH Cons.prems(1) by auto
    with True e show ?thesis
      by (auto simp: expired_def listed_def [of ps0 now "(i, p)"] AList.delete_eq filter_filter split_def
          intro: filter_cong)
  next
    case False
    then have "peers_loop now (e # todo) ps out =
        (if has_prefix i ''probe-'' \<and> has_fresh_real_peer ps0 now (peer_addr p)
         then peers_loop now todo ps out else peers_loop now todo ps (out @ [p]))"
      using Cons.prems(3) by (auto simp: e expired_def)
    with False e Cons.IH [of ps] Cons.prems show ?thesis by (auto simp: listed_def)
  qed
qed simp

lemma peers_eq:
  assumes "distinct (map fst (dm_peers m))"
  shows "peers m now = (m\<lparr>dm_peers := filter (\<lambda>e. \<not> expired now (snd e)) (dm_peers m)\<rparr>,
     sort_key key_of (map snd (filter (listed (dm_peers m) now) (dm_peers m))))"
proof -
  let ?ps = "dm_peers m"
  have "filter (\<lambda>e. \<forall>e'\<in>set ?ps. expired now (snd e') \<longrightarrow> fst e' \<noteq> fst e) ?ps
      = filter (\<lambda>e. \<not> expired now (snd e)) ?ps"
    using assms by (intro filter_cong) (auto dest: eq_key_imp_eq_value)
  then show ?thesis using peers_loop_correct [OF assms, of ?ps ?ps now "[]"] by (simp add: peers_def)
qed

section \<open>The invariant of the manager\<close>

definition peer_entry_ok :: "string \<Rightarrow> string \<times> peer \<Rightarrow> bool" where
  "peer_entry_ok self e \<longleftrightarrow>
     hl_node_id (peer_hello (snd e)) = fst e \<and> fst e \<noteq> '''' \<and>
     (hl_type (peer_hello (snd e)) = ''MULTISEND_HELLO'' \<and> fst e \<noteq> self \<and>
        is_valid_port (hl_transfer_port (peer_hello (snd e))) \<or>
      hl_type (peer_hello (snd e)) = ''MULTISEND_PROBE'' \<and> fst e = ''probe-'' @ peer_addr (snd e))"

definition manager_ok :: "manager \<Rightarrow> bool" where
  "manager_ok m \<longleftrightarrow> distinct (map fst (dm_peers m)) \<and> distinct (map fst (dm_last_probe m)) \<and>
     list_all (peer_entry_ok (dm_node_id m)) (dm_peers m)"

lemma update_list_all:
  "list_all P xs \<Longrightarrow> P (k, v) \<Longrightarrow> list_all P (AList.update k v xs)"
  by (induction xs) auto

lemma handle_packet_node [simp]: "dm_node_id (handle_packet u m pkt a now) = dm_node_id m"
  by (auto simp: handle_packet_def split: option.splits)

lemma handle_packet_ok: "manager_ok m \<Longrightarrow> manager_ok (handle_packet u m pkt a now)"
  by (auto simp: handle_packet_def manager_ok_def peer_entry_ok_def distinct_update
      intro!: update_list_all split: option.splits)

lemma mark_probed_ok: "manager_ok m \<Longrightarrow> manager_ok (mark_probed m ip now)"
  by (simp add: manager_ok_def mark_probed_def distinct_update)

lemma upsert_probe_peer_ok: "manager_ok m \<Longrightarrow> manager_ok (upsert_probe_peer m ip now)"
  by (auto simp: manager_ok_def upsert_probe_peer_def probe_peer_def peer_entry_ok_def distinct_update
      intro!: update_list_all)

lemma peers_ok: "manager_ok m \<Longrightarrow> manager_ok (fst (peers m now))"
  by (auto simp: peers_eq manager_ok_def list_all_iff distinct_map_filter)

lemma probe_loop_ok: "manager_ok m \<Longrightarrow> manager_ok (probe_loop d l loc mx now ips n m)"
  by (induction d l loc mx now ips n m rule: probe_loop.induct)
    (simp_all add: Let_def mark_probed_ok upsert_probe_peer_ok)

text \<open>The manager's life: packets, listings and probe cycles in any order.\<close>

inductive discovery_run :: "manager \<Rightarrow> manager \<Rightarrow> bool" where
  Boot: "discovery_run m m"
| Packet: "discovery_run m0 m \<Longrightarrow> discovery_run m0 (handle_packet unmarshal m packet addr now)"
| Listing: "discovery_run m0 m \<Longrightarrow> discovery_run m0 (fst (peers m now))"
| Cycle: "discovery_run m0 m \<Longrightarrow> discovery_run m0 (run_probe_cycle dial later ifs matches ips now m)"

lemma probe_loop_node: "dm_node_id (probe_loop d l loc mx now ips n m) = dm_node_id m"
  by (induction d l loc mx now ips n m rule: probe_loop.induct)
    (simp_all add: Let_def mark_probed_def upsert_probe_peer_def)

lemma discovery_run_invariant:
  "discovery_run m0 m \<Longrightarrow> manager_ok m0 \<Longrightarrow> manager_ok m \<and> dm_node_id m = dm_node_id m0"
proof (induction rule: discovery_run.induct)
  case (Listing m0 m now)
  then show ?case using peers_ok by (auto simp: peers_def split: prod.splits)
qed (auto simp: handle_packet_ok run_probe_cycle_def Let_def probe_loop_ok probe_loop_node)

lemma new_manager_ok: "manager_ok (new_manager n nm v t u c s e)"
  by (simp add: new_manager_def manager_ok_def Let_def split_def)

lemma key_of_inj: "list_all (peer_entry_ok self) ps \<Longrightarrow> distinct (map fst ps) \<Longrightarrow>
   inj_on key_of (snd ` set ps)"
proof (rule inj_onI)
  fix p q
  assume ok: "list_all (peer_entry_ok self) ps" and d: "distinct (map fst ps)"
    and pq: "p \<in> snd ` set ps" "q \<in> snd ` set ps" "key_of p = key_of q"
  then obtain i j where ij: "(i, p) \<in> set ps" "(j, q) \<in> set ps" by auto
  then have "i = hl_node_id (peer_hello p)" "j = hl_node_id (peer_hello q)"
    using ok by (auto simp: list_all_iff peer_entry_ok_def)
  with pq(3) have "i = j" by (simp add: key_of_def)
  with ij d show "p = q" by (auto dest: eq_key_imp_eq_value)
qed

lemma listed_peer:
  assumes "list_all (peer_entry_ok self) ps" and "p \<in> set (map snd (filter (listed ps now) ps))"
  shows "now - peer_last_seen p \<le> peer_ttl \<and>
    (hl_type (peer_hello p) = ''MULTISEND_HELLO'' \<longrightarrow>
       hl_node_id (peer_hello p) \<noteq> self \<and> is_valid_port (hl_transfer_port (peer_hello p)))"
  using assms by (auto simp: list_all_iff peer_entry_ok_def listed_def expired_def)

lemma listed_probe:
  assumes ok: "list_all (peer_entry_ok self) ps" and p: "p \<in> set (map snd (filter (listed ps now) ps))"
    and probe: "hl_type (peer_hello p) = ''MULTISEND_PROBE''"
  shows "\<forall>q\<in>set (map snd (filter (listed ps now) ps)).
    \<not> has_prefix (hl_node_id (peer_hello q)) ''probe-'' \<longrightarrow> peer_addr q \<noteq> peer_addr p"
proof (intro ballI impI notI)
  fix q
  assume q: "q \<in> set (map snd (filter (listed ps now) ps))"
    "\<not> has_prefix (hl_node_id (peer_hello q)) ''probe-''" "peer_addr q = peer_addr p"
  obtain i where i: "(i, p) \<in> set ps" "listed ps now (i, p)" using p by auto
  obtain j where j: "(j, q) \<in> set ps" "listed ps now (j, q)" using q(1) by auto
  have "peer_entry_ok self (i, p)" "peer_entry_ok self (j, q)" using ok i(1) j(1) by (auto simp: list_all_iff)
  then have "has_prefix i ''probe-''" "\<not> has_prefix j ''probe-''"
    using probe q(2) by (auto simp: peer_entry_ok_def has_prefix_def)
  moreover have "has_fresh_real_peer ps now (peer_addr p)"
    unfolding has_fresh_iff using j q(3) \<open>\<not> has_prefix j ''probe-''\<close>
    by (intro bexI [of _ "(j, q)"]) (simp_all add: listed_def)
  ultimately show False using i(2) by (simp add: listed_def)
qed

lemma sort_key_same_elements:
  assumes "mset xs = mset ys" and "inj_on f (set ys)"
  shows "sort_key f xs = sort_key f ys"
  using assms mset_eq_setD [OF assms(1)] by (intro sort_key_inj_key_eq) simp_all

text \<open>
  C37: every state the discovery reaches, whatever packets arrive and whatever the probes find, lists
  peers the same way: the listing does not depend on the order in which Go iterates over the map, it
  is sorted by name and id, never names this node from a packet, holds only peers seen in the last
  45 seconds with valid ports, each id at most once, and no probe entry beside a live peer at the
  same address.
\<close>

theorem peers_listing:
  assumes "discovery_run (new_manager self nm v t u c s e) m"
    and "mset entries = mset (dm_peers m)"
  shows "let l = snd (peers m now) in
     snd (peers (m\<lparr>dm_peers := entries\<rparr>) now) = l \<and>
     sorted (map key_of l) \<and> distinct (map (\<lambda>p. hl_node_id (peer_hello p)) l) \<and>
     (\<forall>p\<in>set l. now - peer_last_seen p \<le> peer_ttl \<and>
        (hl_type (peer_hello p) = ''MULTISEND_HELLO'' \<longrightarrow>
           hl_node_id (peer_hello p) \<noteq> self \<and> is_valid_port (hl_transfer_port (peer_hello p))) \<and>
        (hl_type (peer_hello p) = ''MULTISEND_PROBE'' \<longrightarrow>
           (\<forall>q\<in>set l. \<not> has_prefix (hl_node_id (peer_hello q)) ''probe-'' \<longrightarrow> peer_addr q \<noteq> peer_addr p)))"
proof -
  let ?ps = "dm_peers m"
  let ?l = "map snd (filter (listed ?ps now) ?ps)"
  let ?e = "map snd (filter (listed entries now) entries)"
  have ok: "distinct (map fst ?ps)" "list_all (peer_entry_ok self) ?ps"
    using discovery_run_invariant [OF assms(1) new_manager_ok]
    by (auto simp: manager_ok_def new_manager_def Let_def split_def)
  have l: "snd (peers m now) = sort_key key_of ?l" by (simp add: peers_eq [OF ok(1)])
  have s: "set entries = set ?ps" using assms(2) by (rule mset_eq_setD)
  have d: "distinct (map fst entries)"
    using assms(2) ok(1) by (metis mset_map mset_eq_imp_distinct_iff)
  have "listed entries now = listed ?ps now"
    by (auto simp: fun_eq_iff listed_def has_fresh_iff s)
  then have "mset ?e = mset ?l" using assms(2) by simp
  moreover have i: "inj_on key_of (set ?l)"
    by (rule inj_on_subset [OF key_of_inj [OF ok(2,1)]]) auto
  ultimately have "sort_key key_of ?e = sort_key key_of ?l"
    by (rule sort_key_same_elements)
  moreover have "snd (peers (m\<lparr>dm_peers := entries\<rparr>) now) = sort_key key_of ?e"
    using d by (simp add: peers_eq)
  moreover have "distinct (map (\<lambda>p. hl_node_id (peer_hello p)) (sort_key key_of ?l))"
  proof -
    have "map (\<lambda>p. hl_node_id (peer_hello p)) ?l = map fst (filter (listed ?ps now) ?ps)"
      using ok(2) by (auto simp: list_all_iff peer_entry_ok_def)
    then have "distinct (map (\<lambda>p. hl_node_id (peer_hello p)) ?l)"
      using ok(1) by (simp only: distinct_map_filter)
    then show ?thesis by (metis mset_map mset_sort mset_eq_imp_distinct_iff)
  qed
  moreover have "\<forall>p\<in>set ?l. now - peer_last_seen p \<le> peer_ttl \<and>
        (hl_type (peer_hello p) = ''MULTISEND_HELLO'' \<longrightarrow>
           hl_node_id (peer_hello p) \<noteq> self \<and> is_valid_port (hl_transfer_port (peer_hello p))) \<and>
        (hl_type (peer_hello p) = ''MULTISEND_PROBE'' \<longrightarrow>
           (\<forall>q\<in>set ?l. \<not> has_prefix (hl_node_id (peer_hello q)) ''probe-'' \<longrightarrow> peer_addr q \<noteq> peer_addr p))"
    using listed_peer [OF ok(2)] listed_probe [OF ok(2)] by simp
  ultimately show ?thesis by (simp add: l Let_def)
qed

definition demo_hello :: "string \<Rightarrow> hello" where
  "demo_hello i = \<lparr>hl_type = ''MULTISEND_HELLO'', hl_node_id = i, hl_name = ''n'', hl_transfer_port = 80,
     hl_discovery_port = 0, hl_control_port = 0, hl_ips = [], hl_version = '''', hl_ts = 0\<rparr>"

definition demo_manager :: manager where
  "demo_manager = handle_packet (\<lambda>b. Some (demo_hello b))
     (handle_packet (\<lambda>b. Some (demo_hello b)) (new_manager ''self'' ''n'' '''' 80 81 82 0 0) ''b'' (Some ''1.1.1.1'') 5)
     ''a'' (Some ''1.1.1.2'') 6"

theorem peers_listing_witness:
  "map (\<lambda>p. hl_node_id (peer_hello p)) (snd (peers demo_manager 7)) = [''a'', ''b''] \<and>
   snd (peers (demo_manager\<lparr>dm_peers := rev (dm_peers demo_manager)\<rparr>) 7) = snd (peers demo_manager 7)"
proof -
  have r: "discovery_run (new_manager ''self'' ''n'' '''' 80 81 82 0 0) demo_manager"
    unfolding demo_manager_def by (intro discovery_run.intros)
  have "map (\<lambda>p. hl_node_id (peer_hello p)) (snd (peers demo_manager 7)) = [''a'', ''b'']" by code_simp
  moreover have "mset (rev (dm_peers demo_manager)) = mset (dm_peers demo_manager)" by simp
  note peers_listing [OF r this, of 7]
  ultimately show ?thesis by (simp add: Let_def)
qed

section \<open>Lemmas on the probe cycle\<close>

lemma mark_probed_lookup [simp]:
  "map_of (dm_last_probe (mark_probed m ip now)) = (map_of (dm_last_probe m))(ip \<mapsto> now)"
  by (simp add: mark_probed_def update_conv')

lemma upsert_last_probe [simp]: "dm_last_probe (upsert_probe_peer m ip now) = dm_last_probe m"
  by (simp add: upsert_probe_peer_def)

lemma recent_mark:
  "was_probed_recently (mark_probed m ip now) ip' now cd \<longleftrightarrow>
   (if ip' = ip then 0 < cd else was_probed_recently m ip' now cd)"
  by (simp add: was_probed_recently_def)

lemma recent_upsert [simp]:
  "was_probed_recently (upsert_probe_peer m ip t) ip' now cd = was_probed_recently m ip' now cd"
  by (simp add: was_probed_recently_def)

lemma probe_loop_marks:
  "\<exists>probed. map_of (dm_last_probe (probe_loop dial later loc mx now ips n m)) =
       (\<lambda>ip. if ip \<in> set probed then Some now else map_of (dm_last_probe m) ip) \<and>
     length probed + n \<le> max mx n \<and> set probed \<subseteq> set ips - set loc \<and>
     (\<forall>ip\<in>set probed. \<not> was_probed_recently m ip now (15 * second))"
proof (induction dial later loc mx now ips n m rule: probe_loop.induct)
  case (1 dial later loc mx now n m)
  then show ?case by (intro exI [of _ "[]"]) simp
next
  case (2 dial later loc mx now ip ips n m)
  let ?m = "mark_probed m ip now"
  let ?m' = "if dial ip then upsert_probe_peer ?m ip (later ip) else ?m"
  consider "mx \<le> n" | "n < mx" "ip \<in> set loc \<or> was_probed_recently m ip now (15 * second)"
    | "n < mx" "ip \<notin> set loc" "\<not> was_probed_recently m ip now (15 * second)" by linarith
  then show ?case
  proof cases
    case 1
    then show ?thesis by (intro exI [of _ "[]"]) simp
  next
    case c: 2
    then have "probe_loop dial later loc mx now (ip # ips) n m = probe_loop dial later loc mx now ips n m"
      by auto
    moreover obtain probed where "map_of (dm_last_probe (probe_loop dial later loc mx now ips n m)) =
       (\<lambda>ip. if ip \<in> set probed then Some now else map_of (dm_last_probe m) ip)"
      "length probed + n \<le> max mx n" "set probed \<subseteq> set ips - set loc"
      "\<forall>ip\<in>set probed. \<not> was_probed_recently m ip now (15 * second)"
      using 2(1,2) c by (cases "ip \<in> set loc") auto
    ultimately show ?thesis by (intro exI [of _ probed]) auto
  next
    case c: 3
    then have e: "probe_loop dial later loc mx now (ip # ips) n m =
        probe_loop dial later loc mx now ips (n + 1) ?m'"
      by (simp add: Let_def)
    obtain probed where p: "map_of (dm_last_probe (probe_loop dial later loc mx now ips (n + 1) ?m')) =
       (\<lambda>i. if i \<in> set probed then Some now else map_of (dm_last_probe ?m') i)"
      "length probed + (n + 1) \<le> max mx (n + 1)" "set probed \<subseteq> set ips - set loc"
      "\<forall>i\<in>set probed. \<not> was_probed_recently ?m' i now (15 * second)"
      using 2(3,4) c by (cases "dial ip") auto
    have "\<not> was_probed_recently m i now (15 * second)" if "i \<in> set probed" for i
      using p(4) that by (auto simp: recent_mark split: if_splits)
    with p c show ?thesis unfolding e
      by (intro exI [of _ "ip # probed"]) (auto simp: fun_eq_iff)
  qed
qed


end
