(* ===== verification/Manifest.thy ===== *)
theory Manifest
  imports Chunk
begin

text \<open>
  The resumable transfer manifest, \<open>internal/manifest/manifest.go\<close>: its records, and every
  operation that reads or changes chunk states. Statuses are the strings of the file format.
  A \<open>*time.Time\<close> is an \<open>int option\<close> (nanoseconds), and an operation that calls \<open>time.Now()\<close>
  takes the time as argument \<open>now\<close>. An operation that returns a pointer into the chunk slice is a
  lookup (\<open>get_chunk\<close>) together with an update of the first chunk of that index (\<open>upd_chunk\<close>).
  The interface \<open>geometry_preserving\<close> states what every operation owes to the transfer plan.
\<close>

section \<open>Data\<close>

definition StatusPending :: string where "StatusPending = ''pending''"
definition StatusSending :: string where "StatusSending = ''sending''"
definition StatusDone :: string where "StatusDone = ''done''"
definition StatusFailed :: string where "StatusFailed = ''failed''"
definition StatusCanceled :: string where "StatusCanceled = ''canceled''"

lemma status_distinct [simp, status_simps]:
  "StatusPending \<noteq> StatusSending" "StatusPending \<noteq> StatusDone" "StatusPending \<noteq> StatusFailed"
  "StatusPending \<noteq> StatusCanceled" "StatusSending \<noteq> StatusDone" "StatusSending \<noteq> StatusFailed"
  "StatusSending \<noteq> StatusCanceled" "StatusDone \<noteq> StatusFailed" "StatusDone \<noteq> StatusCanceled"
  "StatusFailed \<noteq> StatusCanceled"
  "StatusSending \<noteq> StatusPending" "StatusDone \<noteq> StatusPending" "StatusFailed \<noteq> StatusPending"
  "StatusCanceled \<noteq> StatusPending" "StatusDone \<noteq> StatusSending" "StatusFailed \<noteq> StatusSending"
  "StatusCanceled \<noteq> StatusSending" "StatusFailed \<noteq> StatusDone" "StatusCanceled \<noteq> StatusDone"
  "StatusCanceled \<noteq> StatusFailed"
  by (simp_all add: StatusPending_def StatusSending_def StatusDone_def StatusFailed_def StatusCanceled_def)

type_synonym gotime = int

record source_info =
  src_type :: string
  src_address :: string
  src_url :: string
  src_identity :: string
  src_abs_path :: string
  src_mod_time :: int64

record target_info =
  tgt_type :: string
  tgt_address :: string
  tgt_path :: string

record chunk_state =
  cs_index :: int64
  cs_offset :: int64
  cs_size :: int64
  cs_status :: string
  cs_attempts :: int
  cs_last_error :: string
  cs_channel :: string
  cs_bytes_done :: int64
  cs_started_at :: "gotime option"
  cs_completed_at :: "gotime option"
  cs_hash :: string

record manifest =
  mf_schema_version :: int
  mf_transfer_id :: string
  mf_type :: string
  mf_file_name :: string
  mf_total_bytes :: int64
  mf_chunk_size :: int64
  mf_created_at :: gotime
  mf_updated_at :: gotime
  mf_source :: source_info
  mf_target :: target_info
  mf_chunks :: "chunk_state list"

text \<open>A chunk literal with only some fields given: Go fills the others with zero values.\<close>

definition zero_chunk :: chunk_state where
  "zero_chunk = \<lparr>cs_index = 0, cs_offset = 0, cs_size = 0, cs_status = '''', cs_attempts = 0,
     cs_last_error = '''', cs_channel = '''', cs_bytes_done = 0, cs_started_at = None,
     cs_completed_at = None, cs_hash = ''''\<rparr>"

definition pending_chunk :: "chunk \<Rightarrow> chunk_state" where
  "pending_chunk c = zero_chunk\<lparr>cs_index := ch_index c, cs_offset := ch_offset c,
     cs_size := ch_size c, cs_status := StatusPending\<rparr>"

section \<open>Operations\<close>

text \<open>\<open>m.chunk(index)\<close> and \<open>m.GetChunk(index)\<close>: the first chunk with that index.\<close>

definition get_chunk :: "manifest \<Rightarrow> int64 \<Rightarrow> chunk_state option" where
  "get_chunk m index = find (\<lambda>c. cs_index c = index) (mf_chunks m)"

definition upd_chunk :: "int64 \<Rightarrow> (chunk_state \<Rightarrow> chunk_state) \<Rightarrow> manifest \<Rightarrow> manifest" where
  "upd_chunk index f m = m\<lparr>mf_chunks := upd_first (\<lambda>c. cs_index c = index) f (mf_chunks m)\<rparr>"

definition map_chunks :: "(chunk_state \<Rightarrow> chunk_state) \<Rightarrow> manifest \<Rightarrow> manifest" where
  "map_chunks f m = m\<lparr>mf_chunks := map f (mf_chunks m)\<rparr>"

definition sending_chunk :: "gotime \<Rightarrow> string \<Rightarrow> chunk_state \<Rightarrow> chunk_state" where
  "sending_chunk now channel c = c\<lparr>cs_status := StatusSending, cs_channel := channel,
     cs_started_at := Some now, cs_completed_at := None, cs_last_error := ''''\<rparr>"

definition mark_and_get_sending ::
    "gotime \<Rightarrow> int64 \<Rightarrow> string \<Rightarrow> manifest \<Rightarrow> chunk_state option \<times> manifest" where
  "mark_and_get_sending now index channel m =
     (map_option (sending_chunk now channel) (get_chunk m index),
      upd_chunk index (sending_chunk now channel) m)"

definition mark_sending :: "gotime \<Rightarrow> int64 \<Rightarrow> string \<Rightarrow> manifest \<Rightarrow> manifest" where
  "mark_sending now index channel m = snd (mark_and_get_sending now index channel m)"

definition done_chunk :: "gotime \<Rightarrow> int64 \<Rightarrow> string \<Rightarrow> chunk_state \<Rightarrow> chunk_state" where
  "done_chunk now bytes hash c = c\<lparr>cs_status := StatusDone, cs_bytes_done := bytes, cs_hash := hash,
     cs_completed_at := Some now,
     cs_started_at := (case cs_started_at c of None \<Rightarrow> Some now | Some t \<Rightarrow> Some t)\<rparr>"

definition mark_done :: "gotime \<Rightarrow> int64 \<Rightarrow> int64 \<Rightarrow> string \<Rightarrow> manifest \<Rightarrow> manifest" where
  "mark_done now index bytes hash m = upd_chunk index (done_chunk now bytes hash) m"

definition failed_chunk :: "string \<Rightarrow> chunk_state \<Rightarrow> chunk_state" where
  "failed_chunk err c = c\<lparr>cs_status := StatusFailed, cs_attempts := cs_attempts c + 1, cs_last_error := err\<rparr>"

definition mark_failed :: "int64 \<Rightarrow> string \<Rightarrow> manifest \<Rightarrow> manifest" where
  "mark_failed index err m = upd_chunk index (failed_chunk err) m"

text \<open>
  \<open>sort.Slice(out, by Index)\<close>. Go's sort is not stable; on the slices that the program sorts the
  indices are distinct, and then every sort gives this list.
\<close>

definition sort_by_index :: "chunk_state list \<Rightarrow> chunk_state list" where
  "sort_by_index cs = sort_key cs_index cs"

definition pending_chunks :: "manifest \<Rightarrow> chunk_state list" where
  "pending_chunks m = sort_by_index
     (filter (\<lambda>c. cs_status c = StatusPending \<or> cs_status c = StatusFailed) (mf_chunks m))"

definition done_bytes :: "manifest \<Rightarrow> int64" where
  "done_bytes m = foldl (\<lambda>acc c. if cs_status c = StatusDone then i64 (acc + cs_bytes_done c) else acc)
     0 (mf_chunks m)"

definition resume_load_chunk :: "int \<Rightarrow> chunk_state \<Rightarrow> chunk_state" where
  "resume_load_chunk maxAttempts c =
     (if cs_status c = StatusSending then c\<lparr>cs_status := StatusPending\<rparr>
      else if cs_status c = StatusFailed then
        (if cs_attempts c < maxAttempts then c\<lparr>cs_status := StatusPending\<rparr> else c)
      else c)"

definition normalize_for_resume :: "int \<Rightarrow> manifest \<Rightarrow> manifest" where
  "normalize_for_resume maxAttempts m = map_chunks (resume_load_chunk maxAttempts) m"

definition has_canceled_chunks :: "manifest \<Rightarrow> bool" where
  "has_canceled_chunks m = list_ex (\<lambda>c. cs_status c = StatusCanceled) (mf_chunks m)"

definition activate_chunk :: "int \<Rightarrow> chunk_state \<Rightarrow> chunk_state" where
  "activate_chunk maxAttempts c =
     (if cs_status c = StatusCanceled \<or> cs_status c = StatusSending \<or> cs_status c = StatusPending
      then c\<lparr>cs_status := StatusPending\<rparr>
      else if cs_status c = StatusFailed then
        c\<lparr>cs_status := StatusPending,
          cs_attempts := (if maxAttempts \<le> cs_attempts c then 0 else cs_attempts c)\<rparr>
      else c)"

definition activate_resume :: "int \<Rightarrow> manifest \<Rightarrow> manifest" where
  "activate_resume maxAttempts m = map_chunks (activate_chunk maxAttempts) m"

definition cancel_chunk :: "chunk_state \<Rightarrow> chunk_state" where
  "cancel_chunk c =
     (if cs_status c = StatusPending \<or> cs_status c = StatusSending
      then c\<lparr>cs_status := StatusCanceled\<rparr> else c)"

definition mark_canceled_pending :: "manifest \<Rightarrow> manifest" where
  "mark_canceled_pending m = map_chunks cancel_chunk m"

text \<open>
  \<open>manifest.Load\<close>: read, parse, normalise with a limit of three attempts. Reading the file and
  parsing its JSON text are the parameter \<open>stored\<close>: the manifest in the file, or an error.
\<close>

definition load_manifest :: "manifest result \<Rightarrow> manifest result" where
  "load_manifest stored = (case stored of Inl e \<Rightarrow> Inl e | Inr m \<Rightarrow> Inr (normalize_for_resume 3 m))"

text \<open>The loops of the callers that ask whether every chunk is done, or count a status.\<close>

definition all_done :: "manifest \<Rightarrow> bool" where
  "all_done m = list_all (\<lambda>c. cs_status c = StatusDone) (mf_chunks m)"

definition count_status :: "string \<Rightarrow> manifest \<Rightarrow> int64" where
  "count_status st m = int (length (filter (\<lambda>c. cs_status c = st) (mf_chunks m)))"

section \<open>The geometry of a manifest\<close>

definition cs_geom :: "chunk_state \<Rightarrow> geom" where
  "cs_geom c = (cs_index c, cs_offset c, cs_size c)"

definition geometry :: "manifest \<Rightarrow> int64 \<times> geom list" where
  "geometry m = (mf_total_bytes m, map cs_geom (mf_chunks m))"

text \<open>A well-formed plan: what \<open>restoreState\<close> checks before it accepts a manifest.\<close>

definition wf_plan :: "manifest \<Rightarrow> bool" where
  "wf_plan m \<longleftrightarrow> tiling 0 0 (mf_total_bytes m) (map cs_geom (mf_chunks m))"

lemma wf_plan_geometry: "geometry m = geometry m' \<Longrightarrow> wf_plan m = wf_plan m'"
  by (simp add: geometry_def wf_plan_def)

lemma wf_plan_distinct: "wf_plan m \<Longrightarrow> distinct (map cs_index (mf_chunks m))"
  using tiling_distinct [of 0 0 "mf_total_bytes m" "map cs_geom (mf_chunks m)"]
  by (simp add: wf_plan_def comp_def cs_geom_def)

locale geometry_preserving =
  fixes f :: "manifest \<Rightarrow> manifest"
  assumes geometry_f: "geometry (f m) = geometry m"
begin

lemma total_f: "mf_total_bytes (f m) = mf_total_bytes m"
  using geometry_f [of m] by (simp add: geometry_def)

lemma wf_plan_f: "wf_plan (f m) \<longleftrightarrow> wf_plan m"
  using geometry_f by (rule wf_plan_geometry)

lemma length_f: "length (mf_chunks (f m)) = length (mf_chunks m)"
  using geometry_f [of m] by (auto simp: geometry_def dest: arg_cong [where f = length])

lemma indices_f: "map cs_index (mf_chunks (f m)) = map cs_index (mf_chunks m)"
proof -
  have "map fst (map cs_geom (mf_chunks (f m))) = map fst (map cs_geom (mf_chunks m))"
    using geometry_f [of m] by (simp add: geometry_def)
  then show ?thesis by (simp add: comp_def cs_geom_def)
qed

lemma geometry_funpow: "geometry ((f ^^ n) m) = geometry m"
  by (induction n) (simp_all add: geometry_f)

end

lemma geometry_upd_chunk: "(\<And>c. cs_geom (g c) = cs_geom c) \<Longrightarrow> geometry (upd_chunk i g m) = geometry m"
  by (simp add: geometry_def upd_chunk_def map_upd_first)

lemma geometry_map_chunks: "(\<And>c. cs_geom (g c) = cs_geom c) \<Longrightarrow> geometry (map_chunks g m) = geometry m"
  by (simp add: geometry_def map_chunks_def comp_def)

lemma cs_geom_ops [simp, geom_simps]:
  "cs_geom (sending_chunk now ch c) = cs_geom c"
  "cs_geom (done_chunk now b h c) = cs_geom c"
  "cs_geom (failed_chunk e c) = cs_geom c"
  "cs_geom (resume_load_chunk k c) = cs_geom c"
  "cs_geom (activate_chunk k c) = cs_geom c"
  "cs_geom (cancel_chunk c) = cs_geom c"
  "cs_geom (c\<lparr>cs_status := st\<rparr>) = cs_geom c"
  by (simp_all add: cs_geom_def sending_chunk_def done_chunk_def failed_chunk_def
      resume_load_chunk_def activate_chunk_def cancel_chunk_def)

interpretation g_sending: geometry_preserving "mark_sending now index channel"
  by unfold_locales (simp add: mark_sending_def mark_and_get_sending_def geometry_upd_chunk)

interpretation g_done: geometry_preserving "mark_done now index b h"
  by unfold_locales (simp add: mark_done_def geometry_upd_chunk)

interpretation g_failed: geometry_preserving "mark_failed index e"
  by unfold_locales (simp add: mark_failed_def geometry_upd_chunk)

interpretation g_normalize: geometry_preserving "normalize_for_resume k"
  by unfold_locales (simp add: normalize_for_resume_def geometry_map_chunks)

interpretation g_activate: geometry_preserving "activate_resume k"
  by unfold_locales (simp add: activate_resume_def geometry_map_chunks)

interpretation g_cancel: geometry_preserving mark_canceled_pending
  by unfold_locales (simp add: mark_canceled_pending_def geometry_map_chunks)

section \<open>Reading and updating chunks\<close>

lemma get_chunk_SomeD: "get_chunk m i = Some c \<Longrightarrow> c \<in> set (mf_chunks m) \<and> cs_index c = i"
  by (auto simp: get_chunk_def dest!: find_SomeD)

lemma get_chunk_upd_chunk:
  "(\<And>c. cs_index (f c) = cs_index c) \<Longrightarrow>
   get_chunk (upd_chunk i f m) j = (if j = i then map_option f (get_chunk m i) else get_chunk m j)"
proof -
  assume f: "\<And>c. cs_index (f c) = cs_index c"
  have "find (\<lambda>c. cs_index c = j) (upd_first (\<lambda>c. cs_index c = i) f cs)
      = (if j = i then map_option f (find (\<lambda>c. cs_index c = i) cs) else find (\<lambda>c. cs_index c = j) cs)" for cs
    by (induction cs) (auto simp: f)
  then show ?thesis by (simp add: get_chunk_def upd_chunk_def)
qed

lemma upd_chunk_id: "get_chunk m i = None \<Longrightarrow> upd_chunk i f m = m"
  by (simp add: get_chunk_def upd_chunk_def find_None_all upd_first_none)

lemma cs_index_ops [simp]:
  "cs_index (sending_chunk now ch c) = cs_index c" "cs_index (done_chunk now b h c) = cs_index c"
  "cs_index (failed_chunk e c) = cs_index c" "cs_index (activate_chunk k c) = cs_index c"
  "cs_index (resume_load_chunk k c) = cs_index c" "cs_index (cancel_chunk c) = cs_index c"
  by (simp_all add: sending_chunk_def done_chunk_def failed_chunk_def activate_chunk_def
      resume_load_chunk_def cancel_chunk_def)

lemma upd_chunk_conv:
  "distinct (map cs_index (mf_chunks m)) \<Longrightarrow>
   mf_chunks (upd_chunk i f m) = map (\<lambda>c. if cs_index c = i then f c else c) (mf_chunks m)"
  by (simp add: upd_chunk_def upd_first_distinct)

lemma sort_by_index_props:
  "mset (sort_by_index cs) = mset cs" "set (sort_by_index cs) = set cs"
  "sorted (map cs_index (sort_by_index cs))" "length (sort_by_index cs) = length cs"
  by (simp_all add: sort_by_index_def)

section \<open>Counting done bytes\<close>

definition chunk_bytes_ok :: "chunk_state \<Rightarrow> bool" where
  "chunk_bytes_ok c \<longleftrightarrow> 0 \<le> cs_bytes_done c \<and> cs_bytes_done c \<le> cs_size c"

definition done_part :: "chunk_state \<Rightarrow> int" where
  "done_part c = (if cs_status c = StatusDone then cs_bytes_done c else 0)"

lemma done_fold:
  "list_all chunk_bytes_ok cs \<Longrightarrow> 0 \<le> acc \<Longrightarrow> acc + sum_list (map cs_size cs) \<le> max_i64 \<Longrightarrow>
   foldl (\<lambda>acc c. if cs_status c = StatusDone then i64 (acc + cs_bytes_done c) else acc) acc cs
     = acc + sum_list (map done_part cs)
   \<and> 0 \<le> sum_list (map done_part cs) \<and> sum_list (map done_part cs) \<le> sum_list (map cs_size cs)"
proof (induction cs arbitrary: acc)
  case (Cons c cs)
  have ok: "0 \<le> cs_bytes_done c" "cs_bytes_done c \<le> cs_size c" "list_all chunk_bytes_ok cs"
    using Cons.prems(1) chunk_bytes_ok_def [of c] by simp_all
  have nn: "0 \<le> sum_list (map cs_size cs)"
    using ok(3) by (induction cs) (auto simp: chunk_bytes_ok_def)
  define acc' where "acc' = acc + done_part c"
  have le: "done_part c \<le> cs_size c" "0 \<le> done_part c" using ok by (simp_all add: done_part_def)
  have "(if cs_status c = StatusDone then i64 (acc + cs_bytes_done c) else acc) = acc'"
    using Cons.prems ok nn by (simp add: acc'_def done_part_def)
  moreover have "0 \<le> acc'" "acc' + sum_list (map cs_size cs) \<le> max_i64"
    using Cons.prems le by (simp_all add: acc'_def)
  ultimately show ?case using Cons.IH [OF ok(3), of acc'] le by (simp add: acc'_def)
qed simp

lemma wf_plan_sizes: "wf_plan m \<Longrightarrow> sum_list (map cs_size (mf_chunks m)) = mf_total_bytes m"
proof -
  assume "wf_plan m"
  moreover have "(\<lambda>(_, _, sz). sz) \<circ> cs_geom = cs_size"
    by (auto simp: cs_geom_def)
  ultimately show ?thesis
    using tiling_sum [of 0 0 "mf_total_bytes m" "map cs_geom (mf_chunks m)"]
    by (simp add: wf_plan_def)
qed

lemma done_bytes_sum:
  assumes "wf_plan m" "list_all chunk_bytes_ok (mf_chunks m)" "mf_total_bytes m \<le> max_i64"
  shows "done_bytes m = sum_list (map done_part (mf_chunks m))"
    and "0 \<le> done_bytes m" and "done_bytes m \<le> mf_total_bytes m"
  using done_fold [of "mf_chunks m" 0] wf_plan_sizes [of m] assms by (auto simp: done_bytes_def)

lemma sum_list_less:
  "list_all (\<lambda>c. f c \<le> (g c :: int)) cs \<Longrightarrow> x \<in> set cs \<Longrightarrow> f x < g x \<Longrightarrow>
   sum_list (map f cs) < sum_list (map g cs)"
proof (induction cs)
  case (Cons c cs)
  have le: "sum_list (map f cs) \<le> sum_list (map g cs)"
    using Cons.prems(1) by (intro sum_list_mono) (auto simp: list_all_iff)
  show ?case
  proof (cases "x = c")
    case True
    with le Cons.prems show ?thesis by simp
  next
    case False
    with Cons show ?thesis by fastforce
  qed
qed simp

lemma tiling_pos: "tiling i off t gs \<Longrightarrow> g \<in> set gs \<Longrightarrow> 0 < snd (snd g)"
  by (induction i off t gs rule: tiling.induct) auto

lemma wf_plan_pos: "wf_plan m \<Longrightarrow> c \<in> set (mf_chunks m) \<Longrightarrow> 0 < cs_size c"
  using tiling_pos [of 0 0 "mf_total_bytes m" "map cs_geom (mf_chunks m)" "cs_geom c"]
  by (auto simp: wf_plan_def cs_geom_def)

text \<open>
  \<open>DoneBytes\<close> of a valid manifest lies between zero and the file size, does not overflow, and
  equals the file size exactly when every chunk is done with all its bytes.
\<close>

theorem done_bytes_complete_iff:
  assumes "wf_plan m" "list_all chunk_bytes_ok (mf_chunks m)" "mf_total_bytes m \<le> max_i64"
  shows "0 \<le> done_bytes m \<and> done_bytes m \<le> mf_total_bytes m \<and>
    (done_bytes m = mf_total_bytes m \<longleftrightarrow>
      all_done m \<and> (\<forall>c\<in>set (mf_chunks m). cs_bytes_done c = cs_size c))"
proof -
  have le: "list_all (\<lambda>c. done_part c \<le> cs_size c) (mf_chunks m)"
    using assms(2) by (auto simp: list_all_iff done_part_def chunk_bytes_ok_def)
  have "done_bytes m = mf_total_bytes m \<longleftrightarrow> (\<forall>c\<in>set (mf_chunks m). done_part c = cs_size c)"
  proof
    assume e: "done_bytes m = mf_total_bytes m"
    show "\<forall>c\<in>set (mf_chunks m). done_part c = cs_size c"
    proof (rule ccontr)
      assume "\<not> ?thesis"
      then obtain x where "x \<in> set (mf_chunks m)" "done_part x < cs_size x"
        using le by (auto simp: list_all_iff less_le)
      from sum_list_less [OF le this] show False
        using e done_bytes_sum(1) [OF assms] wf_plan_sizes [OF assms(1)] by simp
    qed
  next
    assume "\<forall>c\<in>set (mf_chunks m). done_part c = cs_size c"
    then have "map done_part (mf_chunks m) = map cs_size (mf_chunks m)" by simp
    then show "done_bytes m = mf_total_bytes m"
      using done_bytes_sum(1) [OF assms] wf_plan_sizes [OF assms(1)] by argo
  qed
  moreover have "done_part c = cs_size c \<longleftrightarrow> cs_status c = StatusDone \<and> cs_bytes_done c = cs_size c"
    if "c \<in> set (mf_chunks m)" for c
    using wf_plan_pos [OF assms(1) that] by (auto simp: done_part_def)
  then have "(\<forall>c\<in>set (mf_chunks m). done_part c = cs_size c) \<longleftrightarrow>
      all_done m \<and> (\<forall>c\<in>set (mf_chunks m). cs_bytes_done c = cs_size c)"
    by (auto simp: all_done_def list_all_iff)
  ultimately show ?thesis using done_bytes_sum(2,3) [OF assms] by simp
qed

definition demo_manifest :: manifest where
  "demo_manifest = \<lparr>mf_schema_version = 1, mf_transfer_id = ''tx-1'', mf_type = ''p2p'',
     mf_file_name = ''f'', mf_total_bytes = 5, mf_chunk_size = 3, mf_created_at = 0,
     mf_updated_at = 0, mf_source = \<lparr>src_type = '''', src_address = '''', src_url = '''',
       src_identity = '''', src_abs_path = '''', src_mod_time = 0\<rparr>,
     mf_target = \<lparr>tgt_type = '''', tgt_address = '''', tgt_path = ''''\<rparr>,
     mf_chunks = [zero_chunk\<lparr>cs_size := 3, cs_status := ''done'', cs_bytes_done := 3\<rparr>,
       zero_chunk\<lparr>cs_index := 1, cs_offset := 3, cs_size := 2, cs_status := ''done'', cs_bytes_done := 2\<rparr>]\<rparr>"

lemma demo_manifest_ok:
  "wf_plan demo_manifest" "list_all chunk_bytes_ok (mf_chunks demo_manifest)"
  "mf_total_bytes demo_manifest = 5" "done_bytes demo_manifest = 5"
  by code_simp+

theorem done_bytes_complete_iff_witness: "all_done demo_manifest"
  using done_bytes_complete_iff [of demo_manifest] demo_manifest_ok by simp

lemma sum_done_upd:
  "distinct (map cs_index cs) \<Longrightarrow> c \<in> set cs \<Longrightarrow>
   sum_list (map done_part (map (\<lambda>x. if cs_index x = cs_index c then f x else x) cs))
     = sum_list (map done_part cs) - done_part c + done_part (f c)"
proof (induction cs)
  case (Cons a cs)
  show ?case
  proof (cases "cs_index a = cs_index c")
    case True
    have "cs_index x \<noteq> cs_index c" if "x \<in> set cs" for x
      using Cons.prems(1) True that by (metis distinct.simps(2) image_eqI list.set_map list.simps(9))
    then have "map (\<lambda>x. if cs_index x = cs_index c then f x else x) cs = cs" "c \<notin> set cs"
      by (auto intro!: map_idI)
    moreover from this have "a = c" using Cons.prems(2) by simp
    ultimately show ?thesis by simp
  next
    case False
    with Cons show ?thesis by auto
  qed
qed simp

text \<open>
  Marking a chunk done with its full size raises \<open>DoneBytes\<close> by exactly that size if the chunk
  was not done before, and touches no other chunk.
\<close>

theorem mark_done_accounts:
  assumes "wf_plan m" "list_all chunk_bytes_ok (mf_chunks m)" "mf_total_bytes m \<le> max_i64"
    and "get_chunk m i = Some c" "cs_status c \<noteq> StatusDone"
  shows "done_bytes (mark_done now i (cs_size c) h m) = done_bytes m + cs_size c
    \<and> (\<forall>j. j \<noteq> i \<longrightarrow> get_chunk (mark_done now i (cs_size c) h m) j = get_chunk m j)"
proof -
  let ?m = "mark_done now i (cs_size c) h m"
  have c: "c \<in> set (mf_chunks m)" "cs_index c = i" using get_chunk_SomeD [OF assms(4)] by auto
  have d: "distinct (map cs_index (mf_chunks m))" using assms(1) by (rule wf_plan_distinct)
  have sz: "0 \<le> cs_size c" using wf_plan_pos [OF assms(1) c(1)] by simp
  have conv: "mf_chunks ?m = map (\<lambda>x. if cs_index x = cs_index c then done_chunk now (cs_size c) h x else x) (mf_chunks m)"
    using d c by (simp add: mark_done_def upd_chunk_conv)
  have only: "x = c" if "x \<in> set (mf_chunks m)" "cs_index x = cs_index c" for x
    using that c d by (meson distinct_map inj_onD)
  have ok: "list_all chunk_bytes_ok (mf_chunks ?m)"
    using assms(2) sz by (auto simp: conv list_all_iff chunk_bytes_ok_def done_chunk_def dest: only)
  have wf: "wf_plan ?m" and tot: "mf_total_bytes ?m = mf_total_bytes m"
    using assms(1) by (simp_all add: g_done.wf_plan_f g_done.total_f)
  have "done_bytes ?m = sum_list (map done_part (mf_chunks ?m))"
    using wf ok tot assms(3) by (intro done_bytes_sum(1)) simp_all
  also have "\<dots> = sum_list (map done_part (mf_chunks m)) - done_part c
      + done_part (done_chunk now (cs_size c) h c)"
    unfolding conv by (rule sum_done_upd [OF d c(1)])
  also have "\<dots> = done_bytes m + cs_size c"
    using done_bytes_sum(1) [OF assms(1-3)] assms(5) by (simp add: done_part_def done_chunk_def)
  finally show ?thesis by (simp add: mark_done_def get_chunk_upd_chunk)
qed

definition demo_half :: manifest where
  "demo_half = upd_chunk 1 (\<lambda>c. c\<lparr>cs_status := ''pending'', cs_bytes_done := 0\<rparr>) demo_manifest"

theorem mark_done_accounts_witness: "done_bytes (mark_done 9 1 2 [] demo_half) = done_bytes demo_half + 2"
proof -
  obtain c where c: "get_chunk demo_half 1 = Some c" "cs_size c = 2" "cs_status c \<noteq> StatusDone"
    by (simp add: demo_half_def demo_manifest_def get_chunk_def upd_chunk_def zero_chunk_def StatusDone_def)
  have "wf_plan demo_half" "list_all chunk_bytes_ok (mf_chunks demo_half)" "mf_total_bytes demo_half = 5"
    by code_simp+
  then show ?thesis
    using mark_done_accounts [of demo_half 1 c 9 "[]"] c by simp
qed

definition valid_status :: "string \<Rightarrow> bool" where
  "valid_status st \<longleftrightarrow> st = StatusPending \<or> st = StatusSending \<or> st = StatusDone
     \<or> st = StatusFailed \<or> st = StatusCanceled"

lemma resume_chunk:
  "cs_status c = StatusDone \<Longrightarrow> activate_chunk k (resume_load_chunk 3 (cancel_chunk c)) = c"
  "valid_status (cs_status c) \<Longrightarrow> cs_status c \<noteq> StatusDone \<Longrightarrow>
   cs_status (activate_chunk k (resume_load_chunk 3 (cancel_chunk c))) = StatusPending"
  by (auto simp: valid_status_def cancel_chunk_def resume_load_chunk_def activate_chunk_def)

text \<open>
  C29: Cancelling and resuming loses no work and leaves no chunk behind: after \<open>MarkCanceledPending\<close>,
  a load of the stored manifest and \<open>ActivateResume\<close>, a done chunk is unchanged and every other
  chunk with a status of the file format is pending again, on the same plan.
\<close>

theorem cancel_load_resume:
  assumes "\<forall>c\<in>set (mf_chunks m). valid_status (cs_status c)"
  shows "\<exists>m'. load_manifest (Inr (mark_canceled_pending m)) = Inr m'
    \<and> geometry (activate_resume k m') = geometry m
    \<and> (\<forall>n<length (mf_chunks m). let c = mf_chunks m ! n; c' = mf_chunks (activate_resume k m') ! n in
         if cs_status c = StatusDone then c' = c else cs_status c' = StatusPending)"
proof -
  let ?m' = "normalize_for_resume 3 (mark_canceled_pending m)"
  have "mf_chunks (activate_resume k ?m')
      = map (\<lambda>c. activate_chunk k (resume_load_chunk 3 (cancel_chunk c))) (mf_chunks m)"
    by (simp add: activate_resume_def normalize_for_resume_def mark_canceled_pending_def map_chunks_def)
  then have "let c = mf_chunks m ! n; c' = mf_chunks (activate_resume k ?m') ! n in
      if cs_status c = StatusDone then c' = c else cs_status c' = StatusPending"
    if "n < length (mf_chunks m)" for n
    using that assms resume_chunk [of "mf_chunks m ! n" k] by (simp add: Let_def)
  moreover have "geometry (activate_resume k ?m') = geometry m"
    by (simp add: g_activate.geometry_f g_normalize.geometry_f g_cancel.geometry_f)
  ultimately show ?thesis by (simp add: load_manifest_def)
qed

theorem cancel_load_resume_witness:
  "\<exists>m'. load_manifest (Inr (mark_canceled_pending demo_half)) = Inr m'
    \<and> geometry (activate_resume 3 m') = geometry demo_half"
proof -
  have "\<forall>c\<in>set (mf_chunks demo_half). valid_status (cs_status c)" by code_simp
  from cancel_load_resume [OF this, of 3] show ?thesis by blast
qed

text \<open>\<open>PendingChunks\<close> lists each pending or failed chunk once, in index order, and nothing else.\<close>

theorem pending_chunks_exact:
  "mset (pending_chunks m) = filter_mset (\<lambda>c. cs_status c = StatusPending \<or> cs_status c = StatusFailed)
     (mset (mf_chunks m)) \<and> sorted (map cs_index (pending_chunks m))"
  by (simp add: pending_chunks_def sort_by_index_props)

end
