(* ===== verification/Paths.thy ===== *)
theory Paths
  imports GoString
begin

text \<open>
  The functions of Go's \<open>path/filepath\<close> that the program uses, as they behave on Windows, the
  program's platform: both slashes separate, the backslash is written, a drive is a letter and a
  colon. Not modelled: UNC volumes, reserved device names, and paths relative to the current
  directory of another drive. On them rest the containment checks of the downloads, of the receiver
  and of remote sends (\<open>isUnder\<close>, \<open>samePath\<close>, \<open>sanitizeFileName\<close>).
\<close>

definition bs :: char where "bs = CHR 0x5C"

definition is_sep :: "char \<Rightarrow> bool" where
  "is_sep c \<longleftrightarrow> c = bs \<or> c = CHR ''/''"

definition is_letter :: "char \<Rightarrow> bool" where
  "is_letter c \<longleftrightarrow> (let n = (of_char (lower_char c) :: nat) in 97 \<le> n \<and> n \<le> 122)"

definition to_backslash :: "string \<Rightarrow> string" where
  "to_backslash p = map (\<lambda>c. if c = CHR ''/'' then bs else c) p"

text \<open>\<open>filepath.VolumeName\<close> and the rest of the path.\<close>

definition volume :: "string \<Rightarrow> string" where
  "volume p = (case p of a # b # r \<Rightarrow> if is_letter a \<and> b = CHR '':'' then [a, b] else '''' | _ \<Rightarrow> '''')"

definition after_volume :: "string \<Rightarrow> string" where
  "after_volume p = drop (length (volume p)) p"

definition rooted :: "string \<Rightarrow> bool" where
  "rooted p \<longleftrightarrow> after_volume p \<noteq> '''' \<and> is_sep (hd (after_volume p))"

definition is_abs :: "string \<Rightarrow> bool" where
  "is_abs p \<longleftrightarrow> volume p \<noteq> '''' \<and> rooted p"

definition components :: "string \<Rightarrow> string list" where
  "components p = filter (\<lambda>c. c \<noteq> '''' \<and> c \<noteq> ''.'') (split_on bs (to_backslash (after_volume p)))"

text \<open>Elimination of \<open>..\<close>: the stack of components, with its reversed prefix as accumulator.\<close>

fun resolve :: "bool \<Rightarrow> string list \<Rightarrow> string list \<Rightarrow> string list" where
  "resolve r acc [] = rev acc"
| "resolve r acc (c # cs) =
     (if c = ''..'' then
        (if acc \<noteq> [] \<and> hd acc \<noteq> ''..'' then resolve r (tl acc) cs
         else if r then resolve r acc cs
         else resolve r (''..'' # acc) cs)
      else resolve r (c # acc) cs)"

text \<open>\<open>filepath.Clean\<close>.\<close>

definition clean_components :: "string \<Rightarrow> string list" where
  "clean_components p = resolve (rooted p) [] (components p)"

definition render :: "string \<Rightarrow> bool \<Rightarrow> string list \<Rightarrow> string" where
  "render vol r cs =
     (let body = (if r then [bs] else '''') @ (if cs = [] then '''' else join_with bs cs) in
      vol @ (if body = '''' then ''.'' else body))"

definition clean :: "string \<Rightarrow> string" where
  "clean p = render (volume p) (rooted p) (clean_components p)"

text \<open>\<open>filepath.Join\<close>, \<open>filepath.Abs\<close> (with the current directory as argument).\<close>

definition join_path :: "string list \<Rightarrow> string" where
  "join_path ps =
     (let qs = filter (\<lambda>p. p \<noteq> '''') ps in if qs = [] then '''' else clean (join_with bs qs))"

definition abs_path :: "string \<Rightarrow> string \<Rightarrow> string" where
  "abs_path cwd p = (if is_abs p then clean p else join_path [cwd, p])"

text \<open>\<open>filepath.Base\<close>, \<open>filepath.Dir\<close>, \<open>filepath.Ext\<close>.\<close>

definition base_name :: "string \<Rightarrow> string" where
  "base_name p =
     (if p = '''' then ''.''
      else let q = after_volume (trim_right_by is_sep p);
               last_comp = rev (takeWhile (\<lambda>c. \<not> is_sep c) (rev q)) in
           if last_comp = '''' then [bs] else last_comp)"

definition dir_name :: "string \<Rightarrow> string" where
  "dir_name p =
     clean (volume p @ rev (dropWhile (\<lambda>c. \<not> is_sep c) (rev (after_volume p))))"

definition ext :: "string \<Rightarrow> string" where
  "ext p =
     (let last_comp = rev (takeWhile (\<lambda>c. \<not> is_sep c) (rev p)) in
      if CHR ''.'' \<in> set last_comp
      then CHR ''.'' # rev (takeWhile (\<lambda>c. c \<noteq> CHR ''.'') (rev last_comp))
      else '''')"

section \<open>Containment\<close>

text \<open>\<open>isUnder\<close> of the downloads and of the receiver.\<close>

definition is_under :: "string \<Rightarrow> string \<Rightarrow> string \<Rightarrow> bool" where
  "is_under cwd path rt \<longleftrightarrow>
     (let lp = to_lower (abs_path cwd path); lr = to_lower (abs_path cwd rt) in
      lp = lr \<or> has_prefix lp (lr @ [bs]))"

definition same_path :: "string \<Rightarrow> string \<Rightarrow> string \<Rightarrow> bool" where
  "same_path cwd a b \<longleftrightarrow> equal_fold (abs_path cwd a) (abs_path cwd b)"

section \<open>Lemmas\<close>

text \<open>A component of a cleaned rooted path.\<close>

definition plain :: "string \<Rightarrow> bool" where
  "plain c \<longleftrightarrow> c \<noteq> '''' \<and> c \<noteq> ''.'' \<and> c \<noteq> ''..'' \<and> list_all (\<lambda>x. \<not> is_sep x) c"

lemma components_no_sep: "c \<in> set (components p) \<Longrightarrow> c \<noteq> '''' \<and> c \<noteq> ''.'' \<and> list_all (\<lambda>x. \<not> is_sep x) c"
proof -
  assume c: "c \<in> set (components p)"
  then have m: "c \<in> set (split_on bs (to_backslash (after_volume p)))" "c \<noteq> ''''" "c \<noteq> ''.''"
    by (auto simp: components_def)
  have "bs \<notin> set c" using m(1) by (rule split_on_sep_free)
  moreover have "set c \<subseteq> set (to_backslash (after_volume p))"
    using m(1) by (rule split_on_subset)
  then have "CHR ''/'' \<notin> set c" by (auto simp: to_backslash_def bs_def)
  ultimately show ?thesis using m by (auto simp: list_all_iff is_sep_def)
qed

lemma resolve_plain:
  "list_all plain acc \<Longrightarrow> list_all (\<lambda>c. c = ''..'' \<or> plain c) cs \<Longrightarrow>
   list_all plain (resolve True acc cs)"
proof (induction True acc cs rule: resolve.induct)
  case (2 acc c cs)
  then show ?case by (cases acc) (auto simp: plain_def)
qed (simp add: list_all_iff)

lemma clean_components_plain: "rooted p \<Longrightarrow> list_all plain (clean_components p)"
  unfolding clean_components_def
  using components_no_sep [of _ p] resolve_plain [of "[]" "components p"]
  by (auto simp: list_all_iff plain_def)

lemma resolve_id: "list_all plain cs \<Longrightarrow> resolve r acc cs = rev acc @ cs"
  by (induction cs arbitrary: acc) (auto simp: plain_def)

lemma plain_not_bs: "plain c \<Longrightarrow> bs \<notin> set c"
  by (auto simp: plain_def list_all_iff is_sep_def)

lemma lower_char_bs [simp]: "lower_char c = bs \<longleftrightarrow> c = bs"
proof
  assume a: "lower_char c = bs"
  then have "(of_char (lower_char c) :: nat) = 92" by (simp add: bs_def)
  then have "of_char c = (92::nat)" by (auto simp: lower_char_def Let_def split: if_splits)
  then have "char_of (of_char c :: nat) = (char_of (92 :: nat) :: char)" by simp
  moreover have "(char_of (92 :: nat) :: char) = CHR 0x5C" by code_simp
  ultimately show "c = bs" by (simp add: bs_def)
next
  show "c = bs \<Longrightarrow> lower_char c = bs" by (simp add: bs_def lower_char_def)
qed

lemma to_lower_join: "to_lower (join_with bs cs) = join_with bs (map to_lower cs)"
  by (induction bs cs rule: join_with.induct) (auto simp: to_lower_def)

lemma to_lower_Cons [simp]: "to_lower (c # s) = lower_char c # to_lower s" by (simp add: to_lower_def)

lemma to_lower_bs [simp]: "lower_char bs = bs" by (simp add: bs_def lower_char_def)

lemma to_lower_set_bs [simp]: "bs \<in> set (to_lower s) \<longleftrightarrow> bs \<in> set s"
  unfolding to_lower_def set_map image_iff by (metis lower_char_bs to_lower_bs)

lemma clean_abs:
  "is_abs p \<Longrightarrow> clean p = volume p @ bs # join_with bs (clean_components p)"
  by (simp add: clean_def render_def is_abs_def Let_def)

lemma volume_length: "is_abs p \<Longrightarrow> length (volume p) = 2"
  by (auto simp: is_abs_def volume_def split: list.splits if_splits)

lemma join_with_prefix:
  assumes "list_all (\<lambda>c. d \<notin> set c) (rc :: string list)" "list_all (\<lambda>c. d \<notin> set c) pc" "pc \<noteq> []" "rc \<noteq> []"
  shows "prefix (join_with d rc @ [d]) (join_with d pc) \<longleftrightarrow> (\<exists>rest. rest \<noteq> [] \<and> pc = rc @ rest)"
proof
  assume "prefix (join_with d rc @ [d]) (join_with d pc)"
  then obtain s where s: "join_with d pc = join_with d rc @ d # s" by (auto simp: prefix_def)
  have "split_on d (join_with d rc @ d # s) = rc @ split_on d s"
    using assms(1,4)
    by (induction d rc rule: join_with.induct) (auto simp: split_on_append_sep)
  moreover have "split_on d (join_with d pc) = pc"
    using assms(2,3) by (intro split_join) (auto simp: list_all_iff)
  ultimately have "pc = rc @ split_on d s" using s by simp
  then show "\<exists>rest. rest \<noteq> [] \<and> pc = rc @ rest" using split_on_nonempty by blast
next
  assume "\<exists>rest. rest \<noteq> [] \<and> pc = rc @ rest"
  then obtain rest where r: "rest \<noteq> []" "pc = rc @ rest" by blast
  have "join_with d (rc @ rest) = join_with d rc @ d # join_with d rest"
    using assms(4) r(1)
    by (induction d rc rule: join_with.induct) (auto simp: neq_Nil_conv)
  with r show "prefix (join_with d rc @ [d]) (join_with d pc)" by (simp add: prefix_def)
qed

lemma join_with_head:
  "list_all (\<lambda>c. d \<notin> set c) (x :: string list) \<Longrightarrow> list_all (\<lambda>c. c \<noteq> []) x \<Longrightarrow> \<not> prefix [d] (join_with d x)"
  by (induction d x rule: join_with.induct) (auto simp: neq_Nil_conv prefix_def)

lemma join_with_inject:
  assumes "list_all (\<lambda>c. d \<notin> set c) (a :: string list)" "list_all (\<lambda>c. d \<notin> set c) b"
    and "list_all (\<lambda>c. c \<noteq> []) a" "list_all (\<lambda>c. c \<noteq> []) b"
  shows "join_with d a = join_with d b \<longleftrightarrow> a = b"
proof
  assume e: "join_with d a = join_with d b"
  have z: "join_with d x = [] \<longleftrightarrow> x = []" if "list_all (\<lambda>c. c \<noteq> []) x" for x :: "string list"
    using that by (induction d x rule: join_with.induct) auto
  show "a = b"
  proof (cases "a = []")
    case True
    then show ?thesis using e z [OF assms(4)] by simp
  next
    case False
    then have "b \<noteq> []" using e z [OF assms(3)] z [OF assms(4)] by auto
    have "split_on d (join_with d a) = a" using False assms(1) by (intro split_join) (auto simp: list_all_iff)
    moreover have "split_on d (join_with d b) = b"
      using \<open>b \<noteq> []\<close> assms(2) by (intro split_join) (auto simp: list_all_iff)
    ultimately show ?thesis using e by metis
  qed
qed simp

lemma is_under_components:
  assumes "is_abs p" and "is_abs r"
  shows "is_under cwd p r \<longleftrightarrow>
     equal_fold (volume p) (volume r) \<and>
     (let pc = map to_lower (clean_components p); rc = map to_lower (clean_components r) in
      pc = rc \<or> rc \<noteq> [] \<and> (\<exists>rest. rest \<noteq> [] \<and> pc = rc @ rest))"
proof -
  let ?p = "map to_lower (clean_components p)" and ?r = "map to_lower (clean_components r)"
  have pl: "list_all plain (clean_components p)" "list_all plain (clean_components r)"
    using assms clean_components_plain by (auto simp: is_abs_def)
  then have d: "list_all (\<lambda>c. bs \<notin> set c) ?p" "list_all (\<lambda>c. bs \<notin> set c) ?r"
    "list_all (\<lambda>c. c \<noteq> []) ?p" "list_all (\<lambda>c. c \<noteq> []) ?r"
    by (auto simp: list_all_iff plain_not_bs plain_def)
  have lp: "to_lower (abs_path cwd p) = to_lower (volume p) @ bs # join_with bs ?p"
    and lr: "to_lower (abs_path cwd r) = to_lower (volume r) @ bs # join_with bs ?r"
    using assms by (simp_all add: abs_path_def clean_abs to_lower_join)
  have len: "length (to_lower (volume p)) = length (to_lower (volume r))"
    using assms by (simp add: volume_length)
  have eq: "to_lower (abs_path cwd p) = to_lower (abs_path cwd r) \<longleftrightarrow>
      equal_fold (volume p) (volume r) \<and> ?p = ?r"
    unfolding lp lr using len join_with_inject [OF d] by (auto simp: equal_fold_def)
  have pre: "prefix (to_lower (abs_path cwd r) @ [bs]) (to_lower (abs_path cwd p)) \<longleftrightarrow>
      equal_fold (volume p) (volume r) \<and> prefix (join_with bs ?r @ [bs]) (join_with bs ?p)"
    unfolding lp lr equal_fold_def using len
    by (auto simp: prefix_def)
  have "prefix (join_with bs ?r @ [bs]) (join_with bs ?p) \<longleftrightarrow>
      ?r \<noteq> [] \<and> (\<exists>rest. rest \<noteq> [] \<and> ?p = ?r @ rest)"
  proof (cases "?p = [] \<or> ?r = []")
    case True
    have "\<not> prefix [bs] (join_with bs ?p)" using d(1,3) by (rule join_with_head)
    with True show ?thesis by (auto simp: prefix_def)
  next
    case False
    then show ?thesis using join_with_prefix [OF d(2,1)] by auto
  qed
  with eq pre show ?thesis unfolding is_under_def has_prefix_def Let_def by blast
qed

text \<open>
  C33: the containment check cannot be escaped. For absolute paths, in whatever spelling (either
  slash, letter case, \<open>.\<close> and \<open>..\<close> components), \<open>isUnder\<close> answers exactly whether the resolved
  components of the path extend those of the root on the same drive. The one exception is the root of
  a drive: only that root itself is then accepted, and every file below it is rejected.
\<close>

theorem is_under_iff:
  assumes "is_abs p" and "is_abs r"
  shows "is_under cwd p r \<longleftrightarrow>
     equal_fold (volume p) (volume r) \<and>
     (let pc = map to_lower (clean_components p); rc = map to_lower (clean_components r) in
      pc = rc \<or> rc \<noteq> [] \<and> (\<exists>rest. rest \<noteq> [] \<and> pc = rc @ rest))"
  by (rule is_under_components [OF assms])

theorem is_under_iff_witness:
  "\<not> is_under '''' (''C:'' @ bs # ''r'' @ bs # ''..'' @ bs # ''x'') (''C:'' @ bs # ''r'')"
proof -
  have a: "is_abs (''C:'' @ bs # ''r'' @ bs # ''..'' @ bs # ''x'')" "is_abs (''C:'' @ bs # ''r'')"
    by code_simp+
  have "map to_lower (clean_components (''C:'' @ bs # ''r'' @ bs # ''..'' @ bs # ''x'')) = [''x'']"
    "map to_lower (clean_components (''C:'' @ bs # ''r'')) = [''r'']"
    by code_simp+
  then show ?thesis using is_under_iff [OF a] by (simp add: Let_def)
qed

section \<open>Joining one plain component\<close>

lemma split_on_append: "split_on d (a @ d # b) = split_on d a @ split_on d b"
proof (induction a)
  case (Cons c a)
  then show ?case by (cases "split_on d a") auto
qed simp

lemma bs_neq [simp]: "bs \<noteq> CHR '':''" "bs \<noteq> CHR ''/''" "\<not> is_letter bs"
  "CHR '':'' \<noteq> bs" "CHR ''/'' \<noteq> bs"
  by code_simp+

lemma volume_append: "volume (s @ bs # n) = volume s"
proof (cases s)
  case Nil
  then show ?thesis by (cases n) (simp_all add: volume_def)
next
  case (Cons a r)
  then show ?thesis by (cases r) (simp_all add: volume_def)
qed

lemma after_volume_append: "after_volume (s @ bs # n) = after_volume s @ bs # n"
proof -
  have "length (volume s) \<le> length s"
    by (auto simp: volume_def split: list.splits)
  then show ?thesis by (simp add: after_volume_def volume_append)
qed

lemma plain_components: "plain n \<Longrightarrow> split_on bs (to_backslash n) = [n]"
proof -
  assume n: "plain n"
  then have "to_backslash n = n"
    unfolding to_backslash_def by (intro map_idI) (auto simp: plain_def list_all_iff is_sep_def)
  with n plain_not_bs show ?thesis by (simp add: split_on_no_sep)
qed

lemma components_append: "plain n \<Longrightarrow> components (s @ bs # n) = components s @ [n]"
  using plain_components [of n]
  by (auto simp: components_def after_volume_append to_backslash_def split_on_append plain_def)

lemma resolve_append_plain: "plain n \<Longrightarrow> resolve r acc (cs @ [n]) = resolve r acc cs @ [n]"
  by (induction r acc cs rule: resolve.induct) (auto simp: plain_def)

lemma join_path_plain:
  assumes "s \<noteq> ''''" and "plain n"
  shows "join_path [s, n] = render (volume s) (rooted (s @ bs # n))
     (resolve (rooted (s @ bs # n)) [] (components s) @ [n])"
  using assms
  by (simp add: join_path_def clean_def clean_components_def components_append resolve_append_plain
      volume_append plain_def)

lemma join_with_snoc: "join_with d (cs @ [n]) = (if cs = [] then n else join_with d cs @ d # n)"
  by (induction d cs rule: join_with.induct) auto

lemma join_path_suffix:
  assumes "s \<noteq> ''''" and "plain n"
  shows "\<exists>front. join_path [s, n] = front @ n \<and> (front \<noteq> '''' \<longrightarrow> last front = bs \<or> last front = CHR '':'')"
  using assms volume_append [of s n]
  by (auto simp: join_path_plain render_def Let_def join_with_snoc plain_def volume_def split: list.splits if_splits)

lemma join_path_inject:
  assumes "s \<noteq> ''''" "plain n" "plain n'" "join_path [s, n] = join_path [s, n']"
  shows "n = n'"
proof -
  have "rooted (s @ bs # n) = rooted (s @ bs # n')"
    by (simp add: rooted_def after_volume_append hd_append)
  then show ?thesis using assms
    by (auto simp: join_path_plain render_def Let_def join_with_snoc plain_def split: if_splits)
qed

lemma set_join_with: "set (join_with d cs) \<subseteq> insert d (\<Union>c\<in>set cs. set c)"
  by (induction d cs rule: join_with.induct) auto

lemma components_of_rooted:
  assumes "after_volume p = bs # join_with bs cs" and "list_all plain cs" and "cs \<noteq> []"
  shows "components p = cs"
proof -
  have id: "to_backslash (bs # join_with bs cs) = bs # join_with bs cs"
  proof -
    have "CHR ''/'' \<notin> set (join_with bs cs)"
    proof
      assume "CHR ''/'' \<in> set (join_with bs cs)"
      then obtain w where w: "w \<in> set cs" "CHR ''/'' \<in> set w"
        using set_join_with [of bs cs] bs_neq(2) by (fastforce simp del: bs_neq)
      then have "plain w" using assms(2) by (simp add: list_all_iff)
      with w(2) show False by (auto simp: plain_def list_all_iff is_sep_def)
    qed
    then show ?thesis unfolding to_backslash_def by (intro map_idI) auto
  qed
  have "\<forall>w\<in>set cs. bs \<notin> set w" using assms(2) plain_not_bs by (auto simp: list_all_iff)
  with assms(3) have "split_on bs (join_with bs cs) = cs" by (rule split_join)
  then have "split_on bs (bs # join_with bs cs) = [] # cs" by simp
  moreover have "filter (\<lambda>c. c \<noteq> '''' \<and> c \<noteq> ''.'') cs = cs"
    using assms(2) by (intro filter_True) (auto simp: list_all_iff plain_def)
  ultimately show ?thesis by (simp add: components_def assms(1) id)
qed

end
