(* ===== verification/FileSys.thy ===== *)
theory FileSys
  imports Manifest Paths
begin

text \<open>
  The file system as the program sees it: the calls of packages \<open>os\<close>, \<open>io\<close> and \<open>path/filepath\<close>,
  over an explicit \<open>world\<close>. Every call consumes one tick of a clock, and the oracle \<open>w_fault\<close> decides
  for each tick whether the call fails; a failed write leaves a prefix of its data, of the length the
  oracle \<open>w_cut\<close> gives. A theorem that quantifies over the world therefore covers every failure at
  every call. Paths are compared exactly; directories other than the one named are not created.
  On this rest the routines that publish a file: \<open>SaveAtomic\<close> of \<open>internal/manifest/manifest.go\<close> and
  \<open>Save\<close> of \<open>internal/config/config.go\<close>.
\<close>

datatype node = File (node_bytes: bytes) | Dir | Symlink

record world =
  w_nodes :: "(string \<times> node) list"
  w_tick :: nat
  w_fault :: "nat \<Rightarrow> bool"
  w_cut :: "nat \<Rightarrow> nat"
  w_random :: "nat \<Rightarrow> nat" \<comment> \<open>the number in the name of a temporary file\<close>

type_synonym 'a io = "world \<Rightarrow> 'a result \<times> world"

definition node_at :: "world \<Rightarrow> string \<Rightarrow> node option" where
  "node_at w p = map_of (w_nodes w) p"

definition tick :: "world \<Rightarrow> world" where
  "tick w = w\<lparr>w_tick := Suc (w_tick w)\<rparr>"

definition faulty :: "world \<Rightarrow> bool" where
  "faulty w = w_fault w (w_tick w)"

definition put_node :: "string \<Rightarrow> node \<Rightarrow> world \<Rightarrow> world" where
  "put_node p n w = w\<lparr>w_nodes := AList.update p n (w_nodes w)\<rparr>"

definition del_node :: "string \<Rightarrow> world \<Rightarrow> world" where
  "del_node p w = w\<lparr>w_nodes := AList.delete p (w_nodes w)\<rparr>"

definition io_return :: "'a \<Rightarrow> 'a io" where
  "io_return x w = (Inr x, w)"

definition io_fail :: "string \<Rightarrow> 'a io" where
  "io_fail e w = (Inl e, w)"

definition io_bind :: "'a io \<Rightarrow> ('a \<Rightarrow> 'b io) \<Rightarrow> 'b io" where
  "io_bind f g w = (case f w of (Inl e, w') \<Rightarrow> (Inl e, w') | (Inr x, w') \<Rightarrow> g x w')"

text \<open>Run, then clean up whatever happened: a deferred call.\<close>

definition io_defer :: "'a io \<Rightarrow> unit io \<Rightarrow> 'a io" where
  "io_defer f cleanup w = (let (r, w') = f w in (r, snd (cleanup w')))"

text \<open>On an error, run the clean-up and keep the error.\<close>

definition io_on_error :: "'a io \<Rightarrow> unit io \<Rightarrow> 'a io" where
  "io_on_error f cleanup w =
     (case f w of (Inl e, w') \<Rightarrow> (Inl e, snd (cleanup w')) | (Inr x, w') \<Rightarrow> (Inr x, w'))"

text \<open>Run and ignore the error: \<open>_ = f()\<close>.\<close>

definition io_ignore :: "'a io \<Rightarrow> unit io" where
  "io_ignore f w = (Inr (), snd (f w))"

text \<open>Run and inspect the error: \<open>if err := f(); ...\<close>.\<close>

definition io_try :: "'a io \<Rightarrow> 'a result io" where
  "io_try f w = (let (r, w') = f w in (Inr r, w'))"

definition io_lift :: "'a result \<Rightarrow> 'a io" where
  "io_lift r w = (r, w)"

section \<open>Calls\<close>

definition fs_lstat :: "string \<Rightarrow> node option io" where
  "fs_lstat p w = (if faulty w then (Inl ''lstat failed'', tick w) else (Inr (node_at w p), tick w))"

definition fs_read :: "string \<Rightarrow> bytes io" where
  "fs_read p w =
     (if faulty w then (Inl ''read failed'', tick w)
      else case node_at w p of
             Some (File b) \<Rightarrow> (Inr b, tick w)
           | None \<Rightarrow> (Inl ''not exist'', tick w)
           | Some _ \<Rightarrow> (Inl ''cannot open'', tick w))"

definition fs_create :: "string \<Rightarrow> unit io" where
  "fs_create p w =
     (if faulty w \<or> node_at w p = Some Dir then (Inl ''create failed'', tick w)
      else (Inr (), put_node p (File '''') (tick w)))"

text \<open>A write through an open descriptor: at the end of the file, with a prefix left by a failure.\<close>

definition fs_append :: "string \<Rightarrow> bytes \<Rightarrow> unit io" where
  "fs_append p data w =
     (case node_at w p of
        Some (File b) \<Rightarrow>
          if faulty w then (Inl ''write failed'', put_node p (File (b @ take (w_cut w (w_tick w)) data)) (tick w))
          else (Inr (), put_node p (File (b @ data)) (tick w))
      | _ \<Rightarrow> (Inl ''write failed'', tick w))"

text \<open>\<open>Sync\<close>, \<open>Close\<close>, \<open>Chmod\<close>: they only succeed or fail.\<close>

definition fs_step :: "unit io" where
  "fs_step w = (if faulty w then (Inl ''sync or close failed'', tick w) else (Inr (), tick w))"

text \<open>The entries of a directory: base name and node of each entry.\<close>

definition entries_of :: "world \<Rightarrow> string \<Rightarrow> (string \<times> node) list" where
  "entries_of w dir =
     map (\<lambda>(p, n). (base_name p, n))
       (filter (\<lambda>(p, n). dir_name p = clean dir \<and> p \<noteq> dir \<and> node_at w p = Some n) (w_nodes w))"

definition fs_remove :: "string \<Rightarrow> unit io" where
  "fs_remove p w =
     (if faulty w then (Inl ''remove failed'', tick w)
      else case node_at w p of
             None \<Rightarrow> (Inl ''not exist'', tick w)
           | Some Dir \<Rightarrow> if entries_of w p \<noteq> [] then (Inl ''not empty'', tick w) else (Inr (), del_node p (tick w))
           | Some _ \<Rightarrow> (Inr (), del_node p (tick w)))"

definition fs_rename :: "string \<Rightarrow> string \<Rightarrow> unit io" where
  "fs_rename a b w =
     (if faulty w \<or> node_at w b = Some Dir then (Inl ''rename failed'', tick w)
      else case node_at w a of
             None \<Rightarrow> (Inl ''not exist'', tick w)
           | Some n \<Rightarrow> (Inr (), put_node b n (del_node a (tick w))))"

definition fs_mkdir_all :: "string \<Rightarrow> unit io" where
  "fs_mkdir_all p w =
     (if faulty w then (Inl ''mkdir failed'', tick w)
      else case node_at w p of
             None \<Rightarrow> (Inr (), put_node p Dir (tick w))
           | Some Dir \<Rightarrow> (Inr (), tick w)
           | Some _ \<Rightarrow> (Inl ''not a directory'', tick w))"

text \<open>\<open>os.CreateTemp(dir, pre*post)\<close>: a new name, or an error.\<close>

definition temp_name :: "string \<Rightarrow> string \<Rightarrow> string \<Rightarrow> nat \<Rightarrow> string" where
  "temp_name dir pre post n =
     (if dir \<noteq> '''' \<and> is_sep (last dir) then dir else dir @ [bs]) @ pre @ itoa (int n) @ post"

definition fs_create_temp :: "string \<Rightarrow> string \<Rightarrow> string \<Rightarrow> string io" where
  "fs_create_temp dir pre post w =
     (let p = temp_name dir pre post (w_random w (w_tick w)) in
      if faulty w \<or> node_at w p \<noteq> None then (Inl ''temp failed'', tick w)
      else (Inr p, put_node p (File '''') (tick w)))"

text \<open>\<open>os.ReadDir\<close>.\<close>

definition fs_read_dir :: "string \<Rightarrow> (string \<times> node) list io" where
  "fs_read_dir dir w =
     (if faulty w \<or> node_at w dir \<noteq> Some Dir then (Inl ''readdir failed'', tick w)
      else (Inr (entries_of w dir), tick w))"

text \<open>
  \<open>filepath.Match\<close> and \<open>filepath.Glob\<close>: a star and a question mark stay inside a component, a bracket
  opens a class of characters (there is no escape on Windows), and a malformed class is an error.
\<close>

fun class_items :: "bool \<Rightarrow> string \<Rightarrow> ((char \<times> char) list \<times> string) option" where
  "class_items first [] = None"
| "class_items first (c # cs) =
     (if c = CHR '']'' \<and> \<not> first then Some ([], cs)
      else if c = CHR ''-'' \<or> c = CHR '']'' then None
      else (case cs of
              d # h # cs' \<Rightarrow>
                if d = CHR ''-'' then
                  (if h = CHR ''-'' \<or> h = CHR '']'' then None
                   else map_option (\<lambda>(items, r). ((c, h) # items, r)) (class_items False cs'))
                else map_option (\<lambda>(items, r). ((c, c) # items, r)) (class_items False cs)
            | _ \<Rightarrow> map_option (\<lambda>(items, r). ((c, c) # items, r)) (class_items False cs)))"

lemma class_items_shorter: "class_items first cs = Some (items, r) \<Longrightarrow> length r < length cs"
proof (induction "length cs" arbitrary: first cs items r rule: less_induct)
  case less
  show ?case
  proof (cases cs)
    case Nil
    then show ?thesis using less.prems by simp
  next
    case c: (Cons c cs')
    show ?thesis
    proof (cases "c = CHR '']'' \<and> \<not> first \<or> c = CHR ''-'' \<or> c = CHR '']''")
      case True
      then show ?thesis using less.prems c by (auto split: if_splits)
    next
      case False
      obtain ds items' where d: "class_items False ds = Some (items', r)" "length ds \<le> length cs'"
      proof (cases "\<exists>h cs''. cs' = CHR ''-'' # h # cs''")
        case True
        then obtain h cs'' where "cs' = CHR ''-'' # h # cs''" by blast
        then show ?thesis using that [of cs''] less.prems False c by (auto split: if_splits)
      next
        case f: False
        then show ?thesis using that [of cs'] less.prems False c by (cases cs'; cases "tl cs'") (auto split: if_splits)
      qed
      then have "length r < length ds" using less.hyps [of ds] c by simp
      then show ?thesis using d(2) c by simp
    qed
  qed
qed

declare class_items.simps(2) [simp del]

definition class_parse :: "string \<Rightarrow> (bool \<times> (char \<times> char) list \<times> string) option" where
  "class_parse ps =
     (if ps \<noteq> '''' \<and> hd ps = CHR ''^'' then map_option (\<lambda>(items, r). (True, items, r)) (class_items True (tl ps))
      else map_option (\<lambda>(items, r). (False, items, r)) (class_items True ps))"

lemma class_parse_shorter: "class_parse ps = Some (neg, items, r) \<Longrightarrow> length r < length ps"
  by (cases ps) (auto simp: class_parse_def split: if_splits dest!: class_items_shorter)

definition in_class :: "(char \<times> char) list \<Rightarrow> char \<Rightarrow> bool" where
  "in_class items c \<longleftrightarrow> list_ex (\<lambda>(lo, hi). (of_char lo :: nat) \<le> of_char c \<and> of_char c \<le> (of_char hi :: nat)) items"

function glob_match :: "string \<Rightarrow> string \<Rightarrow> bool" where
  "glob_match [] s \<longleftrightarrow> s = []"
| "glob_match (p # ps) s \<longleftrightarrow>
     (if p = CHR ''*'' then
        glob_match ps s \<or> (case s of [] \<Rightarrow> False | c # cs \<Rightarrow> \<not> is_sep c \<and> glob_match (p # ps) cs)
      else case s of
        [] \<Rightarrow> False
      | c # cs \<Rightarrow>
          if p = CHR ''?'' then \<not> is_sep c \<and> glob_match ps cs
          else if p = CHR ''['' then
            (case class_parse ps of
               None \<Rightarrow> False
             | Some (neg, items, r) \<Rightarrow> \<not> is_sep c \<and> in_class items c \<noteq> neg \<and> glob_match r cs)
          else p = c \<and> glob_match ps cs)"
  by pat_completeness auto
termination
  by (relation "measure (\<lambda>(p, s). length p + length s)") (auto dest!: class_parse_shorter)

declare glob_match.simps(2) [simp del]

text \<open>Whether the pattern is well-formed, found by a scan for classes.\<close>

function pattern_ok :: "string \<Rightarrow> bool" where
  "pattern_ok [] \<longleftrightarrow> True"
| "pattern_ok (p # ps) \<longleftrightarrow>
     (if p = CHR ''['' then
        (case class_parse ps of None \<Rightarrow> False | Some (neg, items, r) \<Rightarrow> pattern_ok r)
      else pattern_ok ps)"
  by pat_completeness auto
termination
  by (relation "measure length") (auto dest!: class_parse_shorter)

definition fs_glob :: "string \<Rightarrow> string list io" where
  "fs_glob pattern w =
     (if \<not> pattern_ok pattern then (Inl ''syntax error in pattern'', tick w)
      else if faulty w then (Inr [], tick w)
      else (Inr (filter (glob_match pattern) (map fst (w_nodes w))), tick w))"

text \<open>
  \<open>os.Stat\<close>: whether it is a regular file, and its size (that of a directory is system-dependent: zero
  on Windows). Links are not followed: a path that is a link counts as unreadable.
\<close>

definition fs_stat :: "string \<Rightarrow> (bool \<times> int64) io" where
  "fs_stat p w =
     (if faulty w then (Inl ''stat failed'', tick w)
      else case node_at w p of
             None \<Rightarrow> (Inl ''not exist'', tick w)
           | Some (File b) \<Rightarrow> (Inr (True, int (length b)), tick w)
           | Some Dir \<Rightarrow> (Inr (False, 0), tick w)
           | Some Symlink \<Rightarrow> (Inl ''link'', tick w))"

text \<open>\<open>os.OpenFile\<close> with \<open>O_CREATE|O_EXCL\<close>.\<close>

definition fs_create_excl :: "string \<Rightarrow> unit io" where
  "fs_create_excl p w =
     (if faulty w \<or> node_at w p \<noteq> None then (Inl ''create failed'', tick w)
      else (Inr (), put_node p (File '''') (tick w)))"

text \<open>The common \<open>if err := os.Remove(p); err != nil && !os.IsNotExist(err)\<close>.\<close>

definition fs_remove_if_exists :: "string \<Rightarrow> unit io" where
  "fs_remove_if_exists p =
     io_bind (io_try (fs_remove p)) (\<lambda>r.
       case r of Inl e \<Rightarrow> if e = ''not exist'' then io_return () else io_fail e | Inr _ \<Rightarrow> io_return ())"

section \<open>Frame facts\<close>

lemma node_at_tick [simp]: "node_at (tick w) p = node_at w p"
  by (simp add: node_at_def tick_def)

lemma node_at_put [simp]: "node_at (put_node q n w) p = (if p = q then Some n else node_at w p)"
  by (simp add: node_at_def put_node_def update_conv')

lemma node_at_del [simp]: "node_at (del_node q w) p = (if p = q then None else node_at w p)"
  by (simp add: node_at_def del_node_def delete_conv')

text \<open>An operation that changes at most the paths of \<open>ps\<close>.\<close>

definition touches :: "string set \<Rightarrow> 'a io \<Rightarrow> bool" where
  "touches ps f \<longleftrightarrow> (\<forall>w p. p \<notin> ps \<longrightarrow> node_at (snd (f w)) p = node_at w p)"

lemma touches_calls [intro, simp]:
  "touches {} (fs_lstat p)" "touches {} (fs_read p)" "touches {p} (fs_create p)"
  "touches {p} (fs_append p d)" "touches {} fs_step" "touches {p} (fs_remove p)"
  "touches {p, q} (fs_rename p q)" "touches {p} (fs_mkdir_all p)" "touches {} (fs_glob p)"
  "touches {} (fs_read_dir p)" "touches {} (io_return x)" "touches {} (io_fail e)"
  by (auto simp: touches_def fs_lstat_def fs_read_def fs_create_def fs_append_def fs_step_def
      fs_remove_def fs_rename_def fs_mkdir_all_def fs_glob_def fs_read_dir_def io_return_def io_fail_def
      split: option.splits node.splits)

lemma touches_mono: "touches ps f \<Longrightarrow> ps \<subseteq> qs \<Longrightarrow> touches qs f"
  by (auto simp: touches_def)

lemma touches_bind: "touches ps f \<Longrightarrow> (\<And>x. touches ps (g x)) \<Longrightarrow> touches ps (io_bind f g)"
  unfolding touches_def io_bind_def by (auto split: prod.splits sum.splits) (metis snd_conv)+

lemma touches_ignore: "touches ps f \<Longrightarrow> touches ps (io_ignore f)"
  by (simp add: touches_def io_ignore_def)

lemma touches_defer: "touches ps f \<Longrightarrow> touches ps g \<Longrightarrow> touches ps (io_defer f g)"
  unfolding touches_def io_defer_def by (auto simp: Let_def split: prod.splits) (metis snd_conv)+

lemma touches_on_error: "touches ps f \<Longrightarrow> touches ps g \<Longrightarrow> touches ps (io_on_error f g)"
  unfolding touches_def io_on_error_def by (auto split: prod.splits sum.splits) (metis snd_conv)+

lemma touches_more [intro, simp]:
  "touches {} (fs_stat p)" "touches {p} (fs_create_excl p)" "touches {p} (fs_remove_if_exists p)"
  "touches {} (io_lift r)"
  by (auto simp: touches_def fs_stat_def fs_create_excl_def fs_remove_if_exists_def io_lift_def io_bind_def
      io_try_def fs_remove_def io_return_def io_fail_def split: option.splits node.splits prod.splits sum.splits if_splits)

lemma touches_try: "touches ps f \<Longrightarrow> touches ps (io_try f)"
  by (auto simp: touches_def io_try_def Let_def split: prod.splits) (metis snd_conv)

lemma io_try_iff: "io_try f w = (Inr r, w') \<longleftrightarrow> f w = (r, w')" "io_try f w \<noteq> (Inl e, w')"
  by (auto simp: io_try_def Let_def split: prod.splits)

lemmas touches_intros = touches_bind touches_defer touches_ignore touches_on_error touches_try

lemma touchesD: "touches ps f \<Longrightarrow> f w = (r, w') \<Longrightarrow> p \<notin> ps \<Longrightarrow> node_at w' p = node_at w p"
  unfolding touches_def by (metis snd_conv)

lemma io_bind_Inr:
  "io_bind f g w = (Inr y, w'') \<longleftrightarrow> (\<exists>x w'. f w = (Inr x, w') \<and> g x w' = (Inr y, w''))"
  by (auto simp: io_bind_def split: prod.splits sum.splits)

lemma io_bind_Inl:
  "io_bind f g w = (Inl e, w'') \<longleftrightarrow>
   f w = (Inl e, w'') \<or> (\<exists>x w'. f w = (Inr x, w') \<and> g x w' = (Inl e, w''))"
  by (auto simp: io_bind_def split: prod.splits sum.splits)

section \<open>Publishing a file\<close>

text \<open>
  \<open>manifest.SaveAtomic\<close>; \<open>text\<close> is the JSON text of the manifest with its new time stamp (or the
  marshaller's error). \<open>Write\<close>, \<open>Sync\<close> and \<open>Close\<close> all run before the first error is returned.
\<close>

definition write_sync_close :: "string \<Rightarrow> bytes \<Rightarrow> unit io" where
  "write_sync_close tmp b w =
     (let (werr, w) = fs_append tmp b w; (serr, w) = fs_step w; (cerr, w) = fs_step w in
      case werr of
        Inl e \<Rightarrow> (Inl e, w)
      | Inr _ \<Rightarrow> (case serr of Inl e \<Rightarrow> (Inl e, w) | Inr _ \<Rightarrow> (cerr, w)))"

definition save_atomic :: "string \<Rightarrow> (bytes result) option \<Rightarrow> unit io" where
  "save_atomic path m =
     (case m of
        None \<Rightarrow> io_fail ''manifest is nil''
      | Some text \<Rightarrow>
          io_bind (fs_mkdir_all (dir_name path)) (\<lambda>_.
            case text of
              Inl e \<Rightarrow> io_fail e
            | Inr b \<Rightarrow>
                (let tmp = path @ ''.tmp'' in
                 io_bind (fs_create tmp) (\<lambda>_.
                 io_bind (write_sync_close tmp b) (\<lambda>_.
                 fs_rename tmp path)))))"

text \<open>\<open>SaveAtomic\<close> and \<open>Load\<close> on manifests, with the JSON codec as parameters.\<close>

definition save_manifest :: "(manifest \<Rightarrow> bytes result) \<Rightarrow> gotime \<Rightarrow> string \<Rightarrow> manifest \<Rightarrow> unit io" where
  "save_manifest marshal now path m = save_atomic path (Some (marshal (m\<lparr>mf_updated_at := now\<rparr>)))"

definition load_file :: "(bytes \<Rightarrow> manifest result) \<Rightarrow> string \<Rightarrow> manifest io" where
  "load_file unmarshal path = io_bind (fs_read path) (\<lambda>b. io_lift (load_manifest (unmarshal b)))"

text \<open>\<open>config.Save\<close>: a random temporary name, private mode bits, and a deferred removal.\<close>

definition config_save :: "string \<Rightarrow> bytes result \<Rightarrow> unit io" where
  "config_save path text =
     (let dir = dir_name path in
      io_bind (fs_mkdir_all dir) (\<lambda>_.
        case text of
          Inl e \<Rightarrow> io_fail e
        | Inr b \<Rightarrow>
            io_bind (fs_create_temp dir ''.multisend-config-'' ''.tmp'') (\<lambda>tmp.
            io_defer
              (io_bind (io_on_error fs_step fs_step) (\<lambda>_.
               io_bind (io_on_error (fs_append tmp b) fs_step) (\<lambda>_.
               io_bind (io_on_error fs_step fs_step) (\<lambda>_.
               io_bind fs_step (\<lambda>_.
               fs_rename tmp path)))))
              (fs_remove tmp))))"

lemma write_sync_close_spec:
  assumes "write_sync_close tmp b w = (r, w')" and "node_at w tmp = Some (File '''')"
  shows "(\<forall>p. p \<noteq> tmp \<longrightarrow> node_at w' p = node_at w p) \<and>
     (\<exists>k. node_at w' tmp = Some (File (take k b))) \<and> (r = Inr () \<longrightarrow> node_at w' tmp = Some (File b))"
  using assms
  by (auto simp: write_sync_close_def fs_append_def fs_step_def Let_def split: prod.splits sum.splits if_splits
      intro: exI [of _ "length b"])

lemma fs_create_Inr: "fs_create p w = (Inr u, w') \<Longrightarrow>
   node_at w' p = Some (File '''') \<and> (\<forall>q. q \<noteq> p \<longrightarrow> node_at w' q = node_at w q)"
  by (auto simp: fs_create_def split: if_splits)

lemma fs_rename_Inr: "fs_rename a b w = (Inr u, w') \<Longrightarrow>
   node_at w' b = node_at w a \<and> node_at w a \<noteq> None \<and> (a \<noteq> b \<longrightarrow> node_at w' a = None) \<and>
   (\<forall>q. q \<noteq> a \<and> q \<noteq> b \<longrightarrow> node_at w' q = node_at w q)"
  by (auto simp: fs_rename_def split: if_splits option.splits)

lemma fs_rename_Inl: "fs_rename a b w = (Inl e, w') \<Longrightarrow> node_at w' q = node_at w q"
  by (auto simp: fs_rename_def split: if_splits option.splits)

lemma fs_create_temp_Inr: "fs_create_temp d a b w = (Inr p, w') \<Longrightarrow>
   p = temp_name d a b (w_random w (w_tick w)) \<and> node_at w p = None \<and> node_at w' p = Some (File '''') \<and>
   (\<forall>q. q \<noteq> p \<longrightarrow> node_at w' q = node_at w q)"
  by (auto simp: fs_create_temp_def Let_def split: if_splits)

lemma fs_create_temp_Inl: "fs_create_temp d a b w = (Inl e, w') \<Longrightarrow> node_at w' q = node_at w q"
  by (auto simp: fs_create_temp_def Let_def split: if_splits)

lemma fs_mkdir_all_frame: "q \<noteq> p \<Longrightarrow> node_at (snd (fs_mkdir_all p w)) q = node_at w q"
  using touches_calls(8) [of p] by (simp add: touches_def)

lemma save_atomic_spec:
  assumes "save_atomic path (Some (Inr b)) w = (r, w')" and "dir_name path \<noteq> path"
  shows "(case r of Inr _ \<Rightarrow> node_at w' path = Some (File b) | Inl _ \<Rightarrow> node_at w' path = node_at w path) \<and>
     (\<forall>p. p \<notin> {path, path @ ''.tmp'', dir_name path} \<longrightarrow> node_at w' p = node_at w p)"
proof -
  let ?t = "path @ ''.tmp''" and ?d = "dir_name path"
  obtain r1 w1 where 1: "fs_mkdir_all ?d w = (r1, w1)" by force
  have f1: "node_at w1 p = node_at w p" if "p \<noteq> ?d" for p
    using fs_mkdir_all_frame [OF that, of w] 1 by simp
  show ?thesis
  proof (cases r1)
    case (Inl e)
    then show ?thesis using assms f1 1 by (auto simp: save_atomic_def io_bind_def)
  next
    case (Inr u)
    obtain r2 w2 where 2: "fs_create ?t w1 = (r2, w2)" by force
    have f2: "node_at w2 p = node_at w1 p" if "p \<noteq> ?t" for p
      using that 2 by (auto simp: fs_create_def split: if_splits)
    show ?thesis
    proof (cases r2)
      case (Inl e)
      then show ?thesis using assms f1 f2 1 2 Inr by (auto simp: save_atomic_def io_bind_def Let_def)
    next
      case r2: (Inr u2)
      obtain r3 w3 where 3: "write_sync_close ?t b w2 = (r3, w3)" by force
      have t2: "node_at w2 ?t = Some (File '''')" using fs_create_Inr 2 r2 by blast
      note f3 = write_sync_close_spec [OF 3 t2]
      show ?thesis
      proof (cases r3)
        case (Inl e)
        then show ?thesis using assms f1 f2 f3 1 2 3 Inr r2
          by (auto simp: save_atomic_def io_bind_def Let_def)
      next
        case r3: (Inr u3)
        have e: "fs_rename ?t path w3 = (r, w')"
          using assms(1) 1 2 3 Inr r2 r3 by (simp add: save_atomic_def io_bind_def Let_def)
        show ?thesis
        proof (cases r)
          case (Inl e')
          then show ?thesis using fs_rename_Inl e f1 f2 f3 assms(2) by auto
        next
          case (Inr u4)
          then show ?thesis using fs_rename_Inr e f1 f2 f3 r3 by auto
        qed
      qed
    qed
  qed
qed

text \<open>
  C27: saving a manifest is atomic under every failure. Whatever call fails, and wherever a write
  stops, the file at the manifest's path is afterwards either exactly what it was or the complete new
  text, and the new text when the save reports success, and no other file is touched but
  the temporary one beside it and the directory entry.
\<close>

theorem save_atomic_all_or_nothing:
  assumes "save_atomic path (Some (Inr b)) w = (r, w')" and "dir_name path \<noteq> path"
  shows "(case r of Inr _ \<Rightarrow> node_at w' path = Some (File b) | Inl _ \<Rightarrow> node_at w' path = node_at w path) \<and>
     (\<forall>p. p \<notin> {path, path @ ''.tmp'', dir_name path} \<longrightarrow> node_at w' p = node_at w p)"
  using assms by (rule save_atomic_spec)

definition demo_world :: "(nat \<Rightarrow> bool) \<Rightarrow> (string \<times> node) list \<Rightarrow> world" where
  "demo_world fault ns = \<lparr>w_nodes = ns, w_tick = 0, w_fault = fault, w_cut = (\<lambda>n. 1), w_random = (\<lambda>n. n)\<rparr>"

definition demo_path :: string where
  "demo_path = ''C:'' @ bs # ''d'' @ bs # ''m''"

theorem save_atomic_all_or_nothing_witness:
  "node_at (snd (save_atomic demo_path (Some (Inr ''new''))
      (demo_world (\<lambda>n. n = 2) [(demo_path, File ''old'')]))) demo_path = Some (File ''old'') \<and>
   node_at (snd (save_atomic demo_path (Some (Inr ''new''))
      (demo_world (\<lambda>n. False) [(demo_path, File ''old'')]))) demo_path = Some (File ''new'')"
proof -
  let ?run = "\<lambda>f. save_atomic demo_path (Some (Inr ''new'')) (demo_world f [(demo_path, File ''old'')])"
  have d: "dir_name demo_path \<noteq> demo_path" by code_simp
  have old: "node_at (demo_world f [(demo_path, File ''old'')]) demo_path = Some (File ''old'')" for f
    by (simp add: demo_world_def node_at_def)
  have "fst (?run (\<lambda>n. n = 2)) = Inl ''write failed''" "fst (?run (\<lambda>n. False)) = Inr ()"
    by code_simp+
  then show ?thesis
    using save_atomic_all_or_nothing [of demo_path "''new''" "demo_world (\<lambda>n. n = 2) [(demo_path, File ''old'')]",
        OF prod.collapse [symmetric] d]
      save_atomic_all_or_nothing [of demo_path "''new''" "demo_world (\<lambda>n. False) [(demo_path, File ''old'')]",
        OF prod.collapse [symmetric] d]
    by (simp add: old)
qed

section \<open>Concatenating part files\<close>

text \<open>
  The loop that both merges run: open a part, copy it to the end of the output, close it, compare its
  length with the plan. The parts lie apart from the output.
\<close>

fun copy_parts :: "(chunk_state \<Rightarrow> string) \<Rightarrow> string \<Rightarrow> chunk_state list \<Rightarrow> unit io" where
  "copy_parts path_of out [] = io_return ()"
| "copy_parts path_of out (c # cs) =
     io_bind (fs_read (path_of c)) (\<lambda>b.
     io_bind (fs_append out b) (\<lambda>_.
     if int (length b) \<noteq> cs_size c then io_fail ''chunk size mismatch'' else copy_parts path_of out cs))"

definition part_in :: "world \<Rightarrow> (chunk_state \<Rightarrow> string) \<Rightarrow> chunk_state \<Rightarrow> bytes \<Rightarrow> bool" where
  "part_in w path_of c b \<longleftrightarrow> node_at w (path_of c) = Some (File b) \<and> int (length b) = cs_size c"

lemma part_in_cong: "node_at w' (path_of c) = node_at w (path_of c) \<Longrightarrow> part_in w' path_of c b = part_in w path_of c b"
  by (simp add: part_in_def)

lemma fs_read_Inr: "fs_read p w = (Inr b, w') \<Longrightarrow> node_at w p = Some (File b) \<and> w' = tick w"
  by (auto simp: fs_read_def split: if_splits option.splits node.splits)

lemma fs_append_Inr: "fs_append p d w = (Inr u, w') \<Longrightarrow>
   \<exists>b. node_at w p = Some (File b) \<and> node_at w' p = Some (File (b @ d)) \<and>
     (\<forall>q. q \<noteq> p \<longrightarrow> node_at w' q = node_at w q)"
  by (auto simp: fs_append_def split: if_splits option.splits node.splits)

locale part_files =
  fixes path_of :: "chunk_state \<Rightarrow> string" and out :: string
  assumes apart: "path_of c \<noteq> out"
begin

lemma copy_touches: "touches {out} (copy_parts path_of out cs)"
proof (induction cs)
  case Nil
  show ?case by (simp add: touches_def io_return_def)
next
  case (Cons c cs)
  have "touches {out} (fs_read (path_of c))" "touches {out} (io_fail e)" for e
    by (rule touches_mono [of "{}"], simp_all)+
  with Cons show ?case by (auto intro!: touches_bind)
qed

lemma copy_spec:
  "copy_parts path_of out cs w = (Inr u, w') \<Longrightarrow> node_at w out = Some (File acc) \<Longrightarrow>
   \<exists>bs. list_all2 (part_in w path_of) cs bs \<and> node_at w' out = Some (File (acc @ concat bs))"
proof (induction cs arbitrary: w acc)
  case Nil
  then show ?case by (auto simp: io_return_def)
next
  case (Cons c cs)
  obtain b w1 w2 u1 where 1: "fs_read (path_of c) w = (Inr b, w1)" "fs_append out b w1 = (Inr u1, w2)"
    "int (length b) = cs_size c" "copy_parts path_of out cs w2 = (Inr u, w')"
    using Cons.prems(1) by (auto simp: io_bind_Inr io_fail_def split: if_splits)
  have r: "node_at w (path_of c) = Some (File b)" "w1 = tick w" using fs_read_Inr 1(1) by auto
  then have a: "node_at w2 out = Some (File (acc @ b))" "\<forall>q. q \<noteq> out \<longrightarrow> node_at w2 q = node_at w q"
    using fs_append_Inr [OF 1(2)] Cons.prems(2) by auto
  obtain bs where bs: "list_all2 (part_in w2 path_of) cs bs" "node_at w' out = Some (File (acc @ b @ concat bs))"
    using Cons.IH [OF 1(4) a(1)] by auto
  have "part_in w2 path_of = part_in w path_of"
    using a(2) apart by (auto simp: fun_eq_iff intro!: part_in_cong)
  with bs r 1(3) show ?case by (intro exI [of _ "b # bs"]) (simp add: part_in_def [of w path_of c])
qed

end

end
