(* ===== verification/Float64.thy ===== *)
theory Float64
  imports Prelude
begin

text \<open>
  Go's \<open>float64\<close> arithmetic on finite values. A finite double is the rational number it denotes;
  every operation computes the exact rational result and rounds it with \<open>fl\<close> to the nearest
  double, ties to even, as IEEE 754 prescribes: 53 significant bits, least exponent \<open>-1074\<close>.
  Overflow to an infinity and NaN are not modelled: the program divides only by positive numbers
  and its quantities (bytes of a 64-bit counter over at least a nanosecond) stay far below the
  largest double. The lemma that carries the proofs is monotonicity, \<open>fl_mono\<close>.
\<close>

text \<open>Rounding a rational to the nearest integer, ties to even.\<close>

definition rnd_even :: "rat \<Rightarrow> int" where
  "rnd_even x = (let f = \<lfloor>x\<rfloor>; r = x - of_int f in
     if r < 1/2 then f else if 1/2 < r then f + 1 else if even f then f else f + 1)"

lemma rnd_even_of_int [simp]: "rnd_even (of_int n) = n"
  by (simp add: rnd_even_def)

lemma rnd_even_bounds: "\<lfloor>x\<rfloor> \<le> rnd_even x" "rnd_even x \<le> \<lfloor>x\<rfloor> + 1"
  by (simp_all add: rnd_even_def Let_def)

lemma rnd_even_mono: "x \<le> y \<Longrightarrow> rnd_even x \<le> rnd_even y"
proof (cases "\<lfloor>x\<rfloor> = \<lfloor>y\<rfloor>")
  case True
  assume "x \<le> y"
  with True show ?thesis by (auto simp: rnd_even_def Let_def)
next
  case False
  assume "x \<le> y"
  then have "\<lfloor>x\<rfloor> \<le> \<lfloor>y\<rfloor>" by (rule floor_mono)
  with False have "\<lfloor>x\<rfloor> + 1 \<le> \<lfloor>y\<rfloor>" by simp
  then show ?thesis using rnd_even_bounds [of x] rnd_even_bounds [of y] by linarith
qed

text \<open>The binary logarithm, rounded down, of a positive natural and of a positive rational.\<close>

fun ilog2 :: "nat \<Rightarrow> nat" where
  "ilog2 n = (if n \<le> 1 then 0 else Suc (ilog2 (n div 2)))"

declare ilog2.simps [simp del]

lemma ilog2_bounds: "0 < n \<Longrightarrow> 2 ^ ilog2 n \<le> n \<and> n < 2 ^ Suc (ilog2 n)"
proof (induction n rule: ilog2.induct)
  case (1 n)
  show ?case
  proof (cases "n \<le> 1")
    case True
    with 1 show ?thesis by (simp add: ilog2.simps [of n])
  next
    case False
    then have "2 ^ ilog2 (n div 2) \<le> n div 2 \<and> n div 2 < 2 ^ Suc (ilog2 (n div 2))"
      using 1 by auto
    then have "2 * 2 ^ ilog2 (n div 2) \<le> n \<and> n < 2 * 2 ^ Suc (ilog2 (n div 2))" by linarith
    with False show ?thesis by (simp add: ilog2.simps [of n])
  qed
qed

text \<open>Powers of two with an integer exponent, in a form that evaluates.\<close>

definition pow2 :: "int \<Rightarrow> rat" where
  "pow2 e = (if 0 \<le> e then 2 ^ nat e else 1 / 2 ^ nat (- e))"

lemma pow2_powi: "pow2 e = 2 powi e"
  by (simp add: pow2_def power_int_def inverse_eq_divide power_divide)

lemma pow2_pos [simp]: "0 < pow2 e"
  by (simp add: pow2_def)

lemma pow2_neq_0 [simp]: "pow2 e \<noteq> 0"
  by (simp add: pow2_def)

lemma pow2_add: "pow2 (a + b) = pow2 a * pow2 b"
  by (simp add: pow2_powi power_int_add)

lemma pow2_mono: "a \<le> b \<Longrightarrow> pow2 a \<le> pow2 b"
  by (simp add: pow2_powi power_int_increasing)

definition flog2 :: "rat \<Rightarrow> int" where
  "flog2 x = (let (n, d) = quotient_of x; e = int (ilog2 (nat n)) - int (ilog2 (nat d)) in
     if pow2 e \<le> x then e else e - 1)"

lemma flog2_bounds:
  assumes "0 < x"
  shows "pow2 (flog2 x) \<le> x \<and> x < pow2 (flog2 x + 1)"
proof -
  obtain n d where q: "quotient_of x = (n, d)" by fastforce
  then have d: "0 < d" and x: "x = of_int n / of_int d"
    using quotient_of_denom_pos quotient_of_div by blast+
  with assms have n: "0 < n"
    by (metis divide_pos_pos divide_less_0_iff not_less_iff_gr_or_eq of_int_0 of_int_0_less_iff
        of_int_less_0_iff div_0)
  define a b where "a = ilog2 (nat n)" and "b = ilog2 (nat d)"
  have N: "(2::rat) ^ a \<le> of_int n" "of_int n < (2::rat) ^ Suc a"
    using ilog2_bounds [of "nat n"] n unfolding a_def
    by (smt (verit, best) nat_0_le of_int_le_iff of_int_less_iff of_int_numeral of_int_power
        of_nat_le_iff of_nat_less_iff of_nat_numeral of_nat_power zero_less_nat_eq)+
  have D: "(2::rat) ^ b \<le> of_int d" "of_int d < (2::rat) ^ Suc b"
    using ilog2_bounds [of "nat d"] d unfolding b_def
    by (smt (verit, best) nat_0_le of_int_le_iff of_int_less_iff of_int_numeral of_int_power
        of_nat_le_iff of_nat_less_iff of_nat_numeral of_nat_power zero_less_nat_eq)+
  have e: "pow2 (int a - int b) = 2 ^ a / 2 ^ b"
    using pow2_add [of "int a - int b" "int b"] by (simp add: pow2_def field_simps)
  have up: "x < pow2 (int a - int b + 1)"
  proof -
    have "of_int n / of_int d < (2::rat) ^ Suc a / 2 ^ b"
      using N(2) D(1) d n by (intro frac_less) auto
    then show ?thesis by (simp add: x pow2_add e pow2_def [of 1] mult.commute)
  qed
  have lo: "pow2 (int a - int b - 1) \<le> x"
  proof -
    have "(2::rat) ^ a / 2 ^ Suc b \<le> of_int n / of_int d"
      using N(1) D(2) d n by (intro frac_le) auto
    then show ?thesis
      using pow2_add [of "int a - int b" "-1"] by (simp add: x e pow2_def [of "-1"])
  qed
  show ?thesis
    using up lo by (auto simp: flog2_def q Let_def a_def [symmetric] b_def [symmetric])
qed

text \<open>The exponent of the last place of a double near \<open>x\<close>, and rounding to a double.\<close>

definition ulp_exp :: "rat \<Rightarrow> int" where
  "ulp_exp x = max (flog2 x - 52) (-1074)"

definition fl_pos :: "rat \<Rightarrow> rat" where
  "fl_pos x = of_int (rnd_even (x / pow2 (ulp_exp x))) * pow2 (ulp_exp x)"

definition fl :: "rat \<Rightarrow> rat" where
  "fl x = (if x = 0 then 0 else if 0 < x then fl_pos x else - fl_pos (- x))"

text \<open>The operations: conversion of an integer, sum, product and quotient.\<close>

definition fof_int :: "int \<Rightarrow> rat" where "fof_int n = fl (of_int n)"
definition fadd :: "rat \<Rightarrow> rat \<Rightarrow> rat" where "fadd x y = fl (x + y)"
definition fmul :: "rat \<Rightarrow> rat \<Rightarrow> rat" where "fmul x y = fl (x * y)"
definition fdiv :: "rat \<Rightarrow> rat \<Rightarrow> rat" where "fdiv x y = fl (x / y)"


section \<open>Monotonicity and sign\<close>

lemma flog2_mono: "0 < x \<Longrightarrow> x \<le> y \<Longrightarrow> flog2 x \<le> flog2 y"
proof (rule ccontr)
  assume x: "0 < x" "x \<le> y" and "\<not> flog2 x \<le> flog2 y"
  then have "pow2 (flog2 y + 1) \<le> pow2 (flog2 x)" by (intro pow2_mono) simp
  then show False using flog2_bounds [of x] flog2_bounds [of y] x by linarith
qed

lemma ulp_exp_mono: "0 < x \<Longrightarrow> x \<le> y \<Longrightarrow> ulp_exp x \<le> ulp_exp y"
  using flog2_mono [of x y] by (simp add: ulp_exp_def)

lemma fl_pos_nonneg: "0 \<le> x \<Longrightarrow> 0 \<le> fl_pos x"
proof -
  assume "0 \<le> x"
  then have "rnd_even 0 \<le> rnd_even (x / pow2 (ulp_exp x))"
    by (intro rnd_even_mono) (simp add: less_imp_le)
  then have "0 \<le> rnd_even (x / pow2 (ulp_exp x))"
    using rnd_even_of_int [of 0] by simp
  then show ?thesis by (simp add: fl_pos_def less_imp_le)
qed

lemma fl_pos_upper: "0 < x \<Longrightarrow> fl_pos x \<le> pow2 (ulp_exp x + 53)"
proof -
  assume x: "0 < x"
  have "x \<le> pow2 (flog2 x + 1)" using flog2_bounds [OF x] by simp
  also have "\<dots> \<le> pow2 (53 + ulp_exp x)" by (intro pow2_mono) (simp add: ulp_exp_def)
  finally have "x / pow2 (ulp_exp x) \<le> of_int (2 ^ 53)"
    by (simp add: pow2_add divide_le_eq pow2_def [of 53])
  then have "rnd_even (x / pow2 (ulp_exp x)) \<le> rnd_even (of_int (2 ^ 53))" by (rule rnd_even_mono)
  then have "of_int (rnd_even (x / pow2 (ulp_exp x))) \<le> (of_int (2 ^ 53) :: rat)"
    unfolding rnd_even_of_int of_int_le_iff .
  then have "fl_pos x \<le> of_int (2 ^ 53) * pow2 (ulp_exp x)"
    unfolding fl_pos_def by (rule mult_right_mono) (simp add: less_imp_le)
  then show ?thesis by (simp add: pow2_add [of _ 53] pow2_def [of 53] mult.commute)
qed

lemma fl_pos_lower: "0 < x \<Longrightarrow> ulp_exp x = flog2 x - 52 \<Longrightarrow> pow2 (ulp_exp x + 52) \<le> fl_pos x"
proof -
  assume x: "0 < x" and u: "ulp_exp x = flog2 x - 52"
  have "pow2 (52 + ulp_exp x) \<le> x" using flog2_bounds [OF x] by (simp add: u)
  then have "of_int (2 ^ 52) \<le> x / pow2 (ulp_exp x)"
    by (simp add: pow2_add le_divide_eq pow2_def [of 52])
  then have "rnd_even (of_int (2 ^ 52)) \<le> rnd_even (x / pow2 (ulp_exp x))" by (rule rnd_even_mono)
  then have "(of_int (2 ^ 52) :: rat) \<le> of_int (rnd_even (x / pow2 (ulp_exp x)))"
    unfolding rnd_even_of_int of_int_le_iff .
  then have "of_int (2 ^ 52) * pow2 (ulp_exp x) \<le> fl_pos x"
    unfolding fl_pos_def by (rule mult_right_mono) (simp add: less_imp_le)
  then show ?thesis by (simp add: pow2_add [of _ 52] pow2_def [of 52] mult.commute)
qed

lemma fl_pos_mono: "0 < x \<Longrightarrow> x \<le> y \<Longrightarrow> fl_pos x \<le> fl_pos y"
proof -
  assume x: "0 < x" and xy: "x \<le> y"
  show ?thesis
  proof (cases "ulp_exp x = ulp_exp y")
    case True
    have "rnd_even (x / pow2 (ulp_exp y)) \<le> rnd_even (y / pow2 (ulp_exp y))"
      using xy by (intro rnd_even_mono divide_right_mono) (simp_all add: less_imp_le)
    then show ?thesis
      unfolding fl_pos_def True by (intro mult_right_mono) (simp_all add: less_imp_le)
  next
    case False
    then have lt: "ulp_exp x < ulp_exp y" using ulp_exp_mono [OF x xy] by simp
    then have "ulp_exp y = flog2 y - 52" by (auto simp: ulp_exp_def max_def split: if_splits)
    then have "pow2 (ulp_exp y + 52) \<le> fl_pos y" using x xy by (intro fl_pos_lower) auto
    moreover have "pow2 (ulp_exp x + 53) \<le> pow2 (ulp_exp y + 52)" using lt by (intro pow2_mono) simp
    ultimately show ?thesis using fl_pos_upper [OF x] by linarith
  qed
qed

lemma fl_nonneg: "0 \<le> x \<Longrightarrow> 0 \<le> fl x"
  by (simp add: fl_def fl_pos_nonneg)

lemma fl_zero [simp]: "fl 0 = 0"
  by (simp add: fl_def)

lemma fl_nonpos: "x \<le> 0 \<Longrightarrow> fl x \<le> 0"
  by (simp add: fl_def fl_pos_nonneg)

theorem fl_mono: "x \<le> y \<Longrightarrow> fl x \<le> fl y"
proof -
  assume xy: "x \<le> y"
  consider "0 < x" | "x \<le> 0" "0 \<le> y" | "y < 0" by linarith
  then show ?thesis
  proof cases
    case 1
    with xy fl_pos_mono [of x y] show ?thesis by (simp add: fl_def)
  next
    case 2
    then show ?thesis using fl_nonpos [of x] fl_nonneg [of y] by linarith
  next
    case 3
    with xy fl_pos_mono [of "- y" "- x"] show ?thesis by (simp add: fl_def)
  qed
qed

lemma fdiv_nonneg: "0 \<le> x \<Longrightarrow> 0 \<le> y \<Longrightarrow> 0 \<le> fdiv x y"
  by (simp add: fdiv_def fl_nonneg)

lemma fmul_nonneg: "0 \<le> x \<Longrightarrow> 0 \<le> y \<Longrightarrow> 0 \<le> fmul x y"
  by (simp add: fmul_def fl_nonneg)

lemma fadd_nonneg: "0 \<le> x \<Longrightarrow> 0 \<le> y \<Longrightarrow> 0 \<le> fadd x y"
  by (simp add: fadd_def fl_nonneg)

lemma fmul_mono_left: "x \<le> y \<Longrightarrow> 0 \<le> c \<Longrightarrow> fmul x c \<le> fmul y c"
  by (simp add: fmul_def fl_mono mult_right_mono)

lemma fdiv_mono_left: "x \<le> y \<Longrightarrow> 0 \<le> c \<Longrightarrow> fdiv x c \<le> fdiv y c"
  by (simp add: fdiv_def fl_mono divide_right_mono)

lemma fof_int_nonneg: "0 \<le> n \<Longrightarrow> 0 \<le> fof_int n"
  by (simp add: fof_int_def fl_nonneg)

lemma fof_int_mono: "m \<le> n \<Longrightarrow> fof_int m \<le> fof_int n"
  by (simp add: fof_int_def fl_mono)

text \<open>Integers below two to the 53 convert exactly.\<close>

lemma fof_int_exact_pos: "0 < n \<Longrightarrow> n < 2 ^ 53 \<Longrightarrow> fof_int n = of_int n"
proof -
  assume n: "0 < n" "n < 2 ^ 53"
  define x :: rat where "x = of_int n"
  have x: "0 < x" using n by (simp add: x_def)
  have "flog2 x \<le> 52"
  proof (rule ccontr)
    assume "\<not> flog2 x \<le> 52"
    then have "pow2 53 \<le> pow2 (flog2 x)" by (intro pow2_mono) simp
    then have "(of_int (2 ^ 53) :: rat) \<le> of_int n"
      using flog2_bounds [OF x] by (simp add: x_def pow2_def [of 53])
    then show False using n unfolding of_int_le_iff by simp
  qed
  then have "ulp_exp x \<le> 0" by (simp add: ulp_exp_def)
  then have p: "x / pow2 (ulp_exp x) = of_int (n * 2 ^ nat (- ulp_exp x))"
    by (cases "ulp_exp x = 0") (simp_all add: pow2_def x_def)
  have "fl_pos x = of_int (n * 2 ^ nat (- ulp_exp x)) * pow2 (ulp_exp x)"
    by (simp only: fl_pos_def p rnd_even_of_int)
  also have "\<dots> = x / pow2 (ulp_exp x) * pow2 (ulp_exp x)" by (simp only: p)
  also have "\<dots> = x" using pow2_pos [of "ulp_exp x"] by simp
  finally have "fl_pos x = x" .
  with x show ?thesis by (simp add: fof_int_def fl_def x_def)
qed

end
