(* ===== verification/Scheduler.thy ===== *)
theory Scheduler
  imports Manifest Float64 GoString
begin

text \<open>
  The weighted channel scheduler, \<open>internal/scheduler/scheduler.go\<close>. Throughput estimates and
  scores are doubles (theory Float64), times and durations are nanoseconds with 0 as Go's zero
  time, and \<open>s.now()\<close> is the argument \<open>now\<close>. The map of channel states is an association list
  whose absent keys read as the zero state. The position counter is an unbounded integer: the
  code's wraps after 2^63 calls. The locale \<open>chunk_picker\<close> is the Go interface \<open>Scheduler\<close> with
  the laws that the two transfer engines rely on; it is interpreted on the weighted scheduler.
\<close>

section \<open>Code\<close>

record channel =
  chn_name :: string
  chn_active :: bool
  chn_in_flight :: int
  chn_mbps30s :: rat
  chn_failures :: int
  chn_last_error :: string

record chan_state =
  st_failures :: int
  st_cooldown_ends :: gotime
  st_mbps30s :: rat

record weighted_scheduler =
  ws_cooldown :: int
  ws_max_cooldown :: int
  ws_channel_states :: "(string, chan_state) gomap"
  ws_next_chunk_pos :: int

definition zero_chan_state :: chan_state where
  "zero_chan_state = \<lparr>st_failures = 0, st_cooldown_ends = 0, st_mbps30s = 0\<rparr>"

definition second :: int where "second = 1000000000"
definition millisecond :: int where "millisecond = 1000000"

definition InitialEstimatedMbps :: rat where "InitialEstimatedMbps = fl 10"
definition HysteresisFactor :: rat where "HysteresisFactor = fl (105 / 100)"

definition new_weighted_scheduler :: weighted_scheduler where
  "new_weighted_scheduler = \<lparr>ws_cooldown = 10 * second, ws_max_cooldown = 40 * second,
     ws_channel_states = [], ws_next_chunk_pos = 0\<rparr>"

text \<open>\<open>s.channelStates[name]\<close>.\<close>

definition chan_state_of :: "weighted_scheduler \<Rightarrow> string \<Rightarrow> chan_state" where
  "chan_state_of s name = gomap_get (ws_channel_states s) name zero_chan_state"

text \<open>The body of the loop over the channels: the throughput used, the score, the choice.\<close>

definition current_mbps :: "weighted_scheduler \<Rightarrow> channel \<Rightarrow> rat" where
  "current_mbps s c =
     (let st = chan_state_of s (chn_name c);
          cur = (if chn_mbps30s c < st_mbps30s st then st_mbps30s st else chn_mbps30s c)
      in if cur = 0 \<and> chn_in_flight c = 0 then InitialEstimatedMbps else cur)"

definition channel_score :: "weighted_scheduler \<Rightarrow> channel \<Rightarrow> rat" where
  "channel_score s c =
     (let cur = current_mbps s c; score = fdiv cur (fof_int (chn_in_flight c + 1))
      in if chn_in_flight c = 0 \<and> 0 < cur then fmul score (3 / 2) else score)"

definition eligible :: "gotime \<Rightarrow> weighted_scheduler \<Rightarrow> channel \<Rightarrow> bool" where
  "eligible now s c \<longleftrightarrow> chn_active c \<and> \<not> now < st_cooldown_ends (chan_state_of s (chn_name c))"

fun pick_step :: "gotime \<Rightarrow> weighted_scheduler \<Rightarrow> string \<times> rat \<Rightarrow> channel \<Rightarrow> string \<times> rat" where
  "pick_step now s (bestChannel, bestScore) c =
     (if \<not> chn_active c then (bestChannel, bestScore)
      else if now < st_cooldown_ends (chan_state_of s (chn_name c)) then (bestChannel, bestScore)
      else let score = channel_score s c in
        if bestChannel \<noteq> '''' \<and> score \<le> fmul bestScore HysteresisFactor then (bestChannel, bestScore)
        else if bestScore < score then (chn_name c, score)
        else (bestChannel, bestScore))"

definition next_chunk :: "gotime \<Rightarrow> weighted_scheduler \<Rightarrow> chunk_state list \<Rightarrow> channel list \<Rightarrow>
    (int64 \<times> string \<times> bool) \<times> weighted_scheduler" where
  "next_chunk now s pending channels =
     (if pending = [] then ((0, '''', False), s)
      else let (bestChannel, bestScore) = foldl (pick_step now s) ('''', - 1) channels in
        if bestChannel = '''' then ((0, '''', False), s)
        else let idx = cs_index (pending ! nat (go_mod (ws_next_chunk_pos s) (int (length pending)))) in
          ((idx, bestChannel, True), s\<lparr>ws_next_chunk_pos := ws_next_chunk_pos s + 1\<rparr>))"

text \<open>\<open>duration.Seconds()\<close>.\<close>

definition seconds :: "int \<Rightarrow> rat" where
  "seconds d = fadd (fof_int (go_div d second)) (fdiv (fof_int (go_mod d second)) (fof_int second))"

definition set_chan_state :: "string \<Rightarrow> chan_state \<Rightarrow> weighted_scheduler \<Rightarrow> weighted_scheduler" where
  "set_chan_state name st s = s\<lparr>ws_channel_states := AList.update name st (ws_channel_states s)\<rparr>"

definition report_success :: "string \<Rightarrow> int64 \<Rightarrow> int \<Rightarrow> weighted_scheduler \<Rightarrow> weighted_scheduler" where
  "report_success channel bytes duration s =
     (if duration \<le> 0 then s
      else let st = chan_state_of s channel;
               mbps = fdiv (fdiv (fmul (fof_int bytes) 8) (seconds duration)) 1000000;
               m' = (if st_mbps30s st = 0 then mbps
                     else fadd (fmul (st_mbps30s st) (fl (6 / 10))) (fmul mbps (fl (4 / 10))))
           in set_chan_state channel \<lparr>st_failures = 0, st_cooldown_ends = 0, st_mbps30s = m'\<rparr> s)"

text \<open>The doubling loop of \<open>ReportFailure\<close>.\<close>

fun backoff :: "nat \<Rightarrow> int \<Rightarrow> int \<Rightarrow> int" where
  "backoff 0 maxCooldown cd = cd"
| "backoff (Suc n) maxCooldown cd =
     (let cd' = i64 (cd * 2) in
      if 0 < maxCooldown \<and> maxCooldown \<le> cd' then maxCooldown else backoff n maxCooldown cd')"

definition report_failure :: "gotime \<Rightarrow> string \<Rightarrow> weighted_scheduler \<Rightarrow> weighted_scheduler" where
  "report_failure now channel s =
     (let st = chan_state_of s channel; f = st_failures st + 1; st = st\<lparr>st_failures := f\<rparr>;
          st = (if 3 \<le> f \<and> 0 < ws_cooldown s
                then st\<lparr>st_cooldown_ends := now + backoff (nat (f - 3)) (ws_max_cooldown s) (ws_cooldown s)\<rparr>
                else st)
      in set_chan_state channel st s)"

section \<open>The interface\<close>

locale chunk_picker =
  fixes pick :: "gotime \<Rightarrow> 's \<Rightarrow> chunk_state list \<Rightarrow> channel list \<Rightarrow> (int64 \<times> string \<times> bool) \<times> 's"
    and succeeded :: "string \<Rightarrow> int64 \<Rightarrow> int \<Rightarrow> 's \<Rightarrow> 's"
    and failed :: "gotime \<Rightarrow> string \<Rightarrow> 's \<Rightarrow> 's"
    and inv :: "'s \<Rightarrow> bool"
  assumes pick_pending: "inv s \<Longrightarrow> pick now s pending chs = ((i, n, True), s') \<Longrightarrow> \<exists>c\<in>set pending. cs_index c = i"
    and pick_channel: "inv s \<Longrightarrow> pick now s pending chs = ((i, n, True), s') \<Longrightarrow>
      \<exists>c\<in>set chs. chn_active c \<and> chn_name c = n"
    and pick_inv: "inv s \<Longrightarrow> pick now s pending chs = (r, s') \<Longrightarrow> inv s'"
    and succeeded_inv: "inv s \<Longrightarrow> 0 \<le> b \<Longrightarrow> inv (succeeded n b d s)"
    and failed_inv: "inv s \<Longrightarrow> inv (failed now n s)"
begin

text \<open>What an engine gets: the chunk to work on exists in the manifest and is retryable.\<close>

lemma dispatch_exists:
  assumes "inv s" "pick now s pending chs = ((i, n, True), s')"
    and "\<forall>c\<in>set pending. c \<in> set (mf_chunks m) \<and> P c"
  shows "\<exists>c\<in>set (mf_chunks m). cs_index c = i \<and> P c"
    and "fst (mark_and_get_sending t i n m) \<noteq> None"
proof -
  obtain c where c: "c \<in> set pending" "cs_index c = i" using pick_pending [OF assms(1,2)] by blast
  then show "\<exists>c\<in>set (mf_chunks m). cs_index c = i \<and> P c" using assms(3) by blast
  have "find (\<lambda>c. cs_index c = i) (mf_chunks m) \<noteq> None"
    using c assms(3) by (auto simp: find_None_all)
  then show "fst (mark_and_get_sending t i n m) \<noteq> None"
    by (simp add: mark_and_get_sending_def get_chunk_def)
qed

end

section \<open>The invariant of the weighted scheduler\<close>

definition sched_ok :: "weighted_scheduler \<Rightarrow> bool" where
  "sched_ok s \<longleftrightarrow> 0 \<le> ws_next_chunk_pos s \<and>
     (\<forall>n. 0 \<le> st_mbps30s (chan_state_of s n) \<and> 0 \<le> st_failures (chan_state_of s n))"

lemma chan_state_of_set [simp]:
  "chan_state_of (set_chan_state n st s) k = (if k = n then st else chan_state_of s k)"
  by (simp add: chan_state_of_def set_chan_state_def)

lemma set_chan_state_sel [simp]:
  "ws_next_chunk_pos (set_chan_state n st s) = ws_next_chunk_pos s"
  "ws_cooldown (set_chan_state n st s) = ws_cooldown s"
  "ws_max_cooldown (set_chan_state n st s) = ws_max_cooldown s"
  by (simp_all add: set_chan_state_def)

lemma sched_ok_new: "sched_ok new_weighted_scheduler"
  by (simp add: sched_ok_def new_weighted_scheduler_def chan_state_of_def gomap_get_def zero_chan_state_def)

lemma seconds_nonneg: "0 \<le> d \<Longrightarrow> 0 \<le> seconds d"
  by (simp add: seconds_def second_def fadd_nonneg fdiv_nonneg fof_int_nonneg pos_imp_zdiv_nonneg_iff)

lemma sched_ok_success: "sched_ok s \<Longrightarrow> 0 \<le> b \<Longrightarrow> sched_ok (report_success n b d s)"
  by (auto simp: report_success_def sched_ok_def Let_def
      intro!: fadd_nonneg fmul_nonneg fdiv_nonneg fl_nonneg seconds_nonneg fof_int_nonneg)

lemma sched_ok_failure: "sched_ok s \<Longrightarrow> sched_ok (report_failure now n s)"
proof -
  assume ok: "sched_ok s"
  then have "0 \<le> st_failures (chan_state_of s n) + 1" by (simp add: sched_ok_def add_nonneg_nonneg)
  with ok show ?thesis by (simp add: report_failure_def sched_ok_def Let_def)
qed

lemma next_chunk_state: "snd (next_chunk now s p chs) = s \<or>
    snd (next_chunk now s p chs) = s\<lparr>ws_next_chunk_pos := ws_next_chunk_pos s + 1\<rparr>"
  by (auto simp: next_chunk_def Let_def split: prod.splits)

lemma sched_ok_next: "sched_ok s \<Longrightarrow> sched_ok (snd (next_chunk now s p chs))"
  using next_chunk_state [of now s p chs] by (auto simp: sched_ok_def chan_state_of_def)

section \<open>What the choice loop computes\<close>

lemma pick_step_eligible:
  "pick_step now s (b, sc) c =
     (if eligible now s c \<and> \<not> (b \<noteq> '''' \<and> channel_score s c \<le> fmul sc HysteresisFactor) \<and> sc < channel_score s c
      then (chn_name c, channel_score s c) else (b, sc))"
  by (auto simp: eligible_def Let_def)

declare pick_step.simps [simp del]

lemma pick_fold_chosen:
  "foldl (pick_step now s) acc chs = (b, sc) \<Longrightarrow>
   (b, sc) = acc \<or> (\<exists>c\<in>set chs. eligible now s c \<and> chn_name c = b \<and> channel_score s c = sc)"
proof (induction chs arbitrary: acc)
  case (Cons c chs)
  obtain b0 s0 where acc: "acc = (b0, s0)" by fastforce
  with Cons show ?case
    using Cons.IH [of "pick_step now s acc c"] by (auto simp: pick_step_eligible split: if_splits)
qed simp

lemma pick_step_mono: "snd acc \<le> snd (pick_step now s acc c)"
  by (cases acc) (simp add: pick_step_eligible)

lemma pick_fold_mono: "snd acc \<le> snd (foldl (pick_step now s) acc chs)"
proof (induction chs arbitrary: acc)
  case (Cons c chs)
  show ?case using pick_step_mono [of acc now s c] Cons [of "pick_step now s acc c"] by simp
qed simp

lemma HysteresisFactor_nonneg: "0 \<le> HysteresisFactor"
  by (simp add: HysteresisFactor_def fl_nonneg)

lemma pick_fold_best:
  assumes "\<forall>c\<in>set chs. eligible now s c \<longrightarrow> chn_name c \<noteq> '''' \<and> 0 \<le> channel_score s c"
    and "fst acc = '''' \<longrightarrow> snd acc = - 1"
    and "c \<in> set chs" "eligible now s c"
    and "foldl (pick_step now s) acc chs = (b, sc)"
  shows "b \<noteq> '''' \<and> channel_score s c \<le> max sc (fmul sc HysteresisFactor)"
  using assms
proof (induction chs arbitrary: acc)
  case Nil
  then show ?case by simp
next
  case (Cons d chs)
  let ?acc = "pick_step now s acc d"
  obtain b0 s0 where acc: "acc = (b0, s0)" by fastforce
  have inv: "fst ?acc = '''' \<longrightarrow> snd ?acc = - 1"
    using Cons.prems(1,2) by (auto simp: acc pick_step_eligible)
  have fold: "foldl (pick_step now s) ?acc chs = (b, sc)" using Cons.prems(5) by simp
  have mono: "snd ?acc \<le> sc" using pick_fold_mono [of ?acc now s chs] fold by simp
  show ?case
  proof (cases "c \<in> set chs")
    case True
    then show ?thesis using Cons.IH [OF _ inv True Cons.prems(4) fold] Cons.prems(1) by simp
  next
    case False
    then have d: "d = c" using Cons.prems(3) by simp
    then have sc: "0 \<le> channel_score s c" "eligible now s c" using Cons.prems(1,4) by auto
    have ub: "channel_score s c \<le> max (snd ?acc) (fmul (snd ?acc) HysteresisFactor)"
      using sc by (auto simp: acc d pick_step_eligible)
    have "fmul (snd ?acc) HysteresisFactor \<le> fmul sc HysteresisFactor"
      using mono HysteresisFactor_nonneg by (rule fmul_mono_left)
    with ub mono have le: "channel_score s c \<le> max sc (fmul sc HysteresisFactor)" by linarith
    have ne: "fst ?acc \<noteq> ''''"
      using sc Cons.prems(1,2) by (auto simp: acc d pick_step_eligible)
    have "b \<noteq> ''''"
    proof
      assume "b = ''''"
      then have "?acc = ('''', sc) \<or> (\<exists>c\<in>set chs. eligible now s c \<and> chn_name c = '''')"
        using pick_fold_chosen [OF fold] by metis
      then show False using ne Cons.prems(1) by fastforce
    qed
    with le show ?thesis by simp
  qed
qed

section \<open>The weighted scheduler implements the interface\<close>

lemma next_chunk_True:
  "next_chunk now s pending chs = ((i, n, True), s') \<Longrightarrow>
     pending \<noteq> [] \<and> n \<noteq> '''' \<and> (\<exists>sc. foldl (pick_step now s) ('''', - 1) chs = (n, sc))
     \<and> i = cs_index (pending ! nat (go_mod (ws_next_chunk_pos s) (int (length pending))))
     \<and> s' = s\<lparr>ws_next_chunk_pos := ws_next_chunk_pos s + 1\<rparr>"
  by (auto simp: next_chunk_def Let_def split: prod.splits if_splits)

lemma next_chunk_pending:
  "sched_ok s \<Longrightarrow> next_chunk now s pending chs = ((i, n, True), s') \<Longrightarrow> \<exists>c\<in>set pending. cs_index c = i"
proof -
  assume ok: "sched_ok s" and nx: "next_chunk now s pending chs = ((i, n, True), s')"
  from next_chunk_True [OF nx] have ne: "pending \<noteq> []"
    and i: "i = cs_index (pending ! nat (go_mod (ws_next_chunk_pos s) (int (length pending))))"
    by auto
  have "go_mod (ws_next_chunk_pos s) (int (length pending)) < int (length pending)"
    using ok ne by (simp add: sched_ok_def)
  moreover have "0 \<le> go_mod (ws_next_chunk_pos s) (int (length pending))"
    using ok ne by (simp add: sched_ok_def)
  ultimately have "nat (go_mod (ws_next_chunk_pos s) (int (length pending))) < length pending" by simp
  then show ?thesis using i nth_mem by blast
qed

lemma next_chunk_channel:
  "next_chunk now s pending chs = ((i, n, True), s') \<Longrightarrow> \<exists>c\<in>set chs. eligible now s c \<and> chn_name c = n"
  using next_chunk_True [of now s pending chs i n s']
    pick_fold_chosen [of now s "('''', - 1)" chs n] by fastforce

interpretation wsched: chunk_picker next_chunk report_success report_failure sched_ok
proof unfold_locales
  fix s now pending chs i n s'
  assume "sched_ok s" "next_chunk now s pending chs = ((i, n, True), s')"
  then show "\<exists>c\<in>set pending. cs_index c = i" by (rule next_chunk_pending)
next
  fix s now pending chs i n s'
  assume "next_chunk now s pending chs = ((i, n, True), s')"
  then show "\<exists>c\<in>set chs. chn_active c \<and> chn_name c = n"
    using next_chunk_channel by (fastforce simp: eligible_def)
next
  fix s now pending chs r s'
  assume "sched_ok s" "next_chunk now s pending chs = (r, s')"
  then show "sched_ok s'" using sched_ok_next [of s now pending chs] by simp
qed (simp_all add: sched_ok_success sched_ok_failure)

section \<open>Properties\<close>

text \<open>
  C30: \<open>NextChunk\<close> picks a pending chunk and an active channel that is not cooling down, and among
  the eligible channels none scores more than the hysteresis factor above the chosen one.
\<close>

theorem next_chunk_best_channel:
  assumes "sched_ok s" "next_chunk now s pending chs = ((i, n, True), s')"
    and "\<forall>c\<in>set chs. eligible now s c \<longrightarrow> chn_name c \<noteq> '''' \<and> 0 \<le> channel_score s c"
  shows "(\<exists>p\<in>set pending. cs_index p = i) \<and>
    (\<exists>c\<in>set chs. eligible now s c \<and> chn_name c = n \<and>
       (\<forall>d\<in>set chs. eligible now s d \<longrightarrow>
          channel_score s d \<le> max (channel_score s c) (fmul (channel_score s c) HysteresisFactor)))"
proof -
  from next_chunk_True [OF assms(2)] obtain sc where
    f: "foldl (pick_step now s) ('''', - 1) chs = (n, sc)" and n: "n \<noteq> ''''" by auto
  from pick_fold_chosen [OF f] n obtain c where
    c: "c \<in> set chs" "eligible now s c" "chn_name c = n" "channel_score s c = sc" by auto
  have "channel_score s d \<le> max sc (fmul sc HysteresisFactor)"
    if "d \<in> set chs" "eligible now s d" for d
    using pick_fold_best [OF assms(3) _ that f] by simp
  with c next_chunk_pending [OF assms(1,2)] show ?thesis by metis
qed

definition demo_channels :: "channel list" where
  "demo_channels = [\<lparr>chn_name = ''cable'', chn_active = True, chn_in_flight = 1, chn_mbps30s = 0,
       chn_failures = 0, chn_last_error = ''''\<rparr>,
     \<lparr>chn_name = ''wifi'', chn_active = True, chn_in_flight = 0, chn_mbps30s = 0,
       chn_failures = 0, chn_last_error = ''''\<rparr>]"

lemma demo_pick:
  "next_chunk 5 new_weighted_scheduler [zero_chunk\<lparr>cs_index := 7\<rparr>] demo_channels
     = ((7, ''wifi'', True), new_weighted_scheduler\<lparr>ws_next_chunk_pos := 1\<rparr>)"
  "\<forall>c\<in>set demo_channels. eligible 5 new_weighted_scheduler c \<longrightarrow>
     chn_name c \<noteq> '''' \<and> 0 \<le> channel_score new_weighted_scheduler c"
  by code_simp+

theorem next_chunk_best_channel_witness:
  "\<exists>c\<in>set demo_channels. eligible 5 new_weighted_scheduler c \<and> chn_name c = ''wifi''"
  using next_chunk_best_channel [OF sched_ok_new demo_pick] by auto

text \<open>
  \<open>NextChunk\<close> never starves a transfer: when a chunk is pending and some channel is active and
  not cooling down, it hands out work; otherwise it hands out nothing and changes nothing.
\<close>

theorem next_chunk_ok_iff:
  assumes "\<forall>c\<in>set chs. eligible now s c \<longrightarrow> chn_name c \<noteq> '''' \<and> 0 \<le> channel_score s c"
  shows "if pending \<noteq> [] \<and> (\<exists>c\<in>set chs. eligible now s c)
    then \<exists>i n s'. next_chunk now s pending chs = ((i, n, True), s')
    else next_chunk now s pending chs = ((0, '''', False), s)"
proof -
  obtain b sc where f: "foldl (pick_step now s) ('''', - 1) chs = (b, sc)" by fastforce
  have b: "b \<noteq> '''' \<longleftrightarrow> (\<exists>c\<in>set chs. eligible now s c)"
  proof
    assume "b \<noteq> ''''"
    then show "\<exists>c\<in>set chs. eligible now s c" using pick_fold_chosen [OF f] by auto
  next
    assume "\<exists>c\<in>set chs. eligible now s c"
    then show "b \<noteq> ''''" using pick_fold_best [OF assms _ _ _ f] by auto
  qed
  show ?thesis
  proof (cases "pending = [] \<or> b = ''''")
    case True
    then have "next_chunk now s pending chs = ((0, '''', False), s)"
      by (auto simp: next_chunk_def f)
    with True b show ?thesis by auto
  next
    case False
    then have "\<exists>i n s'. next_chunk now s pending chs = ((i, n, True), s')"
      by (simp add: next_chunk_def f Let_def)
    with False b show ?thesis by auto
  qed
qed

theorem next_chunk_ok_iff_witness:
  "\<exists>i n s'. next_chunk 5 new_weighted_scheduler [zero_chunk] demo_channels = ((i, n, True), s')"
proof -
  have "\<exists>c\<in>set demo_channels. eligible 5 new_weighted_scheduler c" by code_simp
  then show ?thesis using next_chunk_ok_iff [OF demo_pick(2), of "[zero_chunk]"] by simp
qed

lemma backoff_eq:
  "0 < cd \<Longrightarrow> cd \<le> mx \<Longrightarrow> 2 * mx \<le> max_i64 \<Longrightarrow> backoff n mx cd = min mx (cd * 2 ^ n)"
proof (induction n arbitrary: cd)
  case 0
  then show ?case by simp
next
  case (Suc n)
  have w: "i64 (cd * 2) = cd * 2" using Suc.prems by (intro i64_id) linarith+
  show ?case
  proof (cases "mx \<le> cd * 2")
    case True
    have "cd * 2 * 1 \<le> cd * 2 * 2 ^ n" using Suc.prems by (intro mult_left_mono) auto
    then have "mx \<le> cd * 2 ^ Suc n" using True by (simp add: mult.assoc)
    with True Suc.prems show ?thesis by (simp add: w min_absorb1)
  next
    case False
    with Suc.IH [of "cd * 2"] Suc.prems show ?thesis by (simp add: w mult.assoc)
  qed
qed

text \<open>
  The cooldown of a failing channel doubles per failure from the third on and is capped: it is
  the smaller of the maximal cooldown and the initial one times two to the number of extra failures.
\<close>
theorem report_failure_cooldown:
  assumes "0 < ws_cooldown s" "ws_cooldown s \<le> ws_max_cooldown s" "2 * ws_max_cooldown s \<le> max_i64"
    and "2 \<le> st_failures (chan_state_of s n)"
  shows "st_cooldown_ends (chan_state_of (report_failure now n s) n)
      = now + min (ws_max_cooldown s) (ws_cooldown s * 2 ^ nat (st_failures (chan_state_of s n) - 2))
    \<and> st_failures (chan_state_of (report_failure now n s) n) = st_failures (chan_state_of s n) + 1"
  using assms by (simp_all add: report_failure_def Let_def backoff_eq)

theorem report_failure_cooldown_witness:
  "st_cooldown_ends (chan_state_of (report_failure 100 ''wifi''
     (report_failure 90 ''wifi'' (report_failure 80 ''wifi'' new_weighted_scheduler))) ''wifi'') = 10000000100"
proof -
  let ?s = "report_failure 90 ''wifi'' (report_failure 80 ''wifi'' new_weighted_scheduler)"
  have "ws_cooldown ?s = 10000000000" "ws_max_cooldown ?s = 40000000000"
    "st_failures (chan_state_of ?s ''wifi'') = 2" by code_simp+
  then show ?thesis using report_failure_cooldown [of ?s "''wifi''" 100] by simp
qed

end
