(* ===== verification/DownloadPlan.thy ===== *)
theory DownloadPlan
  imports FileSys Scheduler Netif
begin

text \<open>
  The pure routines of the download manager, \<open>internal/download/manager.go\<close>: identifiers and names,
  the choice of the chunk size, the retry and stall rules, the strict split between the two channels,
  the channel list and the telemetry maps. Times are nanoseconds. \<open>net/url\<close> is not modelled: what a
  routine asks of it is an argument.
\<close>

section \<open>Identifiers and names\<close>

definition valid_download_id :: "string \<Rightarrow> bool" where
  "valid_download_id i \<longleftrightarrow>
     (let digits = trim_prefix i ''dl-'' in
      if digits = i \<or> digits = '''' then False
      else if \<not> list_all is_digit digits then False
      else (case parse_int digits of Inl e \<Rightarrow> False | Inr v \<Rightarrow> True))"

definition download_id :: "int64 \<Rightarrow> string" where
  "download_id now_nano = ''dl-'' @ itoa now_nano"

definition sanitize_file_name :: "string \<Rightarrow> string" where
  "sanitize_file_name name =
     (let n = trim_space name;
          n = replace_all ''..'' ''_'' n;
          n = replace_all ''/'' ''_'' n;
          n = replace_all [bs] ''_'' n
      in if n = '''' then ''download.bin'' else n)"

text \<open>\<open>fileNameFromHeaderOrURL\<close>; \<open>url_path\<close> is the path of the parsed URL, if it parses.\<close>

text \<open>\<open>strings.Split(cd, "filename=")\<close>: the text between the first and the second occurrence.\<close>

fun cut_at :: "string \<Rightarrow> string \<Rightarrow> (string \<times> string) option" where
  "cut_at p [] = (if p = [] then Some ([], []) else None)"
| "cut_at p (c # s) =
     (if prefix p (c # s) then Some ([], drop (length p) (c # s))
      else map_option (\<lambda>(a, b). (c # a, b)) (cut_at p s))"

definition split_second :: "string \<Rightarrow> string \<Rightarrow> string option" where
  "split_second p s =
     (case cut_at p s of
        None \<Rightarrow> None
      | Some (_, r) \<Rightarrow> (case cut_at p r of None \<Rightarrow> Some r | Some (m, _) \<Rightarrow> Some m))"

definition file_name_from_header_or_url :: "string \<Rightarrow> string option \<Rightarrow> string" where
  "file_name_from_header_or_url cd url_path =
     (let from_url =
        (case url_path of
           None \<Rightarrow> ''download.bin''
         | Some p \<Rightarrow> let b = base_name p in
             if b \<noteq> '''' \<and> b \<noteq> ''.'' \<and> b \<noteq> ''/'' then b else ''download.bin'')
      in if contains (to_lower cd) ''filename='' then
           (case split_second ''filename='' cd of
              None \<Rightarrow> from_url
            | Some t \<Rightarrow>
                let n = trim_by (\<lambda>c. c = CHR ''\"'' \<or> c = CHR '';'' \<or> c = CHR '' '') t in
                if n \<noteq> '''' then n else from_url)
         else from_url)"

definition session_dir_for :: "string \<Rightarrow> string \<Rightarrow> string" where
  "session_dir_for jobID finalPath =
     (if trim_space jobID = '''' then finalPath @ ''.download'' else finalPath @ ''.download.'' @ jobID)"

definition part_name :: "int64 \<Rightarrow> string" where
  "part_name index = ''chunk'' @ itoa06 (i64 (index + 1)) @ ''.part''"

definition part_path_for :: "string \<Rightarrow> string \<Rightarrow> int64 \<Rightarrow> string" where
  "part_path_for jobID finalPath index = join_path [session_dir_for jobID finalPath, part_name index]"

text \<open>
  \<open>uniqueOutputPath\<close>: the names of the directory (\<open>None\<close>: it cannot be read), and the base names of
  the jobs whose output lies in it.
\<close>

definition name_taken :: "string list \<Rightarrow> string list \<Rightarrow> string \<Rightarrow> bool" where
  "name_taken reserved entries nm \<longleftrightarrow>
     (let nameKey = to_lower nm in
      nameKey \<in> set reserved \<or>
      list_ex (\<lambda>e. to_lower e = nameKey \<or> has_prefix (to_lower e) (nameKey @ ''.download.'')) entries)"

definition numbered_name :: "string \<Rightarrow> int \<Rightarrow> string" where
  "numbered_name fileName k =
     (if 1 < k then trim_suffix fileName (ext fileName) @ '' ('' @ itoa k @ '')'' @ ext fileName
      else fileName)"

definition max_history_scan_entries :: int where
  "max_history_scan_entries = 25000"

definition reserved_names :: "string \<Rightarrow> string list \<Rightarrow> string \<Rightarrow> string list" where
  "reserved_names cwd outputs dir =
     map (\<lambda>p. to_lower (base_name p)) (filter (\<lambda>p. same_path cwd (dir_name p) dir) outputs)"

definition unique_output_path ::
  "string \<Rightarrow> string list \<Rightarrow> string list option \<Rightarrow> string \<Rightarrow> string \<Rightarrow> string result" where
  "unique_output_path cwd outputs entries outputDir fileName =
     (case entries of
        None \<Rightarrow> Inl ''readdir failed''
      | Some es \<Rightarrow>
          (case find (\<lambda>k. \<not> name_taken (reserved_names cwd outputs outputDir) es (numbered_name fileName k))
                  [1..max_history_scan_entries] of
             Some k \<Rightarrow> Inr (join_path [outputDir, numbered_name fileName k])
           | None \<Rightarrow> Inl ''could not reserve a unique output name''))"

section \<open>Chunk size\<close>

definition target_chunk_count :: "int64 \<Rightarrow> int \<Rightarrow> int" where
  "target_chunk_count tot initialChannels =
     (if initialChannels \<le> 1 then (if tot \<le> 128 * 1024 * 1024 then 1 else 4)
      else if tot \<le> 128 * 1024 * 1024 then 1
      else if tot \<le> 512 * 1024 * 1024 then 3
      else if tot \<le> 1024 * 1024 * 1024 then 6
      else 6)"

definition initial_channel_count :: "bool \<Rightarrow> interface_info list \<Rightarrow> int" where
  "initial_channel_count is_loopback_url infos =
     (if is_loopback_url then 1
      else let n = int (length (filter (\<lambda>it. info_usable it \<and> trim_space (info_ipv4 it) \<noteq> '''' \<and>
                 info_type it \<in> {''ethernet'', ''usb_ethernet'', ''unknown'', ''wifi''}) infos))
           in if n \<le> 0 then 1 else n)"

text \<open>The part of \<open>prepare\<close> that fixes the chunk size.\<close>

definition choose_chunk_size :: "int64 \<Rightarrow> int64 \<Rightarrow> int \<Rightarrow> int64" where
  "choose_chunk_size tot reqMB channels =
     (let chunkSize = i64 (reqMB * 1024 * 1024);
          chunkSize = (if chunkSize \<le> 0 then auto_chunk_size tot else chunkSize);
          targetChunks = target_chunk_count tot channels
      in if 0 < targetChunks then
           let capped = go_div (i64 (i64 (tot + targetChunks) - 1)) targetChunks in
           if chunkSize < capped \<or> reqMB \<le> 0 then capped else chunkSize
         else chunkSize)"

section \<open>Retry, stall, time limit\<close>

definition max_chunk_attempts :: int where
  "max_chunk_attempts = 8"

definition retry_pending :: "manifest \<Rightarrow> chunk_state list" where
  "retry_pending mf = sort_by_index
     (filter (\<lambda>c. cs_status c = StatusPending \<or>
        (cs_status c = StatusFailed \<and> cs_attempts c < max_chunk_attempts)) (mf_chunks mf))"

definition stalled :: "gotime \<Rightarrow> int \<Rightarrow> chunk_state \<Rightarrow> bool" where
  "stalled now stallLimit c \<longleftrightarrow> cs_status c = StatusSending \<and>
     \<not> (case cs_started_at c of None \<Rightarrow> False | Some t \<Rightarrow> now - t < stallLimit)"

definition reset_stalled_chunks :: "gotime \<Rightarrow> int \<Rightarrow> manifest \<Rightarrow> manifest \<times> int" where
  "reset_stalled_chunks now stallLimit mf =
     (map_chunks (\<lambda>c. if stalled now stallLimit c then c\<lparr>cs_status := StatusPending, cs_channel := ''''\<rparr> else c) mf,
      int (length (filter (stalled now stallLimit) (mf_chunks mf))))"

definition chunk_timeout :: "int64 \<Rightarrow> string \<Rightarrow> int" where
  "chunk_timeout sz mode =
     (let sz = (if sz \<le> 0 then 2 ^ 20 else sz) in
      if mode = ''pipelined'' then
        (let mn = 30 * second; mx = 3 * 60 * second;
             d = i64 (i64 (go_div sz (1024 * 1024) + 1) * (1500 * millisecond))
         in if d < mn then mn else if mx < d then mx else d)
      else 45 * second)"

section \<open>Strict split\<close>

fun strict_loop :: "int \<Rightarrow> int \<Rightarrow> int \<Rightarrow> chunk_state list \<Rightarrow> (int64, string) gomap \<Rightarrow> (int64, string) gomap" where
  "strict_loop pct cableScore wifiScore [] plan = plan"
| "strict_loop pct cableScore wifiScore (c # cs) plan =
     (let cableScore = cableScore + pct; wifiScore = wifiScore + (100 - pct) in
      if wifiScore \<le> cableScore
      then strict_loop pct (cableScore - 100) wifiScore cs (AList.update (cs_index c) ''cable'' plan)
      else strict_loop pct cableScore (wifiScore - 100) cs (AList.update (cs_index c) ''wifi'' plan))"

definition build_strict_plan :: "chunk_state list \<Rightarrow> int \<Rightarrow> (int64, string) gomap" where
  "build_strict_plan chunks cablePct =
     (let pct = (if cablePct \<le> 0 \<or> 100 \<le> cablePct then 50 else cablePct) in
      strict_loop pct 0 0 (sort_by_index chunks) [])"

definition pick_strict_pending :: "chunk_state list \<Rightarrow> string \<Rightarrow> (int64, string) gomap \<Rightarrow> int64 option" where
  "pick_strict_pending pending channel plan =
     map_option cs_index (find (\<lambda>p. gomap_get plan (cs_index p) '''' = channel) pending)"

section \<open>Channels\<close>

type_synonym local_channel = "string \<times> string" \<comment> \<open>name, address\<close>

definition usable_of :: "string list \<Rightarrow> interface_info list \<Rightarrow> string" where
  "usable_of types infos =
     (case find (\<lambda>it. info_usable it \<and> trim_space (info_ipv4 it) \<noteq> '''' \<and> info_type it \<in> set types) infos of
        None \<Rightarrow> '''' | Some it \<Rightarrow> info_ipv4 it)"

definition current_channels :: "bool \<Rightarrow> interface_info list \<Rightarrow> local_channel list" where
  "current_channels is_loopback_url infos =
     (if is_loopback_url then [(''cable'', '''')]
      else let cable = usable_of [''ethernet'', ''usb_ethernet'', ''unknown''] infos;
               wifi = usable_of [''wifi''] infos
           in (if cable \<noteq> '''' then [(''cable'', cable)] else []) @
              (if wifi \<noteq> '''' then [(''wifi'', wifi)] else []))"

definition has_channel :: "local_channel list \<Rightarrow> string \<Rightarrow> bool" where
  "has_channel channels nm \<longleftrightarrow> list_ex (\<lambda>c. fst c = nm) channels"

definition find_channel :: "local_channel list \<Rightarrow> string \<Rightarrow> local_channel option" where
  "find_channel channels nm = find (\<lambda>c. fst c = nm) channels"

text \<open>\<open>updatePipelineTelemetryLocked\<close>: the queue depths it computes.\<close>

fun queue_loop :: "local_channel list \<Rightarrow> nat \<Rightarrow> nat \<Rightarrow> nat \<Rightarrow> (string, int) gomap \<Rightarrow> (string, int) gomap" where
  "queue_loop [] bs' rm i queue = queue"
| "queue_loop (ch # chs) bs' rm i queue =
     queue_loop chs bs' rm (i + 1) (AList.update (fst ch) (int (if i < rm then bs' + 1 else bs')) queue)"

definition queue_depth :: "local_channel list \<Rightarrow> nat \<Rightarrow> (string, int) gomap" where
  "queue_depth channels pending =
     (let active = length (filter (\<lambda>ch. fst ch = ''cable'' \<or> fst ch = ''wifi'') channels) in
      if 0 < active \<and> 0 < pending
      then queue_loop channels (pending div active) (pending mod active) 0 [(''cable'', 0), (''wifi'', 0)]
      else [(''cable'', 0), (''wifi'', 0)])"

definition per_channel_limit :: "config \<Rightarrow> int" where
  "per_channel_limit cfg =
     (if normalize_download_pipeline_mode (cfg_download_pipeline_mode cfg) = ''pipelined'' then
        (if cfg_download_in_flight_per_chan cfg \<le> 0 then 2 else cfg_download_in_flight_per_chan cfg)
      else 1)"

definition worker_count :: "config \<Rightarrow> int" where
  "worker_count cfg =
     (if normalize_download_pipeline_mode (cfg_download_pipeline_mode cfg) = ''pipelined''
      then (if per_channel_limit cfg * 2 < 2 then 2 else per_channel_limit cfg * 2) else 2)"

section \<open>Sanitised names\<close>

fun dot_pair :: "string \<Rightarrow> bool" where
  "dot_pair (a # b # s) \<longleftrightarrow> a = CHR ''.'' \<and> b = CHR ''.'' \<or> dot_pair (b # s)"
| "dot_pair s \<longleftrightarrow> False"

lemma replace_dots_head: "\<not> prefix ''..'' s \<Longrightarrow> s \<noteq> [] \<Longrightarrow> hd (replace_all ''..'' r s) = hd s"
  by (cases s) auto

lemma dot_pair_Cons: "dot_pair (c # t) \<longleftrightarrow> c = CHR ''.'' \<and> t \<noteq> [] \<and> hd t = CHR ''.'' \<or> dot_pair t"
  by (cases t) auto

lemma replace_dots_gone: "\<not> dot_pair (replace_all ''..'' ''_'' s)"
proof (induction "''..''" "''_''" s rule: replace_all.induct)
  case (2 c s)
  show ?case
  proof (cases "prefix ''..'' (c # s)")
    case True
    have e: "replace_all ''..'' ''_'' (c # s) =
        CHR ''_'' # replace_all ''..'' ''_'' (drop (length ''..'') (c # s))"
      by (subst replace_all.simps, subst if_P, use True in blast, rule append_Cons [of _ "[]", unfolded append_Nil])
    have "\<not> dot_pair (replace_all ''..'' ''_'' (drop (length ''..'') (c # s)))"
      by (rule 2(1) [OF conjI [OF _ True]]) simp
    then show ?thesis unfolding e dot_pair_Cons by simp
  next
    case False
    have "\<not> (c = CHR ''.'' \<and> replace_all ''..'' ''_'' s \<noteq> [] \<and> hd (replace_all ''..'' ''_'' s) = CHR ''.'')"
    proof
      assume a: "c = CHR ''.'' \<and> replace_all ''..'' ''_'' s \<noteq> [] \<and> hd (replace_all ''..'' ''_'' s) = CHR ''.''"
      then have s: "s \<noteq> []" by auto
      with a False have h: "hd s \<noteq> CHR ''.''" by (cases s) auto
      then have "\<not> prefix ''..'' s" by (cases s) auto
      from replace_dots_head [OF this s] a h show False by simp
    qed
    moreover have e: "replace_all ''..'' ''_'' (c # s) = c # replace_all ''..'' ''_'' s"
      by (subst replace_all.simps, subst if_not_P, use False in blast, rule refl)
    moreover have "\<not> dot_pair (replace_all ''..'' ''_'' s)"
      by (rule 2(2)) (use False in blast)
    ultimately show ?thesis unfolding e dot_pair_Cons by blast
  qed
qed simp

lemma replace_one: "replace_all [d] [e] s = map (\<lambda>c. if c = d then e else c) s"
  by (induction "[d]" "[e]" s rule: replace_all.induct) auto

lemma dot_pair_map:
  "(\<And>c. f c = CHR ''.'' \<longleftrightarrow> c = CHR ''.'') \<Longrightarrow> dot_pair (map f s) = dot_pair s"
  by (induction s rule: dot_pair.induct) auto

lemma sanitize_plain: "sanitize_file_name name \<noteq> ''.'' \<Longrightarrow> plain (sanitize_file_name name)"
proof -
  assume nd: "sanitize_file_name name \<noteq> ''.''"
  let ?a = "replace_all ''..'' ''_'' (trim_space name)"
  let ?f = "\<lambda>c. if c = bs then CHR ''_'' else c"
  let ?g = "\<lambda>c. if c = CHR ''/'' then CHR ''_'' else c"
  let ?b = "map ?f (map ?g ?a)"
  have e: "sanitize_file_name name = (if ?b = '''' then ''download.bin'' else ?b)"
    by (simp add: sanitize_file_name_def Let_def replace_one)
  have us: "CHR ''_'' \<noteq> bs" by code_simp
  have "bs \<noteq> CHR ''.''" by code_simp
  then have "\<not> dot_pair ?b"
    using replace_dots_gone [of "trim_space name"] by (simp add: dot_pair_map del: map_map)
  then have "?b \<noteq> ''..''" by auto
  moreover have "list_all (\<lambda>x. \<not> is_sep x) ?b" using us by (auto simp: list_all_iff is_sep_def)
  moreover have "plain ''download.bin''" by code_simp
  ultimately show ?thesis using nd e by (auto simp: plain_def split: if_splits)
qed

text \<open>
  a sanitised name stays in the chosen directory. Whatever name the server or the user
  supplies, unless it sanitises to a single dot, the output path is the directory itself plus exactly
  one component, so it passes the containment check against that directory (the root of a drive
  excepted, where that check accepts nothing below).
\<close>

theorem sanitized_output_contained:
  assumes "is_abs dir" and "sanitize_file_name name \<noteq> ''.''" and "clean_components dir \<noteq> []"
  shows "clean_components (join_path [dir, sanitize_file_name name])
       = clean_components dir @ [sanitize_file_name name]
     \<and> is_under cwd (join_path [dir, sanitize_file_name name]) dir"
proof -
  let ?n = "sanitize_file_name name" and ?j = "join_path [dir, sanitize_file_name name]"
  have p: "plain ?n" using assms(2) by (rule sanitize_plain)
  have d: "dir \<noteq> ''''" "rooted dir" "volume dir \<noteq> ''''"
    using assms(1) by (auto simp: is_abs_def volume_def)
  have rt: "rooted (dir @ bs # ?n)" using d(2) by (simp add: rooted_def after_volume_append hd_append)
  have j: "?j = volume dir @ bs # join_with bs (clean_components dir @ [?n])"
    using join_path_plain [OF d(1) p] rt d(2) by (simp add: render_def Let_def clean_components_def)
  have pl: "list_all plain (clean_components dir @ [?n])"
    using clean_components_plain [OF d(2)] p by simp
  have v: "volume ?j = volume dir" unfolding j
    using d(3) by (auto simp: volume_def split: list.splits if_splits)
  have av: "after_volume ?j = bs # join_with bs (clean_components dir @ [?n])"
    using v j by (simp add: after_volume_def)
  have c: "components ?j = clean_components dir @ [?n]"
    by (rule components_of_rooted [OF av pl]) simp
  have r: "rooted ?j" by (simp add: rooted_def av is_sep_def)
  have cc: "clean_components ?j = clean_components dir @ [?n]"
    using pl by (simp add: clean_components_def c r resolve_id)
  moreover have a: "is_abs ?j" using v r d(3) by (simp add: is_abs_def)
  ultimately show ?thesis using is_under_components [OF a assms(1)] assms(3) by (simp add: v)
qed

theorem sanitized_output_contained_witness:
  "is_under '''' (join_path [''C:'' @ bs # ''recv'', sanitize_file_name (''..'' @ bs # ''x/y'')]) (''C:'' @ bs # ''recv'')"
proof -
  have "is_abs (''C:'' @ bs # ''recv'')" "sanitize_file_name (''..'' @ bs # ''x/y'') \<noteq> ''.''"
    "clean_components (''C:'' @ bs # ''recv'') \<noteq> []"
    by code_simp+
  from sanitized_output_contained [OF this, of "''''"] show ?thesis by simp
qed

text \<open>
  the exception is real. A server that names its file with a single dot gets past the sanitiser:
  the output path is then the download directory itself, and the session directory with the chunk
  files lies beside that directory, outside the root that the start of the download checked.
\<close>

theorem dot_name_escapes:
  "let dir = ''C:'' @ bs # ''recv''; final = join_path [dir, sanitize_file_name ''.''] in
   final = dir \<and> \<not> is_under '''' (session_dir_for ''dl-1'' final) dir \<and>
   file_name_from_header_or_url ''attachment; filename=.'' None = ''.''"
  by code_simp

section \<open>Chunk size\<close>

lemma target_chunk_count_range:
  "1 \<le> target_chunk_count t n \<and> target_chunk_count t n \<le> 6 \<and>
   (t \<le> 128 * 1024 * 1024 \<longrightarrow> target_chunk_count t n = 1) \<and>
   (128 * 1024 * 1024 < t \<longrightarrow> 3 \<le> target_chunk_count t n)"
  by (simp add: target_chunk_count_def)

lemma ceil_count:
  assumes "0 < (n :: int)" "0 < t" "(t + n - 1) div n \<le> cs"
  shows "0 < cs" "(t + cs - 1) div cs \<le> n"
proof -
  have "1 \<le> (t + n - 1) div n" using assms(1,2) le_div_iff_int [of n 1 "t + n - 1"] by simp
  then show cs: "0 < cs" using assms(3) by linarith
  have "t + n - 1 < (cs + 1) * n"
    using assms(1,3) le_div_iff_int [of n "cs + 1" "t + n - 1"] by linarith
  then have "t + cs - 1 < (n + 1) * cs" using assms(1) cs by (simp add: algebra_simps)
  then show "(t + cs - 1) div cs \<le> n"
    using cs le_div_iff_int [of cs "n + 1" "t + cs - 1"] by linarith
qed

text \<open>
  the chunk size chosen for a new download always gives a usable plan. For any requested size of
  0 to 1024 MiB and any length up to 2^62 bytes, the plan is built, tiles the file, has at least one
  and at most the target number of chunks (one up to 128 MiB, never more than six), and respects the
  requested size as a lower bound of the chunk size.
\<close>

theorem chosen_chunk_size_plans:
  assumes "0 < tot" and "tot \<le> 2 ^ 62" and "0 \<le> reqMB" and "reqMB \<le> 1024"
  shows "\<exists>p. build_plan tot (choose_chunk_size tot reqMB n) = Some (Inr p) \<and>
     tiling 0 0 tot (map chunk_geom (pl_chunks p)) \<and>
     pl_chunks p \<noteq> [] \<and> int (length (pl_chunks p)) \<le> target_chunk_count tot n \<and>
     reqMB * MiB \<le> choose_chunk_size tot reqMB n"
proof -
  define t where "t = target_chunk_count tot n"
  define capped where "capped = (tot + t - 1) div t"
  define cs where "cs = choose_chunk_size tot reqMB n"
  have t: "1 \<le> t" "t \<le> 6" "tot \<le> 134217728 \<longrightarrow> t = 1" "134217728 < tot \<longrightarrow> 3 \<le> t"
    using target_chunk_count_range [of tot n] by (simp_all add: t_def)
  have req: "i64 (reqMB * 1024 * 1024) = reqMB * 1048576" using assms(3,4) by (simp add: i64_id in_i64_def)
  have cs: "cs = (if reqMB = 0 \<or> reqMB * 1048576 < capped then capped else reqMB * 1048576)"
    using assms t unfolding cs_def choose_chunk_size_def Let_def req t_def [symmetric]
    by (auto simp: capped_def i64_id in_i64_def)
  have "0 \<le> capped" using assms(1) t(1) by (simp add: capped_def pos_imp_zdiv_nonneg_iff)
  then have ge: "capped \<le> cs" "reqMB * 1048576 \<le> cs" using assms(3) unfolding cs by auto
  note c = ceil_count [of t tot cs]
  have pos: "0 < cs" and cnt: "(tot + cs - 1) div cs \<le> t"
    using c assms(1) t(1) ge(1) by (auto simp: capped_def)
  have le: "cs \<le> max capped 1073741824" using assms(4) by (auto simp: cs)
  have cap: "capped \<le> max 134217728 (tot div 3 + 6)"
  proof (cases "tot \<le> 134217728")
    case True
    then show ?thesis using t(3) by (simp add: capped_def)
  next
    case False
    then have "3 \<le> t" using t(4) by simp
    have "capped \<le> (tot + t - 1) div 3"
      unfolding capped_def using \<open>3 \<le> t\<close> assms(1) t(1) by (intro zdiv_mono2) auto
    also have "\<dots> \<le> tot div 3 + 6" using t(2) by linarith
    finally show ?thesis by simp
  qed
  have "tot div 3 \<le> tot" using assms(1) by simp
  then have "tot + cs \<le> max_i64 + 1" using le cap assms(2) by (simp add: max_def split: if_splits)
  from build_plan_ok [OF pos _ this] assms(1) obtain p where
    p: "build_plan tot cs = Some (Inr p)" "tiling 0 0 tot (map chunk_geom (pl_chunks p))"
      "int (length (pl_chunks p)) = chunk_count tot cs"
    by auto
  have "pl_chunks p \<noteq> []" using p(2) assms(1) by (cases "pl_chunks p") auto
  moreover have "chunk_count tot cs = (tot + cs - 1) div cs"
    using chunk_count_pos [OF pos] assms(1,2) by simp
  ultimately show ?thesis using p cnt ge(2) by (intro exI [of _ p]) (simp add: cs_def t_def MiB_def)
qed

theorem chosen_chunk_size_plans_witness:
  "\<exists>p. build_plan 300000000 (choose_chunk_size 300000000 0 2) = Some (Inr p) \<and>
     int (length (pl_chunks p)) \<le> 3"
proof -
  have "target_chunk_count 300000000 2 = 3" by code_simp
  then show ?thesis using chosen_chunk_size_plans [of 300000000 0 2] by auto
qed

section \<open>Strict split\<close>

lemma mset_map_sort: "mset (map f (sort_by_index cs)) = mset (map f cs)"
  by (simp add: sort_by_index_def)

definition cable_count :: "(int64, string) gomap \<Rightarrow> int64 list \<Rightarrow> int" where
  "cable_count plan ixs = int (length (filter (\<lambda>i. map_of plan i = Some ''cable'') ixs))"

lemma strict_loop_frame:
  "i \<notin> set (map cs_index cs) \<Longrightarrow> map_of (strict_loop pct a b cs plan) i = map_of plan i"
  by (induction cs arbitrary: a b plan) (auto simp: Let_def update_conv')

lemma strict_loop_channels:
  "i \<in> set (map cs_index cs) \<Longrightarrow>
   map_of (strict_loop pct a b cs plan) i \<in> {Some ''cable'', Some ''wifi''}"
proof (induction cs arbitrary: a b plan)
  case (Cons c cs)
  show ?case
  proof (cases "i \<in> set (map cs_index cs)")
    case True
    then show ?thesis using Cons.IH by (simp add: Let_def)
  next
    case False
    then have "i = cs_index c" using Cons.prems by auto
    then show ?thesis using False by (simp add: Let_def strict_loop_frame update_conv')
  qed
qed simp

lemma strict_loop_balance:
  "distinct (map cs_index cs) \<Longrightarrow> 0 < pct \<Longrightarrow> pct < 100 \<Longrightarrow> - 50 \<le> a \<Longrightarrow> a \<le> 50 \<Longrightarrow> k \<le> length cs \<Longrightarrow>
   \<exists>a'. - 50 \<le> a' \<and> a' \<le> 50 \<and>
     a' = a + int k * pct - 100 * cable_count (strict_loop pct a (- a) cs plan) (map cs_index (take k cs))"
proof (induction cs arbitrary: a plan k)
  case Nil
  then show ?case by (intro exI [of _ a]) (simp add: cable_count_def)
next
  case (Cons c cs)
  show ?case
  proof (cases k)
    case 0
    then show ?thesis using Cons.prems by (intro exI [of _ a]) (simp add: cable_count_def)
  next
    case (Suc k')
    let ?cable = "100 - pct - a \<le> a + pct"
    define a1 where "a1 = (if ?cable then a + pct - 100 else a + pct)"
    define ch where "ch = (if ?cable then ''cable'' else ''wifi'')"
    define plan1 where "plan1 = AList.update (cs_index c) ch plan"
    have e: "strict_loop pct a (- a) (c # cs) plan = strict_loop pct a1 (- a1) cs plan1"
      by (auto simp: a1_def ch_def plan1_def Let_def algebra_simps)
    have b: "- 50 \<le> a1" "a1 \<le> 50" using Cons.prems by (auto simp: a1_def)
    have d: "distinct (map cs_index cs)" "k' \<le> length cs" using Cons.prems Suc by auto
    obtain a' where a': "- 50 \<le> a'" "a' \<le> 50"
      "a' = a1 + int k' * pct - 100 * cable_count (strict_loop pct a1 (- a1) cs plan1) (map cs_index (take k' cs))"
      using Cons.IH [OF d(1) Cons.prems(2,3) b d(2), of plan1] by blast
    have "map_of (strict_loop pct a1 (- a1) cs plan1) (cs_index c) = Some ch"
      using Cons.prems(1) by (subst strict_loop_frame) (auto simp: plan1_def update_conv')
    then have "cable_count (strict_loop pct a1 (- a1) cs plan1) (map cs_index (take k (c # cs))) =
        (if ?cable then 1 else 0) + cable_count (strict_loop pct a1 (- a1) cs plan1) (map cs_index (take k' cs))"
      by (simp add: cable_count_def Suc ch_def)
    then have "a' = a + int k * pct - 100 *
        cable_count (strict_loop pct a (- a) (c # cs) plan) (map cs_index (take k (c # cs)))"
      unfolding e a'(3) a1_def by (auto simp: Suc algebra_simps)
    with a'(1,2) show ?thesis by blast
  qed
qed

text \<open>
  C36: the strict split honours the configured share at every point of the transfer. For distinct
  chunk indices, every chunk is planned for exactly one of the two channels, and among the first k
  chunks in index order the number planned for the cable differs from the configured percentage of k
  by at most half a chunk.
\<close>

theorem strict_split_fair:
  assumes "distinct (map cs_index cs)" and "0 < pct" and "pct < 100" and "k \<le> length cs"
  shows "\<bar>100 * cable_count (build_strict_plan cs pct) (map cs_index (take k (sort_by_index cs))) - int k * pct\<bar> \<le> 50 \<and>
     list_all (\<lambda>c. map_of (build_strict_plan cs pct) (cs_index c) \<in> {Some ''cable'', Some ''wifi''}) cs"
proof -
  let ?s = "sort_by_index cs"
  have d: "distinct (map cs_index ?s)" "k \<le> length ?s"
    using assms(1,4) sort_by_index_props [of cs] by (auto simp: mset_eq_imp_distinct_iff [OF mset_map_sort])
  have e: "build_strict_plan cs pct = strict_loop pct 0 (- 0) ?s []"
    using assms(2,3) by (simp add: build_strict_plan_def)
  obtain a' where "- 50 \<le> a'" "a' \<le> 50"
    "a' = 0 + int k * pct - 100 * cable_count (build_strict_plan cs pct) (map cs_index (take k ?s))"
    using strict_loop_balance [OF d(1) assms(2,3) _ _ d(2), of 0 "[]"] unfolding e by auto
  moreover have "map_of (build_strict_plan cs pct) (cs_index c) \<in> {Some ''cable'', Some ''wifi''}"
    if "c \<in> set cs" for c
    unfolding e using that sort_by_index_props(2) by (intro strict_loop_channels) auto
  ultimately show ?thesis unfolding list_all_iff by auto
qed

definition demo_chunks :: "chunk_state list" where
  "demo_chunks = map (\<lambda>i. zero_chunk\<lparr>cs_index := i, cs_size := 1, cs_offset := i, cs_status := StatusPending\<rparr>) [0, 1, 2, 3]"

theorem strict_split_fair_witness:
  "\<bar>100 * cable_count (build_strict_plan demo_chunks 75) [0, 1, 2, 3] - 300\<bar> \<le> 50 \<and>
   build_strict_plan demo_chunks 75 = [(0, ''cable''), (1, ''cable''), (2, ''wifi''), (3, ''cable'')]"
proof -
  have "distinct (map cs_index demo_chunks)" "map cs_index (take 4 (sort_by_index demo_chunks)) = [0, 1, 2, 3]"
    "length demo_chunks = 4" "build_strict_plan demo_chunks 75 = [(0, ''cable''), (1, ''cable''), (2, ''wifi''), (3, ''cable'')]"
    by code_simp+
  with strict_split_fair [of demo_chunks 75 4] show ?thesis by simp
qed

section \<open>Retry and telemetry lemmas\<close>

lemma retry_pending_iff:
  "c \<in> set (retry_pending mf) \<longleftrightarrow> c \<in> set (mf_chunks mf) \<and>
     (cs_status c = StatusPending \<or> cs_status c = StatusFailed \<and> cs_attempts c < max_chunk_attempts)"
  by (auto simp: retry_pending_def sort_by_index_props)

lemma part_name_plain: "plain (part_name i)"
proof -
  have "list_all (\<lambda>x. \<not> is_sep x) (itoa06 v)" for v
    using itoa06_chars [of _ v] by (auto simp: list_all_iff is_sep_def is_digit_def bs_def dest!: itoa06_chars)
  moreover have "list_all (\<lambda>x. \<not> is_sep x) ''chunk''" "list_all (\<lambda>x. \<not> is_sep x) ''.part''" by code_simp+
  ultimately show ?thesis by (auto simp: part_name_def plain_def)
qed

lemma session_dir_nonempty: "session_dir_for j f \<noteq> ''''"
  by (simp add: session_dir_for_def)

lemma part_path_inject:
  assumes "0 \<le> i" "i < max_i64" "0 \<le> j" "j < max_i64"
  shows "part_path_for jid f i = part_path_for jid f j \<longleftrightarrow> i = j"
proof
  assume "part_path_for jid f i = part_path_for jid f j"
  then have "part_name i = part_name j"
    unfolding part_path_for_def
    by (rule join_path_inject [OF session_dir_nonempty part_name_plain part_name_plain])
  then show "i = j" using assms by (simp add: part_name_def itoa06_inject i64_id in_i64_def)
qed simp

lemma part_path_suffix: "\<exists>front. part_path_for jid f i = front @ ''.part''"
  using join_path_suffix [OF session_dir_nonempty part_name_plain, of jid f i]
  by (auto simp: part_path_for_def part_name_def)

end
