(* ===== verification/Merge.thy ===== *)
theory Merge
  imports DownloadPlan
begin

text \<open>
  \<open>mergeParts\<close> of \<open>internal/download/manager.go\<close>: the parts of a finished download are concatenated
  into a temporary file beside the final path, checked, and published by one rename. Every call may
  fail (theory FileSys).
\<close>

definition expect_absent :: "string \<Rightarrow> unit io" where
  "expect_absent p =
     io_bind (fs_lstat p) (\<lambda>n. if n \<noteq> None then io_fail ''final output already exists'' else io_return ())"

definition expect_size :: "string \<Rightarrow> int64 \<Rightarrow> unit io" where
  "expect_size p tot =
     io_bind (fs_lstat p) (\<lambda>n.
       case n of
         Some (File b) \<Rightarrow> if int (length b) \<noteq> tot then io_fail ''final size mismatch'' else io_return ()
       | Some _ \<Rightarrow> io_fail ''final size mismatch''
       | None \<Rightarrow> io_fail ''not exist'')"

definition fill_temp :: "string \<Rightarrow> string \<Rightarrow> manifest \<Rightarrow> unit io" where
  "fill_temp tmp finalPath mf =
     io_bind (io_on_error (copy_parts (\<lambda>c. part_path_for (mf_transfer_id mf) finalPath (cs_index c)) tmp
       (mf_chunks mf)) fs_step) (\<lambda>_.
     io_bind (io_on_error fs_step fs_step) (\<lambda>_.
     io_bind fs_step (\<lambda>_.
     io_bind (expect_size tmp (mf_total_bytes mf)) (\<lambda>_.
     expect_absent finalPath))))"

definition fill_and_publish :: "string \<Rightarrow> string \<Rightarrow> manifest \<Rightarrow> unit io" where
  "fill_and_publish tmp finalPath mf =
     io_bind (fill_temp tmp finalPath mf) (\<lambda>_. fs_rename tmp finalPath)"

definition merge_parts :: "string \<Rightarrow> manifest \<Rightarrow> unit io" where
  "merge_parts finalPath mf =
     (let dir = dir_name finalPath in
      io_bind (fs_mkdir_all dir) (\<lambda>_.
      io_bind (expect_absent finalPath) (\<lambda>_.
      io_bind (fs_create_temp dir ''.multisend-merge-'' ''.tmp'') (\<lambda>tmp.
      io_defer (fill_and_publish tmp finalPath mf) (fs_remove tmp)))))"

section \<open>Lemmas\<close>

abbreviation part_of :: "manifest \<Rightarrow> string \<Rightarrow> chunk_state \<Rightarrow> string" where
  "part_of mf f c \<equiv> part_path_for (mf_transfer_id mf) f (cs_index c)"

lemma temp_name_suffix: "suffix ''.tmp'' (temp_name d a ''.tmp'' n)"
  by (auto simp: temp_name_def suffix_def)

lemma part_not_tmp: "\<not> suffix ''.tmp'' (part_path_for i f k)"
proof
  assume "suffix ''.tmp'' (part_path_for i f k)"
  moreover obtain front where "part_path_for i f k = front @ ''.part''"
    using part_path_suffix by blast
  ultimately have "suffix ''.tmp'' (front @ ''.part'')" by simp
  then obtain q where "front @ ''.part'' = q @ ''.tmp''" by (auto simp: suffix_def)
  then have "last (front @ ''.part'') = last (q @ ''.tmp'')" by simp
  then show False by simp
qed

lemma expect_absent_Inr: "expect_absent p w = (Inr u, w') \<Longrightarrow> node_at w p = None \<and> w' = tick w"
  by (auto simp: expect_absent_def io_bind_Inr fs_lstat_def io_fail_def io_return_def split: if_splits)

lemma expect_size_Inr:
  "expect_size p tot w = (Inr u, w') \<Longrightarrow> w' = tick w \<and> (\<exists>b. node_at w p = Some (File b) \<and> int (length b) = tot)"
  by (auto simp: expect_size_def io_bind_Inr fs_lstat_def io_fail_def io_return_def
      split: if_splits option.splits node.splits)

lemma fs_step_Inr: "fs_step w = (Inr u, w') \<Longrightarrow> w' = tick w"
  by (auto simp: fs_step_def split: if_splits)

lemma on_error_Inr: "io_on_error f g w = (Inr x, w') \<Longrightarrow> f w = (Inr x, w')"
  by (auto simp: io_on_error_def split: prod.splits sum.splits)

lemma expect_touches: "touches {} (expect_absent p)" "touches {} (expect_size p tot)"
  unfolding expect_absent_def expect_size_def
  by (intro touches_bind; auto split: option.splits node.splits)+

interpretation merge_out: part_files "\<lambda>c. part_path_for i f (cs_index c)" "temp_name d a ''.tmp'' n"
  using part_not_tmp temp_name_suffix by unfold_locales metis

lemma fill_temp_touches:
  assumes "tmp = temp_name d a ''.tmp'' n"
  shows "touches {tmp} (fill_temp tmp f mf)"
proof -
  have "touches {tmp} fs_step" "touches {tmp} (expect_size tmp t)" "touches {tmp} (expect_absent f)" for t
    by (rule touches_mono [of "{}"], simp_all add: expect_touches)+
  then show ?thesis unfolding fill_temp_def
    using merge_out.copy_touches [of d a n "mf_transfer_id mf" f "mf_chunks mf"]
    by (intro touches_intros) (simp_all add: assms)
qed

lemma fill_temp_spec:
  assumes "fill_temp tmp f mf w = (Inr u, w')" and "tmp = temp_name d a ''.tmp'' n"
    and "node_at w tmp = Some (File '''')"
  shows "node_at w' f = None \<and> (\<exists>bs. list_all2 (part_in w (part_of mf f)) (mf_chunks mf) bs \<and>
     node_at w' tmp = Some (File (concat bs)) \<and> int (length (concat bs)) = mf_total_bytes mf)"
proof -
  obtain w1 w2 w3 w4 where
    c: "copy_parts (part_of mf f) tmp (mf_chunks mf) w = (Inr (), w1)"
    and s: "w2 = tick w1" "w3 = tick w2"
    and z: "expect_size tmp (mf_total_bytes mf) w3 = (Inr (), w4)" "expect_absent f w4 = (Inr (), w')"
    using assms(1) unfolding fill_temp_def
    by (auto simp: io_bind_Inr dest!: on_error_Inr fs_step_Inr)
  obtain bs where bs: "list_all2 (part_in w (part_of mf f)) (mf_chunks mf) bs"
    "node_at w1 tmp = Some (File (concat bs))"
    using merge_out.copy_spec [of "mf_transfer_id mf" f d a n "mf_chunks mf" w "()" w1 "''''"]
      c assms(2,3) by auto
  show ?thesis
    using bs s expect_size_Inr [OF z(1)] expect_absent_Inr [OF z(2)] by (intro conjI exI [of _ bs]) auto
qed

lemma publish_spec:
  assumes "fill_and_publish tmp f mf w = (r, w')" and "tmp = temp_name d a ''.tmp'' n" and "tmp \<noteq> f"
    and "node_at w tmp = Some (File '''')"
  shows "(case r of
      Inl _ \<Rightarrow> node_at w' f = node_at w f
    | Inr _ \<Rightarrow> node_at w f = None \<and> (\<exists>bs. list_all2 (part_in w (part_of mf f)) (mf_chunks mf) bs \<and>
        node_at w' f = Some (File (concat bs)) \<and> int (length (concat bs)) = mf_total_bytes mf)) \<and>
    (\<forall>p. p \<noteq> f \<and> p \<noteq> tmp \<longrightarrow> node_at w' p = node_at w p)"
proof -
  obtain r1 w1 where 1: "fill_temp tmp f mf w = (r1, w1)" by force
  have f1: "node_at w1 p = node_at w p" if "p \<noteq> tmp" for p
    using touchesD [OF fill_temp_touches [OF assms(2)] 1] that by auto
  show ?thesis
  proof (cases r1)
    case (Inl e)
    then show ?thesis using 1 assms(1,3) f1 by (auto simp: fill_and_publish_def io_bind_def)
  next
    case (Inr u)
    have 2: "fs_rename tmp f w1 = (r, w')" using assms(1) 1 Inr by (simp add: fill_and_publish_def io_bind_def)
    note s = fill_temp_spec [OF 1 [unfolded Inr] assms(2,4)]
    show ?thesis
    proof (cases r)
      case (Inl e)
      then show ?thesis using fs_rename_Inl 2 f1 assms(3) by auto
    next
      case r: (Inr u')
      show ?thesis using fs_rename_Inr [OF 2 [unfolded r]] s f1 assms(3) r by auto
    qed
  qed
qed

text \<open>What a merge leaves behind, whatever fails.\<close>

lemma merge_parts_spec:
  assumes "merge_parts f mf w = (r, w')" and "\<not> suffix ''.tmp'' f" and "dir_name f \<noteq> f"
  shows "(case r of
      Inl _ \<Rightarrow> node_at w' f = node_at w f
    | Inr _ \<Rightarrow> node_at w f = None \<and> (\<exists>bs. list_all2 (part_in w' (part_of mf f)) (mf_chunks mf) bs \<and>
        node_at w' f = Some (File (concat bs)) \<and> int (length (concat bs)) = mf_total_bytes mf)) \<and>
    (\<forall>p. p \<noteq> f \<and> (p = dir_name f \<longrightarrow> node_at w p \<noteq> None) \<and> \<not> suffix ''.tmp'' p \<longrightarrow>
       node_at w' p = node_at w p)"
proof -
  let ?d = "dir_name f"
  obtain r1 w1 where 1: "fs_mkdir_all ?d w = (r1, w1)" by force
  have f1: "node_at w1 p = node_at w p" if "p = ?d \<longrightarrow> node_at w p \<noteq> None" for p
    using 1 that by (auto simp: fs_mkdir_all_def split: if_splits option.splits node.splits)
  obtain r2 w2 where 2: "expect_absent f w1 = (r2, w2)" by force
  have f2: "node_at w2 p = node_at w1 p" for p using touchesD [OF expect_touches(1) 2] by simp
  obtain r3 w3 where 3: "fs_create_temp ?d ''.multisend-merge-'' ''.tmp'' w2 = (r3, w3)" by force
  consider (early) e where "r = Inl e" "w' = w1 \<or> w' = w2 \<or> r3 = Inl e \<and> w' = w3"
    | (late) tmp w4 where "r3 = Inr tmp" "fill_and_publish tmp f mf w3 = (r, w4)" "w' = snd (fs_remove tmp w4)"
      "r1 = Inr ()" "r2 = Inr ()"
    using assms(1) 1 2 3
    by (auto simp: merge_parts_def Let_def io_bind_def io_defer_def split: sum.splits prod.splits)
  then show ?thesis
  proof cases
    case early
    then show ?thesis using f1 f2 assms(3) fs_create_temp_Inl [of _ _ _ w2 e w3] 3 by auto
  next
    case late
    note t = fs_create_temp_Inr [OF 3 [unfolded late(1)]]
    have tmp: "suffix ''.tmp'' tmp" using t temp_name_suffix by simp
    then have ne: "tmp \<noteq> f" "part_of mf f c \<noteq> tmp" for c using assms(2) part_not_tmp by metis+
    have f5: "node_at w' p = node_at w4 p" if "p \<noteq> tmp" for p
      using touchesD [OF touches_calls(6) [of tmp], of w4 "fst (fs_remove tmp w4)" w' p] that late(3) by simp
    have f6: "node_at w3 p = node_at w p" if "p \<noteq> tmp" "p = ?d \<longrightarrow> node_at w p \<noteq> None" for p
      using t f1 [OF that(2)] f2 that by simp
    note s = publish_spec [OF late(2) conjunct1 [OF t] ne(1)]
    show ?thesis
    proof (cases r)
      case (Inl e)
      then show ?thesis using s t f5 f6 ne assms(3) tmp by auto
    next
      case (Inr u)
      then obtain bs where bs: "list_all2 (part_in w3 (part_of mf f)) (mf_chunks mf) bs"
        "node_at w4 f = Some (File (concat bs))" "int (length (concat bs)) = mf_total_bytes mf"
        "node_at w3 f = None" using s t by auto
      have "part_in w' (part_of mf f) c b" if "part_in w3 (part_of mf f) c b" for c b
        using that s t f5 [OF ne(2) [of c]] bs(4) ne(2) [of c] by (cases "part_of mf f c = f") (auto simp: part_in_def)
      then have "list_all2 (part_in w' (part_of mf f)) (mf_chunks mf) bs"
        using bs(1) by (auto elim: list_all2_mono)
      then show ?thesis using Inr bs s t f5 f6 ne tmp assms(3) by auto
    qed
  qed
qed

lemma slices_concat:
  assumes "wf_plan mf" and "int (length source) = mf_total_bytes mf"
  shows "concat (map (\<lambda>c. file_slice source (cs_geom c)) (mf_chunks mf)) = source"
  using tiling_concat [of 0 0 "mf_total_bytes mf" "map cs_geom (mf_chunks mf)" source] assms
  by (simp add: wf_plan_def comp_def)

text \<open>
  C26: a merge publishes the whole file or nothing. Whatever call fails: when the merge succeeds, the
  final path, which was free before, holds exactly the source, provided each part file holds its file_slice
  of the source and the manifest's plan tiles it; when it fails, the final path is as it was before;
  and no other file is touched but temporary ones, so the parts survive for another attempt.
\<close>

theorem merge_delivers_source:
  assumes "merge_parts f mf w = (r, w')" and "\<not> suffix ''.tmp'' f" and "dir_name f \<noteq> f"
    and "wf_plan mf" and "int (length source) = mf_total_bytes mf"
    and parts: "\<forall>c\<in>set (mf_chunks mf).
      node_at w (part_of mf f c) = Some (File (file_slice source (cs_geom c)))"
  shows "(case r of Inr _ \<Rightarrow> node_at w f = None \<and> node_at w' f = Some (File source)
                  | Inl _ \<Rightarrow> node_at w' f = node_at w f) \<and>
     (\<forall>c\<in>set (mf_chunks mf). node_at w' (part_of mf f c) = Some (File (file_slice source (cs_geom c))))"
proof -
  note s = merge_parts_spec [OF assms(1-3)]
  have keep: "node_at w' (part_of mf f c) = Some (File (file_slice source (cs_geom c)))" if "c \<in> set (mf_chunks mf)" for c
  proof (cases "part_of mf f c = f")
    case True
    then show ?thesis using s parts that by (cases r) auto
  next
    case False
    then show ?thesis using s parts that part_not_tmp by (metis option.distinct(1))
  qed
  show ?thesis
  proof (cases r)
    case (Inr u)
    then obtain bs where bs: "list_all2 (part_in w' (part_of mf f)) (mf_chunks mf) bs"
      "node_at w' f = Some (File (concat bs))" "node_at w f = None" using s by auto
    have "bs = map (\<lambda>c. file_slice source (cs_geom c)) (mf_chunks mf)"
      using bs(1) keep by (auto simp: list_all2_conv_all_nth part_in_def intro!: nth_equalityI)
    then show ?thesis using bs keep Inr slices_concat [OF assms(4,5)] by simp
  qed (use s keep in simp)
qed

definition demo_plan :: manifest where
  "demo_plan = demo_manifest\<lparr>mf_transfer_id := ''dl-1'', mf_total_bytes := 4,
     mf_chunks := [zero_chunk\<lparr>cs_size := 2, cs_status := StatusDone\<rparr>,
       zero_chunk\<lparr>cs_index := 1, cs_offset := 2, cs_size := 2, cs_status := StatusDone\<rparr>]\<rparr>"

definition demo_parts :: "(nat \<Rightarrow> bool) \<Rightarrow> world" where
  "demo_parts fault = demo_world fault
     [(part_path_for ''dl-1'' demo_path 0, File ''ab''), (part_path_for ''dl-1'' demo_path 1, File ''cd'')]"

theorem merge_delivers_source_witness:
  "node_at (snd (merge_parts demo_path demo_plan (demo_parts (\<lambda>n. False)))) demo_path = Some (File ''abcd'') \<and>
   node_at (snd (merge_parts demo_path demo_plan (demo_parts (\<lambda>n. n = 6)))) demo_path = None"
proof -
  have h: "\<not> suffix ''.tmp'' demo_path" "dir_name demo_path \<noteq> demo_path" "wf_plan demo_plan"
    "int (length ''abcd'') = mf_total_bytes demo_plan"
    "\<forall>c\<in>set (mf_chunks demo_plan). node_at (demo_parts fault) (part_of demo_plan demo_path c) = Some (File (file_slice ''abcd'' (cs_geom c)))" for fault
    by code_simp+
  have "fst (merge_parts demo_path demo_plan (demo_parts (\<lambda>n. False))) = Inr ()"
    "fst (merge_parts demo_path demo_plan (demo_parts (\<lambda>n. n = 6))) = Inl ''write failed''"
    "node_at (demo_parts (\<lambda>n. n = 6)) demo_path = None"
    by code_simp+
  then show ?thesis
    using merge_delivers_source [OF prod.collapse [symmetric] h, of "\<lambda>n. False"]
      merge_delivers_source [OF prod.collapse [symmetric] h, of "\<lambda>n. n = 6"]
    by simp
qed

end
