(* ===== verification/DownloadRun.thy ===== *)
theory DownloadRun
  imports Merge
begin

text \<open>
  \<open>run\<close> of \<open>internal/download/manager.go\<close>: the workers of one download. The code between two lock
  operations is one step of the relation \<open>run_step\<close>, so that every interleaving of the workers, of
  the periodic saves and of a cancellation is a sequence of steps. A worker takes a snapshot of the
  pending chunks under the lock, chooses one outside the lock, marks it under the lock, downloads it
  outside the lock into its part file (truncation, then writes at its own file position), and reports
  under the lock. The HTTP server sends the right bytes, or the request fails at any point. What the
  channels measure (the statistics behind the scheduler's rows) is left open.
\<close>

section \<open>State\<close>

record channel_status =
  cst_state :: string
  cst_interface_name :: string
  cst_local_ip :: string
  cst_bytes_sent :: int64
  cst_mbps_now :: rat
  cst_mbps_avg :: rat
  cst_failures :: int64
  cst_last_error :: string

datatype worker =
    Idle
  | Snapped "chunk_state list" "(string, int) gomap" "local_channel list"
  | Picked int64 string
  | Fetching chunk_state string "nat option" \<comment> \<open>the file position once the part file is open\<close>
  | Finished

record run_env =
  re_job_id :: string
  re_output :: string
  re_source :: bytes
  re_limit :: int
  re_strict :: "(int64, string) gomap option"
  re_stall_limit :: int

record dl_run =
  dr_mf :: manifest
  dr_world :: world
  dr_workers :: "worker list"
  dr_canceled :: bool
  dr_in_flight :: "(string, int) gomap"
  dr_done_bytes :: int64
  dr_sched :: weighted_scheduler
  dr_saved :: manifest \<comment> \<open>the manifest on disk\<close>
  dr_status :: string
  dr_message :: string

section \<open>Critical sections\<close>

text \<open>\<open>channelStates\<close>.\<close>

definition channel_states :: "local_channel list \<Rightarrow> (string, int) gomap \<Rightarrow> (string, channel_status) gomap \<Rightarrow> channel list" where
  "channel_states channels inFlight stats =
     map (\<lambda>(nm, ip).
        let row = \<lparr>chn_name = nm, chn_active = True, chn_in_flight = gomap_get inFlight nm 0,
                   chn_mbps30s = 0, chn_failures = 0, chn_last_error = ''''\<rparr> in
        case map_of stats nm of
          None \<Rightarrow> row
        | Some cs \<Rightarrow> row\<lparr>chn_mbps30s := cst_mbps_avg cs, chn_failures := cst_failures cs,
                          chn_last_error := cst_last_error cs\<rparr>) channels"

definition available_channels :: "local_channel list \<Rightarrow> (string, int) gomap \<Rightarrow> int \<Rightarrow> local_channel list" where
  "available_channels channels snapshot limit = filter (\<lambda>c. gomap_get snapshot (fst c) 0 < limit) channels"

text \<open>The choice made outside the lock: scheduler, then the strict plan. \<open>None\<close>: sleep and try again.\<close>

definition dispatch_choice ::
  "gotime \<Rightarrow> run_env \<Rightarrow> weighted_scheduler \<Rightarrow> chunk_state list \<Rightarrow> channel list \<Rightarrow> (string, int) gomap \<Rightarrow>
   (int64 \<times> string) option \<times> weighted_scheduler" where
  "dispatch_choice now env sched pending rows snapshot =
     (case next_chunk now sched pending rows of
        ((idx, chName, ok), sched') \<Rightarrow>
          (if \<not> ok then None
           else case re_strict env of
             None \<Rightarrow> Some (idx, chName)
           | Some plan \<Rightarrow>
               (case pick_strict_pending pending chName plan of
                  Some pick \<Rightarrow> Some (pick, chName)
                | None \<Rightarrow>
                    let other = (if chName = ''wifi'' then ''cable'' else ''wifi'') in
                    if gomap_get snapshot other 0 < re_limit env
                    then map_option (\<lambda>alt. (alt, other)) (pick_strict_pending pending other plan)
                    else None),
           sched'))"

definition set_worker :: "nat \<Rightarrow> worker \<Rightarrow> dl_run \<Rightarrow> dl_run" where
  "set_worker k wk s = s\<lparr>dr_workers := (dr_workers s)[k := wk]\<rparr>"

definition bump_in_flight :: "string \<Rightarrow> int \<Rightarrow> dl_run \<Rightarrow> dl_run" where
  "bump_in_flight ch d s = s\<lparr>dr_in_flight := AList.update ch (gomap_get (dr_in_flight s) ch 0 + d) (dr_in_flight s)\<rparr>"

definition start_fetch :: "gotime \<Rightarrow> nat \<Rightarrow> int64 \<Rightarrow> string \<Rightarrow> dl_run \<Rightarrow> dl_run" where
  "start_fetch now k idx ch s =
     (case mark_and_get_sending now idx ch (dr_mf s) of
        (None, mf) \<Rightarrow> set_worker k Idle s
      | (Some cst, mf) \<Rightarrow> bump_in_flight ch 1 (set_worker k (Fetching cst ch None) (s\<lparr>dr_mf := mf\<rparr>)))"

definition requeue_failed :: "int64 \<Rightarrow> string \<Rightarrow> manifest \<Rightarrow> manifest" where
  "requeue_failed idx err mf =
     (let mf = mark_failed idx err mf in
      case get_chunk mf idx of
        None \<Rightarrow> mf
      | Some c \<Rightarrow> if cs_attempts c < max_chunk_attempts
                  then upd_chunk idx (\<lambda>c. c\<lparr>cs_status := StatusPending\<rparr>) mf else mf)"

definition leave_flight :: "string \<Rightarrow> dl_run \<Rightarrow> dl_run" where
  "leave_flight ch s = (if 0 < gomap_get (dr_in_flight s) ch 0 then bump_in_flight ch (- 1) s else s)"

definition fetch_failed :: "gotime \<Rightarrow> string \<Rightarrow> nat \<Rightarrow> chunk_state \<Rightarrow> string \<Rightarrow> dl_run \<Rightarrow> dl_run" where
  "fetch_failed now err k cst ch s =
     (let s = leave_flight ch s in
      set_worker k Idle (s\<lparr>dr_mf := requeue_failed (cs_index cst) err (dr_mf s),
        dr_sched := report_failure now ch (dr_sched s)\<rparr>))"

definition fetch_done :: "gotime \<Rightarrow> int \<Rightarrow> nat \<Rightarrow> chunk_state \<Rightarrow> string \<Rightarrow> dl_run \<Rightarrow> dl_run" where
  "fetch_done now dur k cst ch s =
     (let s = leave_flight ch s in
      set_worker k Idle (s\<lparr>dr_mf := mark_done now (cs_index cst) (cs_size cst) '''' (dr_mf s),
        dr_done_bytes := i64 (dr_done_bytes s + cs_size cst),
        dr_sched := report_success ch (cs_size cst) dur (dr_sched s)\<rparr>))"

text \<open>\<open>downloadChunkVia\<close>, the file side: create (truncate), then write at the descriptor's own position.\<close>

definition pwrite :: "bytes \<Rightarrow> nat \<Rightarrow> bytes \<Rightarrow> bytes" where
  "pwrite b k d = take k (b @ replicate (k - length b) (CHR 0x00)) @ d @ drop (k + length d) b"

definition write_at :: "string \<Rightarrow> nat \<Rightarrow> bytes \<Rightarrow> world \<Rightarrow> world" where
  "write_at p k d w =
     (case node_at w p of Some (File b) \<Rightarrow> put_node p (File (pwrite b k d)) (tick w) | _ \<Rightarrow> tick w)"

definition part_path :: "run_env \<Rightarrow> chunk_state \<Rightarrow> string" where
  "part_path env c = part_path_for (re_job_id env) (re_output env) (cs_index c)"

text \<open>After \<open>wg.Wait\<close>.\<close>

definition run_finish :: "run_env \<Rightarrow> dl_run \<Rightarrow> dl_run" where
  "run_finish env s =
     (if dr_canceled s then
        s\<lparr>dr_mf := mark_canceled_pending (dr_mf s), dr_status := ''canceled'', dr_message := ''canceled''\<rparr>
      else if \<not> all_done (dr_mf s) then
        s\<lparr>dr_status := ''failed'', dr_message := ''download incomplete''\<rparr>
      else case merge_parts (re_output env) (dr_mf s) (dr_world s) of
        (Inl e, w) \<Rightarrow> s\<lparr>dr_world := w, dr_status := ''failed'', dr_message := e\<rparr>
      | (Inr _, w) \<Rightarrow> s\<lparr>dr_world := w, dr_status := ''done'', dr_message := ''''\<rparr>)"

definition run_start :: "run_env \<Rightarrow> bool \<Rightarrow> nat \<Rightarrow> manifest \<Rightarrow> world \<Rightarrow> dl_run" where
  "run_start env isResume workers mf w =
     (let mf = (if isResume then activate_resume 3 mf else mf) in
      \<lparr>dr_mf = mf, dr_world = w, dr_workers = replicate workers Idle, dr_canceled = False,
       dr_in_flight = [(''cable'', 0), (''wifi'', 0)], dr_done_bytes = done_bytes mf,
       dr_sched = new_weighted_scheduler, dr_saved = mf, dr_status = ''running'', dr_message = ''''\<rparr>)"

section \<open>Steps\<close>

inductive run_step :: "run_env \<Rightarrow> dl_run \<Rightarrow> dl_run \<Rightarrow> bool" for env :: run_env where
  Stop: "k < length (dr_workers s) \<Longrightarrow> dr_workers s ! k = Idle \<Longrightarrow> dr_canceled s \<Longrightarrow>
    run_step env s (set_worker k Finished s)"
| Drain: "k < length (dr_workers s) \<Longrightarrow> dr_workers s ! k = Idle \<Longrightarrow> retry_pending (dr_mf s) = [] \<Longrightarrow>
    run_step env s (set_worker k Finished s)"
| Stall: "k < length (dr_workers s) \<Longrightarrow> dr_workers s ! k = Idle \<Longrightarrow> retry_pending (dr_mf s) \<noteq> [] \<Longrightarrow>
    run_step env s (s\<lparr>dr_mf := fst (reset_stalled_chunks now (re_stall_limit env) (dr_mf s))\<rparr>)"
| Snap: "k < length (dr_workers s) \<Longrightarrow> dr_workers s ! k = Idle \<Longrightarrow> retry_pending (dr_mf s) \<noteq> [] \<Longrightarrow>
    run_step env s (set_worker k (Snapped (retry_pending (dr_mf s)) (dr_in_flight s) channels) s)"
| Wait: "k < length (dr_workers s) \<Longrightarrow> dr_workers s ! k = Snapped pending snapshot channels \<Longrightarrow>
    dispatch_choice now env (dr_sched s) pending
      (channel_states (available_channels channels snapshot (re_limit env)) snapshot stats) snapshot = (None, sched) \<Longrightarrow>
    run_step env s (set_worker k Idle (s\<lparr>dr_sched := sched\<rparr>))"
| Choose: "k < length (dr_workers s) \<Longrightarrow> dr_workers s ! k = Snapped pending snapshot channels \<Longrightarrow>
    dispatch_choice now env (dr_sched s) pending
      (channel_states (available_channels channels snapshot (re_limit env)) snapshot stats) snapshot
      = (Some (idx, ch), sched) \<Longrightarrow>
    run_step env s (set_worker k (if find_channel channels ch = None then Idle else Picked idx ch)
      (s\<lparr>dr_sched := sched\<rparr>))"
| Mark: "k < length (dr_workers s) \<Longrightarrow> dr_workers s ! k = Picked idx ch \<Longrightarrow>
    run_step env s (start_fetch now k idx ch s)"
| Open: "k < length (dr_workers s) \<Longrightarrow> dr_workers s ! k = Fetching cst ch None \<Longrightarrow>
    fs_create (part_path env cst) (dr_world s) = (Inr (), w) \<Longrightarrow>
    run_step env s (set_worker k (Fetching cst ch (Some 0)) (s\<lparr>dr_world := w\<rparr>))"
| Write: "k < length (dr_workers s) \<Longrightarrow> dr_workers s ! k = Fetching cst ch (Some n) \<Longrightarrow>
    d = take m (drop n (file_slice (re_source env) (cs_geom cst))) \<Longrightarrow>
    run_step env s (set_worker k (Fetching cst ch (Some (n + length d)))
      (s\<lparr>dr_world := write_at (part_path env cst) n d (dr_world s)\<rparr>))"
| Fail: "k < length (dr_workers s) \<Longrightarrow> dr_workers s ! k = Fetching cst ch n \<Longrightarrow>
    run_step env s (fetch_failed now err k cst ch s)"
| Complete: "k < length (dr_workers s) \<Longrightarrow> dr_workers s ! k = Fetching cst ch (Some n) \<Longrightarrow>
    int n = cs_size cst \<Longrightarrow> run_step env s (fetch_done now dur k cst ch s)"
| Save: "run_step env s (s\<lparr>dr_saved := dr_mf s\<rparr>)"
| Cancel: "run_step env s (s\<lparr>dr_canceled := True,
    dr_status := (if dr_status s = ''running'' then ''canceled'' else dr_status s)\<rparr>)"

text \<open>Runs, and runs in which no two workers ever download the same chunk at the same time.\<close>

inductive run_reach :: "run_env \<Rightarrow> dl_run \<Rightarrow> dl_run \<Rightarrow> bool" for env s0 where
  Start: "run_reach env s0 s0"
| Step: "run_reach env s0 s \<Longrightarrow> run_step env s s' \<Longrightarrow> run_reach env s0 s'"

fun same_chunk :: "worker \<Rightarrow> worker \<Rightarrow> bool" where
  "same_chunk (Fetching c ch n) (Fetching c' ch' n') \<longleftrightarrow> cs_index c = cs_index c'"
| "same_chunk _ _ \<longleftrightarrow> False"

definition exclusive :: "dl_run \<Rightarrow> bool" where
  "exclusive s \<longleftrightarrow> (\<forall>k1 < length (dr_workers s). \<forall>k2 < length (dr_workers s).
     same_chunk (dr_workers s ! k1) (dr_workers s ! k2) \<longrightarrow> k1 = k2)"

inductive run_exclusive :: "run_env \<Rightarrow> dl_run \<Rightarrow> dl_run \<Rightarrow> bool" for env s0 where
  Start: "run_exclusive env s0 s0"
| Step: "run_exclusive env s0 s \<Longrightarrow> run_step env s s' \<Longrightarrow> exclusive s' \<Longrightarrow>
    run_exclusive env s0 s'"

section \<open>Which chunks are done\<close>

definition done_geoms :: "manifest \<Rightarrow> geom set" where
  "done_geoms mf = cs_geom ` {c \<in> set (mf_chunks mf). cs_status c = StatusDone}"

definition geoms :: "manifest \<Rightarrow> geom set" where
  "geoms mf = cs_geom ` set (mf_chunks mf)"

lemma geoms_geometry: "geometry mf = geometry mf' \<Longrightarrow> geoms mf = geoms mf'"
  by (metis geometry_def geoms_def list.set_map snd_conv)

lemma fst_cs_geom [simp]: "fst (cs_geom c) = cs_index c" by (simp add: cs_geom_def)

lemma geoms_inject:
  assumes "wf_plan mf" "g \<in> geoms mf" "g' \<in> geoms mf" "fst g = fst g'"
  shows "g = g'"
proof -
  obtain c c' where c: "g = cs_geom c" "g' = cs_geom c'" "c \<in> set (mf_chunks mf)" "c' \<in> set (mf_chunks mf)"
    using assms(2,3) by (auto simp: geoms_def)
  with assms(4) wf_plan_distinct [OF assms(1)] have "c = c'" by (simp add: distinct_map inj_on_def)
  with c show ?thesis by simp
qed

lemma done_geoms_sub: "done_geoms mf \<subseteq> geoms mf"
  by (auto simp: done_geoms_def geoms_def)

lemma done_geoms_upd:
  assumes "wf_plan mf" "\<And>c. cs_geom (f c) = cs_geom c" "\<And>c. cs_status (f c) \<noteq> StatusDone"
  shows "done_geoms (upd_chunk i f mf) = {g \<in> done_geoms mf. fst g \<noteq> i}"
proof -
  have "mf_chunks (upd_chunk i f mf) = map (\<lambda>c. if cs_index c = i then f c else c) (mf_chunks mf)"
    using wf_plan_distinct [OF assms(1)] by (rule upd_chunk_conv)
  then show ?thesis using assms(2,3) by (auto simp: done_geoms_def image_iff split: if_splits)
qed

lemma done_geoms_mark_done:
  assumes "wf_plan mf" "g \<in> geoms mf" "fst g = i"
  shows "done_geoms (mark_done now i b h mf) = insert g (done_geoms mf)"
proof -
  have e: "mf_chunks (mark_done now i b h mf) = map (\<lambda>c. if cs_index c = i then done_chunk now b h c else c) (mf_chunks mf)"
    unfolding mark_done_def using wf_plan_distinct [OF assms(1)] by (rule upd_chunk_conv)
  have d: "cs_status (done_chunk now b h c) = StatusDone" for c by (simp add: done_chunk_def)
  obtain c where c: "c \<in> set (mf_chunks mf)" "g = cs_geom c" using assms(2) by (auto simp: geoms_def)
  have "cs_geom c' = g" if "c' \<in> set (mf_chunks mf)" "cs_index c' = i" for c'
    using geoms_inject [OF assms(1), of "cs_geom c'" g] assms(2,3) that by (auto simp: geoms_def)
  note same = this
  let ?f = "\<lambda>c. if cs_index c = i then done_chunk now b h c else c"
  have m: "x \<in> done_geoms (mark_done now i b h mf) \<longleftrightarrow>
      (\<exists>c\<in>set (mf_chunks mf). cs_status (?f c) = StatusDone \<and> x = cs_geom c)" for x
  proof -
    have "done_geoms (mark_done now i b h mf) =
        {cs_geom (?f c) | c. c \<in> set (mf_chunks mf) \<and> cs_status (?f c) = StatusDone}"
      unfolding done_geoms_def e set_map by blast
    moreover have "cs_geom (?f c) = cs_geom c" for c by simp
    ultimately show ?thesis by (simp only:) blast
  qed
  show ?thesis
  proof (intro set_eqI iffI)
    fix x assume "x \<in> done_geoms (mark_done now i b h mf)"
    then show "x \<in> insert g (done_geoms mf)" unfolding m using same by (auto simp: done_geoms_def split: if_splits)
  next
    fix x assume "x \<in> insert g (done_geoms mf)"
    then consider "x = g" | c' where "c' \<in> set (mf_chunks mf)" "cs_status c' = StatusDone" "x = cs_geom c'"
      by (auto simp: done_geoms_def)
    then show "x \<in> done_geoms (mark_done now i b h mf)"
    proof cases
      case 1
      then show ?thesis unfolding m using c d assms(3) by (intro bexI [of _ c]) auto
    next
      case 2
      then show ?thesis unfolding m using d by (intro bexI [of _ c']) auto
    qed
  qed
qed

lemma done_geoms_reset: "done_geoms (fst (reset_stalled_chunks now sl mf)) \<subseteq> done_geoms mf"
  by (auto simp: done_geoms_def reset_stalled_chunks_def map_chunks_def split: if_splits)

lemma wf_plan_upd: "(\<And>c. cs_geom (f c) = cs_geom c) \<Longrightarrow> wf_plan (upd_chunk i f mf) = wf_plan mf"
  by (rule wf_plan_geometry, rule geometry_upd_chunk)

lemma requeue_failed_spec:
  assumes "wf_plan mf"
  shows "geometry (requeue_failed i e mf) = geometry mf"
    "done_geoms (requeue_failed i e mf) = {g \<in> done_geoms mf. fst g \<noteq> i}"
proof -
  have st: "cs_status (failed_chunk e c) \<noteq> StatusDone" for c by (simp add: failed_chunk_def)
  have w: "wf_plan (mark_failed i e mf)" using assms g_failed.wf_plan_f by simp
  have d: "done_geoms (mark_failed i e mf) = {g \<in> done_geoms mf. fst g \<noteq> i}"
    unfolding mark_failed_def by (rule done_geoms_upd [OF assms]) (simp_all add: st)
  have d2: "done_geoms (upd_chunk i (\<lambda>c. c\<lparr>cs_status := StatusPending\<rparr>) (mark_failed i e mf))
      = {g \<in> done_geoms mf. fst g \<noteq> i}"
    by (subst done_geoms_upd [OF w]) (auto simp: d)
  show "geometry (requeue_failed i e mf) = geometry mf"
    by (auto simp: requeue_failed_def Let_def geometry_upd_chunk g_failed.geometry_f split: option.splits)
  show "done_geoms (requeue_failed i e mf) = {g \<in> done_geoms mf. fst g \<noteq> i}"
    using d d2 by (auto simp: requeue_failed_def Let_def split: option.splits)
qed

lemma transfer_id_ops [simp]:
  "mf_transfer_id (upd_chunk i f mf) = mf_transfer_id mf"
  "mf_transfer_id (map_chunks g mf) = mf_transfer_id mf"
  "mf_transfer_id (requeue_failed i e mf) = mf_transfer_id mf"
  by (simp_all add: upd_chunk_def map_chunks_def requeue_failed_def mark_failed_def Let_def split: option.splits)

lemma wf_plan_index:
  assumes "wf_plan mf" "mf_total_bytes mf \<le> max_i64" "g \<in> geoms mf"
  shows "0 \<le> fst g \<and> fst g < max_i64"
proof -
  let ?gs = "map cs_geom (mf_chunks mf)"
  have t: "tiling 0 0 (mf_total_bytes mf) ?gs" using assms(1) by (simp add: wf_plan_def)
  have "fst g \<in> set (map fst ?gs)" using assms(3) by (auto simp: geoms_def)
  then obtain k where k: "k < length ?gs" "fst g = int k" unfolding tiling_indices [OF t] by auto
  have "int (length cs) \<le> sum_list (map cs_size cs)" if "\<forall>c\<in>set cs. 0 < cs_size c" for cs
    using that by (induction cs) auto
  then have "int (length (mf_chunks mf)) \<le> mf_total_bytes mf"
    using wf_plan_pos [OF assms(1)] wf_plan_sizes [OF assms(1)] by metis
  with k assms(2) show ?thesis by simp
qed

section \<open>The invariant of exclusive runs\<close>

definition geom_path :: "run_env \<Rightarrow> geom \<Rightarrow> string" where
  "geom_path env g = part_path_for (re_job_id env) (re_output env) (fst g)"

definition stored :: "run_env \<Rightarrow> world \<Rightarrow> geom \<Rightarrow> nat \<Rightarrow> bool" where
  "stored env w g n \<longleftrightarrow> n \<le> length (file_slice (re_source env) g) \<and>
     node_at w (geom_path env g) = Some (File (take n (file_slice (re_source env) g)))"

fun fetch_ok :: "run_env \<Rightarrow> world \<Rightarrow> geom set \<Rightarrow> worker \<Rightarrow> bool" where
  "fetch_ok env w gs (Fetching cst ch n) \<longleftrightarrow> cs_geom cst \<in> gs \<and>
     (case n of None \<Rightarrow> True | Some n \<Rightarrow> stored env w (cs_geom cst) n)"
| "fetch_ok env w gs wk \<longleftrightarrow> True"

fun fetches :: "worker \<Rightarrow> int64 \<Rightarrow> bool" where
  "fetches (Fetching cst ch n) i \<longleftrightarrow> cs_index cst = i"
| "fetches wk i \<longleftrightarrow> False"

definition plan_ok :: "run_env \<Rightarrow> manifest \<Rightarrow> bool" where
  "plan_ok env mf \<longleftrightarrow> wf_plan mf \<and> mf_total_bytes mf \<le> max_i64 \<and>
     int (length (re_source env)) = mf_total_bytes mf \<and> mf_transfer_id mf = re_job_id env"

definition run_inv :: "run_env \<Rightarrow> dl_run \<Rightarrow> bool" where
  "run_inv env s \<longleftrightarrow> plan_ok env (dr_mf s) \<and> exclusive s \<and>
     (\<forall>wk\<in>set (dr_workers s). fetch_ok env (dr_world s) (geoms (dr_mf s)) wk) \<and>
     (\<forall>g\<in>done_geoms (dr_mf s). stored env (dr_world s) g (length (file_slice (re_source env) g)) \<and>
        (\<forall>wk\<in>set (dr_workers s). \<not> fetches wk (fst g)))"

lemma plan_ok_geometry:
  "plan_ok env mf \<Longrightarrow> geometry mf' = geometry mf \<Longrightarrow> mf_transfer_id mf' = mf_transfer_id mf \<Longrightarrow> plan_ok env mf'"
  using wf_plan_geometry [of mf' mf] by (simp add: plan_ok_def geometry_def)

lemma part_path_geom: "part_path env c = geom_path env (cs_geom c)"
  by (simp add: part_path_def geom_path_def)

lemma geom_path_inject:
  assumes "plan_ok env mf" "g \<in> geoms mf" "g' \<in> geoms mf"
  shows "geom_path env g = geom_path env g' \<longleftrightarrow> fst g = fst g'"
  using assms wf_plan_index [of mf g] wf_plan_index [of mf g']
  by (simp add: plan_ok_def geom_path_def part_path_inject)

lemma slice_length:
  assumes "plan_ok env mf" "g \<in> geoms mf"
  shows "int (length (file_slice (re_source env) g)) = snd (snd g)"
  using tiling_slices_length [of 0 0 "mf_total_bytes mf" "map cs_geom (mf_chunks mf)" "re_source env"] assms
  by (auto simp: plan_ok_def wf_plan_def geoms_def list_all_iff)

lemma set_worker_simps [simp]:
  "dr_mf (set_worker k wk s) = dr_mf s" "dr_world (set_worker k wk s) = dr_world s"
  "dr_workers (set_worker k wk s) = (dr_workers s)[k := wk]"
  "dr_mf (bump_in_flight c d s) = dr_mf s" "dr_world (bump_in_flight c d s) = dr_world s"
  "dr_workers (bump_in_flight c d s) = dr_workers s"
  "dr_mf (leave_flight c s) = dr_mf s" "dr_world (leave_flight c s) = dr_world s"
  "dr_workers (leave_flight c s) = dr_workers s"
  by (simp_all add: set_worker_def bump_in_flight_def leave_flight_def)

text \<open>The generic step: one worker changes, the manifest loses done chunks at most, the files stay.\<close>

lemma run_inv_frame:
  assumes "run_inv env s" and "exclusive s'" and "dr_world s' = dr_world s"
    and "set (dr_workers s') \<subseteq> insert wk (set (dr_workers s))"
    and "fetch_ok env (dr_world s) (geoms (dr_mf s)) wk"
    and "geometry (dr_mf s') = geometry (dr_mf s)" "mf_transfer_id (dr_mf s') = mf_transfer_id (dr_mf s)"
    and "done_geoms (dr_mf s') \<subseteq> {g \<in> done_geoms (dr_mf s). \<not> fetches wk (fst g)}"
  shows "run_inv env s'"
proof -
  have sub: "wk' = wk \<or> wk' \<in> set (dr_workers s)" if "wk' \<in> set (dr_workers s')" for wk'
    using assms(4) that by blast
  have d: "g \<in> done_geoms (dr_mf s) \<and> \<not> fetches wk (fst g)" if "g \<in> done_geoms (dr_mf s')" for g
    using assms(8) that by blast
  have "plan_ok env (dr_mf s')"
    using assms(1) plan_ok_geometry [OF _ assms(6,7)] by (simp add: run_inv_def)
  moreover have "fetch_ok env (dr_world s') (geoms (dr_mf s')) wk'" if "wk' \<in> set (dr_workers s')" for wk'
    using sub [OF that] assms(1,3,5) geoms_geometry [OF assms(6)] by (auto simp: run_inv_def)
  moreover have "stored env (dr_world s') g (length (file_slice (re_source env) g)) \<and>
      (\<forall>wk\<in>set (dr_workers s'). \<not> fetches wk (fst g))" if "g \<in> done_geoms (dr_mf s')" for g
    using d [OF that] sub assms(1,3) unfolding run_inv_def by metis
  ultimately show ?thesis using assms(2) by (simp add: run_inv_def)
qed

lemma write_at_stored:
  assumes "stored env w g n" "d = take m (drop n (file_slice (re_source env) g))"
  shows "stored env (write_at (geom_path env g) n d w) g (n + length d)"
proof -
  let ?sl = "file_slice (re_source env) g"
  have n: "n \<le> length ?sl" "node_at w (geom_path env g) = Some (File (take n ?sl))"
    using assms(1) by (simp_all add: stored_def)
  have "pwrite (take n ?sl) n d = take n ?sl @ d" using n(1) by (simp add: pwrite_def)
  also have "\<dots> = take (n + length d) ?sl" using assms(2) by (simp add: take_add min_def)
  finally show ?thesis using n assms(2) by (simp add: stored_def write_at_def)
qed

lemma write_at_frame: "p \<noteq> q \<Longrightarrow> node_at (write_at q k d w) p = node_at w p"
  by (simp add: write_at_def split: option.splits node.splits)

lemma exclusive_other:
  assumes "exclusive s" "k < length (dr_workers s)" "dr_workers s ! k = Fetching cst ch n"
    "wk \<in> set ((dr_workers s)[k := x])" "wk \<noteq> x"
  shows "\<not> fetches wk (cs_index cst)"
proof
  assume f: "fetches wk (cs_index cst)"
  obtain j where j: "j < length (dr_workers s)" "(dr_workers s)[k := x] ! j = wk"
    using assms(4) by (auto simp: in_set_conv_nth)
  with assms(2,5) have "j \<noteq> k" "dr_workers s ! j = wk" by (auto simp: nth_list_update split: if_splits)
  moreover have "same_chunk wk (dr_workers s ! k)" using f assms(3) by (cases wk) auto
  ultimately show False using assms(1,2) j(1) unfolding exclusive_def by blast
qed

text \<open>A step of the worker \<open>k\<close> that touches only its own part file.\<close>

lemma run_inv_file:
  assumes inv: "run_inv env s" and ex: "exclusive s'"
    and k: "k < length (dr_workers s)" "dr_workers s ! k = Fetching cst ch n"
    and s': "dr_mf s' = dr_mf s" "dr_workers s' = (dr_workers s)[k := Fetching cst ch (Some n')]"
    and own: "stored env (dr_world s') (cs_geom cst) n'"
    and frame: "\<And>p. p \<noteq> geom_path env (cs_geom cst) \<Longrightarrow> node_at (dr_world s') p = node_at (dr_world s) p"
  shows "run_inv env s'"
proof -
  let ?g = "cs_geom cst"
  have p: "plan_ok env (dr_mf s)" using inv by (simp add: run_inv_def)
  have wkk: "Fetching cst ch n \<in> set (dr_workers s)" using k nth_mem by metis
  then have g: "?g \<in> geoms (dr_mf s)" using inv by (auto simp: run_inv_def)
  have keep: "stored env (dr_world s') g m" if "stored env (dr_world s) g m" "g \<in> geoms (dr_mf s)" "fst g \<noteq> fst ?g" for g m
    using that frame [of "geom_path env g"] geom_path_inject [OF p that(2) g] by (simp add: stored_def)
  have "fetch_ok env (dr_world s') (geoms (dr_mf s')) wk" if wk: "wk \<in> set (dr_workers s')" for wk
  proof (cases "wk = Fetching cst ch (Some n')")
    case True
    then show ?thesis using own g s'(1) by simp
  next
    case False
    have "wk \<in> set (dr_workers s)" using wk False s'(2) set_update_subset_insert by fastforce
    then have "fetch_ok env (dr_world s) (geoms (dr_mf s)) wk" using inv by (simp add: run_inv_def)
    moreover have "\<not> fetches wk (cs_index cst)"
      using exclusive_other [of s k cst ch n wk "Fetching cst ch (Some n')"] inv k wk False s'(2)
      by (simp add: run_inv_def)
    ultimately show ?thesis using keep s'(1) by (cases wk) (auto split: option.splits)
  qed
  moreover have "stored env (dr_world s') g (length (file_slice (re_source env) g)) \<and>
      (\<forall>wk\<in>set (dr_workers s'). \<not> fetches wk (fst g))" if g': "g \<in> done_geoms (dr_mf s')" for g
  proof -
    have d: "g \<in> done_geoms (dr_mf s)" using g' s'(1) by simp
    then have old: "stored env (dr_world s) g (length (file_slice (re_source env) g))"
      "\<forall>wk\<in>set (dr_workers s). \<not> fetches wk (fst g)" using inv by (simp_all add: run_inv_def)
    then have ne: "fst g \<noteq> fst ?g" using wkk by force
    have "set (dr_workers s') \<subseteq> insert (Fetching cst ch (Some n')) (set (dr_workers s))"
      using s'(2) set_update_subset_insert by metis
    then have "\<forall>wk\<in>set (dr_workers s'). \<not> fetches wk (fst g)" using old(2) ne by auto
    then show ?thesis using keep [OF old(1) _ ne] d done_geoms_sub by auto
  qed
  ultimately show ?thesis using p ex s'(1) by (simp add: run_inv_def)
qed

lemma run_inv_set_worker:
  assumes "run_inv env s" "exclusive s'" "dr_mf s' = dr_mf s" "dr_world s' = dr_world s"
    "dr_workers s' = (dr_workers s)[k := wk]" "\<not> (\<exists>c ch n. wk = Fetching c ch n)"
  shows "run_inv env s'"
proof -
  have f: "fetch_ok env w gs wk" "\<not> fetches wk i" for w gs i using assms(6) by (cases wk; auto)+
  show ?thesis
  proof (rule run_inv_frame [OF assms(1,2) assms(4), of wk])
    show "set (dr_workers s') \<subseteq> insert wk (set (dr_workers s))"
      unfolding assms(5) by (rule set_update_subset_insert)
  qed (simp_all add: f assms(3))
qed

lemma start_fetch_inv:
  assumes inv: "run_inv env s" and ex: "exclusive (start_fetch now k idx ch s)"
  shows "run_inv env (start_fetch now k idx ch s)"
proof (cases "get_chunk (dr_mf s) idx")
  case None
  then have "start_fetch now k idx ch s = set_worker k Idle s"
    by (simp add: start_fetch_def mark_and_get_sending_def)
  with inv ex show ?thesis by (intro run_inv_set_worker [OF inv, of _ k Idle]) auto
next
  case (Some c)
  let ?f = "sending_chunk now ch" and ?wk = "Fetching (sending_chunk now ch c) ch None"
  have p: "wf_plan (dr_mf s)" using inv by (simp add: run_inv_def plan_ok_def)
  have c: "c \<in> set (mf_chunks (dr_mf s))" "cs_index c = idx" using get_chunk_SomeD [OF Some] by auto
  have e: "start_fetch now k idx ch s =
      bump_in_flight ch 1 (set_worker k ?wk (s\<lparr>dr_mf := upd_chunk idx ?f (dr_mf s)\<rparr>))"
    using Some by (simp add: start_fetch_def mark_and_get_sending_def)
  have "done_geoms (upd_chunk idx ?f (dr_mf s)) = {g \<in> done_geoms (dr_mf s). fst g \<noteq> idx}"
    by (rule done_geoms_upd [OF p]) (simp_all add: sending_chunk_def cs_geom_def)
  with c show ?thesis unfolding e
    by (intro run_inv_frame [OF inv ex [unfolded e], of ?wk])
      (auto simp: geometry_upd_chunk geoms_def set_update_subset_insert)
qed

lemma fetch_failed_inv:
  assumes inv: "run_inv env s" and ex: "exclusive (fetch_failed now err k cst ch s)"
  shows "run_inv env (fetch_failed now err k cst ch s)"
proof -
  have p: "wf_plan (dr_mf s)" using inv by (simp add: run_inv_def plan_ok_def)
  have set: "set ((dr_workers s)[k := Idle]) \<subseteq> insert Idle (set (dr_workers s))"
    by (rule set_update_subset_insert)
  show ?thesis
    by (rule run_inv_frame [OF inv ex, of Idle])
      (use set requeue_failed_spec [OF p] in \<open>auto simp: fetch_failed_def Let_def\<close>)
qed

lemma fetch_done_inv:
  assumes inv: "run_inv env s" and ex: "exclusive (fetch_done now dur k cst ch s)"
    and k: "k < length (dr_workers s)" "dr_workers s ! k = Fetching cst ch (Some n)" "int n = cs_size cst"
  shows "run_inv env (fetch_done now dur k cst ch s)"
proof -
  let ?g = "cs_geom cst" and ?s' = "fetch_done now dur k cst ch s"
  have wkk: "Fetching cst ch (Some n) \<in> set (dr_workers s)" using k nth_mem by metis
  have p: "plan_ok env (dr_mf s)" using inv by (simp add: run_inv_def)
  have f: "?g \<in> geoms (dr_mf s)" "stored env (dr_world s) ?g n" using inv wkk by (auto simp: run_inv_def)
  have n: "n = length (file_slice (re_source env) ?g)"
    using slice_length [OF p f(1)] k(3) by (simp add: cs_geom_def)
  have s': "dr_world ?s' = dr_world s" "dr_workers ?s' = (dr_workers s)[k := Idle]"
    "dr_mf ?s' = mark_done now (cs_index cst) (cs_size cst) '''' (dr_mf s)"
    by (simp_all add: fetch_done_def Let_def)
  have geo: "geometry (dr_mf ?s') = geometry (dr_mf s)" "mf_transfer_id (dr_mf ?s') = mf_transfer_id (dr_mf s)"
    by (simp_all add: s'(3) g_done.geometry_f) (simp add: mark_done_def)
  have d: "done_geoms (dr_mf ?s') = insert ?g (done_geoms (dr_mf s))"
    unfolding s'(3) using p f(1) by (intro done_geoms_mark_done) (simp_all add: plan_ok_def)
  have old: "wk = Idle \<or> wk \<in> set (dr_workers s)" if "wk \<in> set (dr_workers ?s')" for wk
    using that s'(2) set_update_subset_insert by fastforce
  have "\<not> fetches wk (cs_index cst)" if "wk \<in> set (dr_workers ?s')" for wk
    using exclusive_other [of s k cst ch "Some n" wk Idle] inv k that s'(2)
    by (cases "wk = Idle") (simp_all add: run_inv_def)
  moreover have "fetch_ok env (dr_world s) (geoms (dr_mf s)) wk" if "wk \<in> set (dr_workers ?s')" for wk
    using old [OF that] inv by (auto simp: run_inv_def)
  ultimately show ?thesis
    using inv ex plan_ok_geometry [OF p geo] geoms_geometry [OF geo(1)] f(2) n old
    unfolding run_inv_def s'(1) d by fastforce
qed

lemma run_step_inv:
  assumes "run_step env s s'" and inv: "run_inv env s" and ex: "exclusive s'"
  shows "run_inv env s'"
  using assms(1)
proof cases
  case (Stall k now)
  show ?thesis unfolding Stall(1)
    by (rule run_inv_frame [OF inv ex [unfolded Stall(1)], of Idle])
      (use done_geoms_reset [of now "re_stall_limit env" "dr_mf s"] in
        \<open>auto simp: reset_stalled_chunks_def cs_geom_def intro!: geometry_map_chunks\<close>)
next
  case (Mark k idx ch now)
  then show ?thesis using start_fetch_inv [OF inv] ex by simp
next
  case (Open k cst ch w)
  have w: "stored env w (cs_geom cst) 0" "\<And>p. p \<noteq> geom_path env (cs_geom cst) \<Longrightarrow> node_at w p = node_at (dr_world s) p"
    using fs_create_Inr [OF Open(4)] by (auto simp: stored_def part_path_geom)
  show ?thesis unfolding Open(1)
    by (rule run_inv_file [OF inv ex [unfolded Open(1)] Open(2,3)]) (use w in auto)
next
  case (Write k cst ch n d m)
  have "stored env (dr_world s) (cs_geom cst) n"
    using inv Write(2,3) nth_mem by (fastforce simp: run_inv_def)
  from write_at_stored [OF this Write(4)] show ?thesis unfolding Write(1)
    by (intro run_inv_file [OF inv ex [unfolded Write(1)] Write(2,3)])
      (auto simp: part_path_geom write_at_frame)
next
  case (Fail k cst ch n now err)
  then show ?thesis using fetch_failed_inv [OF inv] ex by simp
next
  case (Complete k cst ch n now dur)
  then show ?thesis using fetch_done_inv [OF inv] ex by simp
next
  case Save
  then show ?thesis using inv by (simp add: run_inv_def exclusive_def)
next
  case Cancel
  then show ?thesis using inv by (simp add: run_inv_def exclusive_def)
qed (use ex in \<open>auto intro!: run_inv_set_worker [OF inv]\<close>)

lemma done_geoms_activate: "done_geoms (activate_resume k mf) = done_geoms mf"
proof -
  have "cs_status (activate_chunk k c) = StatusDone \<longleftrightarrow> cs_status c = StatusDone" for c
    by (auto simp: activate_chunk_def)
  then show ?thesis by (auto simp: done_geoms_def activate_resume_def map_chunks_def image_iff) (metis cs_geom_ops(5))+
qed

lemma run_start_inv:
  assumes "plan_ok env mf"
    and "\<forall>g\<in>done_geoms mf. stored env w g (length (file_slice (re_source env) g))"
  shows "run_inv env (run_start env resume n mf w)"
proof -
  have "plan_ok env (activate_resume 3 mf)"
    by (rule plan_ok_geometry [OF assms(1) g_activate.geometry_f]) (simp add: activate_resume_def)
  then show ?thesis using assms
    by (auto simp: run_inv_def run_start_def Let_def exclusive_def done_geoms_activate)
qed

lemma run_exclusive_inv: "run_exclusive env s0 s \<Longrightarrow> run_inv env s0 \<Longrightarrow> run_inv env s"
  by (induction rule: run_exclusive.induct) (auto intro: run_step_inv)

text \<open>
  C9: a download delivers the source, as long as no chunk is downloaded by two workers at once. Take
  any interleaving of any number of workers, with any failures, stalls, retries, saves and a
  cancellation, from a fresh or resumed manifest whose done parts are on disk. If the run ends with
  status \<open>done\<close>, the output file holds exactly the bytes of the source; in every other case the
  output path is left as it was, and the parts of the done chunks stay on disk.
\<close>

theorem exclusive_run_delivers:
  assumes "plan_ok env mf"
    and "\<forall>g\<in>done_geoms mf. stored env w g (length (file_slice (re_source env) g))"
    and "\<not> suffix ''.tmp'' (re_output env)" and "dir_name (re_output env) \<noteq> re_output env"
    and "run_exclusive env (run_start env resume n mf w) s"
  shows "let s' = run_finish env s in
    (if dr_status s' = ''done''
     then node_at (dr_world s') (re_output env) = Some (File (re_source env))
     else node_at (dr_world s') (re_output env) = node_at (dr_world s) (re_output env)) \<and>
    (\<forall>g\<in>done_geoms (dr_mf s). stored env (dr_world s') g (length (file_slice (re_source env) g)))"
proof -
  have inv: "run_inv env s" using run_exclusive_inv [OF assms(5) run_start_inv [OF assms(1,2)]] .
  show ?thesis
  proof (cases "\<not> dr_canceled s \<and> all_done (dr_mf s)")
    case False
    then show ?thesis using inv by (auto simp: run_finish_def Let_def run_inv_def)
  next
    case True
    obtain r w' where m: "merge_parts (re_output env) (dr_mf s) (dr_world s) = (r, w')" by force
    have p: "wf_plan (dr_mf s)" "int (length (re_source env)) = mf_total_bytes (dr_mf s)"
      "mf_transfer_id (dr_mf s) = re_job_id env" using inv by (simp_all add: run_inv_def plan_ok_def)
    have all: "cs_geom c \<in> done_geoms (dr_mf s)" if "c \<in> set (mf_chunks (dr_mf s))" for c
      using that True by (auto simp: done_geoms_def all_done_def list_all_iff)
    have parts: "\<forall>c\<in>set (mf_chunks (dr_mf s)). node_at (dr_world s) (part_of (dr_mf s) (re_output env) c)
        = Some (File (file_slice (re_source env) (cs_geom c)))"
    proof
      fix c assume "c \<in> set (mf_chunks (dr_mf s))"
      then have "stored env (dr_world s) (cs_geom c) (length (file_slice (re_source env) (cs_geom c)))"
        using inv all by (simp add: run_inv_def)
      then show "node_at (dr_world s) (part_of (dr_mf s) (re_output env) c)
        = Some (File (file_slice (re_source env) (cs_geom c)))"
        by (simp add: stored_def geom_path_def p(3))
    qed
    note d = merge_delivers_source [OF m assms(3,4) p(1,2) parts]
    have "\<forall>g\<in>done_geoms (dr_mf s). stored env w' g (length (file_slice (re_source env) g))"
      using d p(3) by (auto simp: done_geoms_def stored_def geom_path_def)
    with d m True show ?thesis by (cases r) (auto simp: run_finish_def Let_def)
  qed
qed

end
