(* ===== verification/DownloadRace.thy ===== *)
theory DownloadRace
  imports DownloadRun
begin

text \<open>
  Concrete runs of the download workers (theory DownloadRun): a run in which two workers take the same
  chunk and the published file is damaged, and a run of one worker to its end.
\<close>

section \<open>The race between the snapshot and the marking\<close>

definition race_env :: run_env where
  "race_env = \<lparr>re_job_id = ''dl-1'', re_output = demo_path, re_source = ''ab'', re_limit = 2,
     re_strict = None, re_stall_limit = 75 * second\<rparr>"

definition race_manifest :: manifest where
  "race_manifest = demo_plan\<lparr>mf_total_bytes := 2,
     mf_chunks := [zero_chunk\<lparr>cs_size := 2, cs_status := StatusPending\<rparr>]\<rparr>"

definition race_start :: dl_run where
  "race_start = run_start race_env False 2 race_manifest (demo_world (\<lambda>n. False) [])"

definition race_choose :: "nat \<Rightarrow> dl_run \<Rightarrow> dl_run" where
  "race_choose k s =
     (case dr_workers s ! k of
        Snapped pending snapshot channels \<Rightarrow>
          (case dispatch_choice 0 race_env (dr_sched s) pending
             (channel_states (available_channels channels snapshot 2) snapshot []) snapshot of
             (Some (idx, ch), sched) \<Rightarrow>
               set_worker k (if find_channel channels ch = None then Idle else Picked idx ch) (s\<lparr>dr_sched := sched\<rparr>)
           | (None, sched) \<Rightarrow> set_worker k Idle (s\<lparr>dr_sched := sched\<rparr>))
      | _ \<Rightarrow> s)"

definition race_snap :: "nat \<Rightarrow> dl_run \<Rightarrow> dl_run" where
  "race_snap k s = set_worker k (Snapped (retry_pending (dr_mf s)) (dr_in_flight s) [(''cable'', '''')]) s"

lemma race_snap_step:
  "k < length (dr_workers s) \<Longrightarrow> dr_workers s ! k = Idle \<Longrightarrow> retry_pending (dr_mf s) \<noteq> [] \<Longrightarrow>
   run_step race_env s (race_snap k s)"
  unfolding race_snap_def by (rule run_step.Snap)

lemma race_choose_step:
  assumes "k < length (dr_workers s)" and "\<exists>p q r. dr_workers s ! k = Snapped p q r"
  shows "run_step race_env s (race_choose k s)"
proof -
  obtain p q r where w: "dr_workers s ! k = Snapped p q r" using assms(2) by blast
  obtain res sched where d: "dispatch_choice 0 race_env (dr_sched s) p
      (channel_states (available_channels r q (re_limit race_env)) q []) q = (res, sched)" by force
  have "re_limit race_env = 2" by (simp add: race_env_def)
  then show ?thesis
  proof (cases res)
    case None
    then show ?thesis using run_step.Wait [OF assms(1) w, of 0 race_env "[]" sched] d w \<open>re_limit race_env = 2\<close>
      by (simp add: race_choose_def)
  next
    case (Some c)
    then show ?thesis
      using run_step.Choose [OF assms(1) w, of 0 race_env "[]" "fst c" "snd c" sched] d w \<open>re_limit race_env = 2\<close>
      by (simp add: race_choose_def split_def)
  qed
qed

definition race_picked :: dl_run where
  "race_picked = race_choose 1 (race_choose 0 (race_snap 1 (race_snap 0 race_start)))"

lemma race_snap_frame: "\<exists>ws. race_snap k s = s\<lparr>dr_workers := ws\<rparr>"
  by (auto simp: race_snap_def set_worker_def)

lemma race_choose_frame: "\<exists>ws sc. race_choose k s = s\<lparr>dr_workers := ws, dr_sched := sc\<rparr>"
proof (cases "dr_workers s ! k")
  case (Snapped p q r)
  have "\<exists>ws sc. s\<lparr>dr_sched := b, dr_workers := w\<rparr> = s\<lparr>dr_workers := ws, dr_sched := sc\<rparr>" for b w
    by (intro exI [of _ w] exI [of _ b]) simp
  with Snapped show ?thesis
    by (cases "dispatch_choice 0 race_env (dr_sched s) p (channel_states (available_channels r q 2) q []) q")
      (auto simp: race_choose_def set_worker_def split: option.splits)
qed (auto simp: race_choose_def intro!: exI [of _ "dr_workers s"] exI [of _ "dr_sched s"])

text \<open>The state after both choices, in normal form, for the evaluations below.\<close>

lemma race_picked_nf [code]:
  "race_picked = race_start\<lparr>dr_workers := [Picked 0 ''cable'', Picked 0 ''cable''],
     dr_sched := new_weighted_scheduler\<lparr>ws_next_chunk_pos := 2\<rparr>\<rparr>"
proof -
  obtain ws sc where e: "race_picked = race_start\<lparr>dr_workers := ws, dr_sched := sc\<rparr>"
    unfolding race_picked_def
    using race_choose_frame [of 1 "race_choose 0 (race_snap 1 (race_snap 0 race_start))"]
      race_choose_frame [of 0 "race_snap 1 (race_snap 0 race_start)"]
      race_snap_frame [of 1 "race_snap 0 race_start"] race_snap_frame [of 0 race_start] by auto
  have "dr_workers race_picked = [Picked 0 ''cable'', Picked 0 ''cable'']" by code_simp
  moreover have "dr_sched race_picked = new_weighted_scheduler\<lparr>ws_next_chunk_pos := 2\<rparr>" by code_simp
  ultimately show ?thesis by (simp add: e)
qed

definition race_marked :: dl_run where
  "race_marked = start_fetch 0 1 0 ''cable'' (start_fetch 0 0 0 ''cable'' race_picked)"

lemma race_marked_reachable: "run_reach race_env race_start race_marked"
proof -
  let ?a = "race_snap 0 race_start"
  have 1: "run_step race_env race_start ?a" by (rule race_snap_step; code_simp)
  have 2: "run_step race_env ?a (race_snap 1 ?a)" by (rule race_snap_step; code_simp)
  have w: "dr_workers (race_snap 1 ?a) ! 0 = Snapped (retry_pending race_manifest) [(''cable'', 0), (''wifi'', 0)] [(''cable'', '''')]"
    "length (dr_workers (race_snap 1 ?a)) = 2"
    "dr_workers (race_choose 0 (race_snap 1 ?a)) ! 1 = Snapped (retry_pending race_manifest) [(''cable'', 0), (''wifi'', 0)] [(''cable'', '''')]"
    "length (dr_workers (race_choose 0 (race_snap 1 ?a))) = 2"
    by code_simp+
  have 3: "run_step race_env (race_snap 1 ?a) (race_choose 0 (race_snap 1 ?a))"
    by (rule race_choose_step, unfold w, simp, blast)
  have 4: "run_step race_env (race_choose 0 (race_snap 1 ?a)) race_picked"
    unfolding race_picked_def by (rule race_choose_step, unfold w, simp, blast)
  have p: "dr_workers race_picked = [Picked 0 ''cable'', Picked 0 ''cable'']"
    "dr_workers (start_fetch 0 0 0 ''cable'' race_picked) ! 1 = Picked 0 ''cable''"
    "length (dr_workers (start_fetch 0 0 0 ''cable'' race_picked)) = 2"
    by code_simp+
  have 5: "run_step race_env race_picked (start_fetch 0 0 0 ''cable'' race_picked)"
    by (rule run_step.Mark, unfold p, simp_all)
  have 6: "run_step race_env (start_fetch 0 0 0 ''cable'' race_picked) race_marked"
    unfolding race_marked_def by (rule run_step.Mark, unfold p, simp_all)
  show ?thesis by (rule run_reach.Step [OF run_reach.Step [OF run_reach.Step [OF run_reach.Step
    [OF run_reach.Step [OF run_reach.Step [OF run_reach.Start 1] 2] 3] 4] 5] 6])
qed

definition race_chunk :: chunk_state where
  "race_chunk = sending_chunk 0 ''cable'' (zero_chunk\<lparr>cs_size := 2, cs_status := StatusPending\<rparr>)"

definition race_part :: string where
  "race_part = part_path race_env race_chunk"

lemma race_part_nf [code]: "race_part = demo_path @ ''.download.dl-1'' @ [bs] @ ''chunk000001.part''"
  by code_simp

text \<open>Both workers hold the chunk; the first opens, writes a byte, the second opens, the first writes on.\<close>

definition race_open :: "nat \<Rightarrow> dl_run \<Rightarrow> dl_run" where
  "race_open k s = set_worker k (Fetching race_chunk ''cable'' (Some 0))
     (s\<lparr>dr_world := snd (fs_create race_part (dr_world s))\<rparr>)"

definition race_write :: "nat \<Rightarrow> nat \<Rightarrow> dl_run \<Rightarrow> dl_run" where
  "race_write k n s = set_worker k (Fetching race_chunk ''cable'' (Some (n + 1)))
     (s\<lparr>dr_world := write_at race_part n [''ab'' ! n] (dr_world s)\<rparr>)"

lemma race_open_step:
  assumes "k < length (dr_workers s)" "dr_workers s ! k = Fetching race_chunk ''cable'' None"
    and "fst (fs_create race_part (dr_world s)) = Inr ()"
  shows "run_step race_env s (race_open k s)"
  using assms(3) unfolding race_open_def race_part_def
  by (intro run_step.Open [OF assms(1,2)]) (metis prod.collapse)

lemma race_write_step:
  assumes "k < length (dr_workers s)" "dr_workers s ! k = Fetching race_chunk ''cable'' (Some n)" "n = 0 \<or> n = 1"
  shows "run_step race_env s (race_write k n s)"
proof -
  have "[''ab'' ! n] = take 1 (drop n (file_slice (re_source race_env) (cs_geom race_chunk)))"
    using assms(3) by (elim disjE; hypsubst; code_simp)
  from run_step.Write [OF assms(1,2) this] show ?thesis by (simp add: race_write_def race_part_def)
qed

definition race_torn :: dl_run where
  "race_torn = race_write 0 1 (race_open 1 (race_write 0 0 (race_open 0 race_marked)))"

definition race_end :: dl_run where
  "race_end = set_worker 1 Finished (set_worker 0 Finished
     (fetch_done 0 0 0 race_chunk ''cable'' (fetch_failed 0 ''EOF'' 1 race_chunk ''cable'' race_torn)))"

lemma race_torn_reachable: "run_reach race_env race_start race_torn"
proof -
  let ?a = "race_open 0 race_marked" and ?b = "race_write 0 0 (race_open 0 race_marked)"
  have 1: "run_step race_env race_marked ?a" by (rule race_open_step; code_simp)
  have 2: "run_step race_env ?a ?b" by (rule race_write_step; (code_simp | simp))
  have 3: "run_step race_env ?b (race_open 1 ?b)" by (rule race_open_step; code_simp)
  have 4: "run_step race_env (race_open 1 ?b) race_torn"
    unfolding race_torn_def by (rule race_write_step; (code_simp | simp))
  show ?thesis by (rule run_reach.Step [OF run_reach.Step [OF run_reach.Step [OF run_reach.Step
    [OF race_marked_reachable 1] 2] 3] 4])
qed

text \<open>
  C10: without exclusivity the guarantee fails, and the code does not ensure exclusivity. The pending
  chunks are read under the lock, but the chunk is chosen after the lock is released and marked
  without looking at its status again, so two workers can download the same chunk into the same part
  file. There is a run in which one of them truncates the file under the other and then fails: every
  chunk is done, the sizes agree, the job ends with status \<open>done\<close>, and the published file differs
  from the source.
\<close>

theorem duplicate_dispatch_corrupts:
  "\<exists>s. run_reach race_env (run_start race_env False 2 race_manifest (demo_world (\<lambda>n. False) [])) s \<and>
     list_all (\<lambda>wk. wk = Finished) (dr_workers s) \<and> plan_ok race_env race_manifest \<and>
     dr_status (run_finish race_env s) = ''done'' \<and>
     node_at (dr_world (run_finish race_env s)) (re_output race_env) = Some (File [CHR 0x00, CHR ''b'']) \<and>
     re_source race_env = ''ab''"
proof -
  let ?f = "fetch_failed 0 ''EOF'' 1 race_chunk ''cable'' race_torn"
  let ?d = "fetch_done 0 0 0 race_chunk ''cable'' ?f"
  have 1: "run_step race_env race_torn ?f" by (rule run_step.Fail [where n = "Some 0"]; code_simp)
  have 2: "run_step race_env ?f ?d" by (rule run_step.Complete [where n = 2]; code_simp)
  have 3: "run_step race_env ?d (set_worker 0 Finished ?d)" by (rule run_step.Drain; code_simp)
  have 4: "run_step race_env (set_worker 0 Finished ?d) race_end"
    unfolding race_end_def by (rule run_step.Drain; code_simp)
  have "run_reach race_env race_start race_end"
    by (rule run_reach.Step [OF run_reach.Step [OF run_reach.Step [OF run_reach.Step
      [OF race_torn_reachable 1] 2] 3] 4])
  moreover have "list_all (\<lambda>wk. wk = Finished) (dr_workers race_end)" "plan_ok race_env race_manifest"
    "dr_status (run_finish race_env race_end) = ''done''"
    "node_at (dr_world (run_finish race_env race_end)) (re_output race_env) = Some (File [CHR 0x00, CHR ''b''])"
    "re_source race_env = ''ab''"
    by code_simp+
  ultimately show ?thesis by (intro exI [of _ race_end]) (simp add: race_start_def)
qed

text \<open>The hypotheses of \<open>exclusive_run_delivers\<close> hold of a run of one worker to its end.\<close>

definition solo_start :: dl_run where
  "solo_start = run_start race_env False 1 race_manifest (demo_world (\<lambda>n. False) [])"

definition solo_marked :: dl_run where
  "solo_marked = start_fetch 0 0 0 ''cable'' (race_choose 0 (race_snap 0 solo_start))"

definition solo_written :: dl_run where
  "solo_written = race_write 0 1 (race_write 0 0 (race_open 0 solo_marked))"

definition solo_end :: dl_run where
  "solo_end = set_worker 0 Finished (fetch_done 0 0 0 race_chunk ''cable'' solo_written)"

lemma exclusive_one: "length (dr_workers s) = 1 \<Longrightarrow> exclusive s"
  by (simp add: exclusive_def)

lemma solo_run: "run_exclusive race_env solo_start solo_end"
proof -
  let ?a = "race_snap 0 solo_start" and ?o = "race_open 0 solo_marked"
  let ?w = "race_write 0 0 (race_open 0 solo_marked)"
  have 1: "run_step race_env solo_start ?a" by (rule race_snap_step; code_simp)
  have s: "dr_workers ?a ! 0 = Snapped (retry_pending race_manifest) [(''cable'', 0), (''wifi'', 0)] [(''cable'', '''')]"
    "0 < length (dr_workers ?a)" by code_simp+
  have 2: "run_step race_env ?a (race_choose 0 ?a)" by (rule race_choose_step, rule s(2), unfold s, blast)
  have 3: "run_step race_env (race_choose 0 ?a) solo_marked"
    unfolding solo_marked_def by (rule run_step.Mark; code_simp)
  have 4: "run_step race_env solo_marked ?o" by (rule race_open_step; code_simp)
  have 5: "run_step race_env ?o ?w" by (rule race_write_step; (code_simp | simp))
  have 6: "run_step race_env ?w solo_written"
    unfolding solo_written_def by (rule race_write_step; (code_simp | simp))
  have 7: "run_step race_env solo_written (fetch_done 0 0 0 race_chunk ''cable'' solo_written)"
    by (rule run_step.Complete [where n = 2]; code_simp)
  have 8: "run_step race_env (fetch_done 0 0 0 race_chunk ''cable'' solo_written) solo_end"
    unfolding solo_end_def by (rule run_step.Drain; code_simp)
  have e: "exclusive ?a" "exclusive (race_choose 0 ?a)" "exclusive solo_marked" "exclusive ?o" "exclusive ?w"
    "exclusive solo_written" "exclusive (fetch_done 0 0 0 race_chunk ''cable'' solo_written)" "exclusive solo_end"
    by (rule exclusive_one, code_simp)+
  show ?thesis
    by (rule run_exclusive.Step [OF run_exclusive.Step [OF run_exclusive.Step [OF run_exclusive.Step
      [OF run_exclusive.Step [OF run_exclusive.Step [OF run_exclusive.Step [OF run_exclusive.Step
      [OF run_exclusive.Start 1 e(1)] 2 e(2)] 3 e(3)] 4 e(4)] 5 e(5)] 6 e(6)] 7 e(7)] 8 e(8)])
qed

theorem exclusive_run_delivers_witness:
  "node_at (dr_world (run_finish race_env solo_end)) (re_output race_env) = Some (File ''ab'')"
proof -
  have h: "plan_ok race_env race_manifest"
    "\<forall>g\<in>done_geoms race_manifest. stored race_env (demo_world (\<lambda>n. False) []) g (length (file_slice (re_source race_env) g))"
    "\<not> suffix ''.tmp'' (re_output race_env)" "dir_name (re_output race_env) \<noteq> re_output race_env"
    by code_simp+
  have "dr_status (run_finish race_env solo_end) = ''done''" "re_source race_env = ''ab''" by code_simp+
  with exclusive_run_delivers [OF h, of False 1 solo_end] solo_run show ?thesis
    by (simp add: Let_def solo_start_def)
qed

end
