(* ===== verification/NetAddr.thy ===== *)
theory NetAddr
  imports GoNum GoString
begin

text \<open>
  The functions of package \<open>net\<close> that the program uses on addresses: \<open>SplitHostPort\<close>, \<open>ParseIP\<close> with its
  IPv4 and IPv6 forms, and \<open>IP.IsLoopback\<close>; with \<open>isLoopbackTarget\<close> of \<open>internal/transfer/sender.go\<close>.
\<close>

section \<open>Host and port\<close>

definition after_last :: "char \<Rightarrow> string \<Rightarrow> string" where
  "after_last c s = rev (takeWhile (\<lambda>d. d \<noteq> c) (rev s))"

definition before_last :: "char \<Rightarrow> string \<Rightarrow> string" where
  "before_last c s = take (length s - length (after_last c s) - 1) s"

definition split_host_port :: "string \<Rightarrow> (string \<times> string) result" where
  "split_host_port s =
     (if CHR '':'' \<notin> set s then Inl ''missing port in address''
      else let host = before_last (CHR '':'') s; port = after_last (CHR '':'') s in
        if hd s = CHR ''['' then
          (let inner = takeWhile (\<lambda>c. c \<noteq> CHR '']'') (tl s); rest = dropWhile (\<lambda>c. c \<noteq> CHR '']'') (tl s) in
           if rest = '''' then Inl ''missing bracket in address''
           else if tl rest = '''' then Inl ''missing port in address''
           else if length (tl rest) \<noteq> Suc (length port) then
             (if hd (tl rest) = CHR '':'' then Inl ''too many colons in address'' else Inl ''missing port in address'')
           else if CHR ''['' \<in> set (tl s) then Inl ''unexpected bracket''
           else if CHR '']'' \<in> set (tl rest) then Inl ''unexpected bracket''
           else Inr (inner, port))
        else if CHR '':'' \<in> set host then Inl ''too many colons in address''
        else if CHR ''['' \<in> set s then Inl ''unexpected bracket''
        else if CHR '']'' \<in> set s then Inl ''unexpected bracket''
        else Inr (host, port))"

section \<open>Addresses\<close>

definition octet_of :: "string \<Rightarrow> nat option" where
  "octet_of f =
     (if f = '''' \<or> \<not> list_all is_digit f \<or> (1 < length f \<and> hd f = CHR ''0'') \<or> 255 < digits_val f then None
      else Some (digits_val f))"

fun all_some :: "'a option list \<Rightarrow> 'a list option" where
  "all_some [] = Some []"
| "all_some (None # xs) = None"
| "all_some (Some x # xs) = map_option ((#) x) (all_some xs)"

definition parse_ipv4 :: "string \<Rightarrow> nat list option" where
  "parse_ipv4 s =
     (let fs = split_on (CHR ''.'') s in if length fs \<noteq> 4 then None else all_some (map octet_of fs))"

definition hex_nat :: "string \<Rightarrow> nat" where
  "hex_nat s = foldl (\<lambda>a c. 16 * a + (case hex_val c of None \<Rightarrow> 0 | Some d \<Rightarrow> d)) 0 s"

text \<open>
  The loop of \<open>parseIPv6\<close>: \<open>ell\<close> is the position of the ellipsis and \<open>acc\<close> the bytes so far. Each round
  takes a group of at most four hexadecimal digits, or the dotted form at the end. The result is the bytes,
  the ellipsis and the rest of the string.
\<close>

fun ipv6_groups :: "nat \<Rightarrow> nat option \<Rightarrow> nat list \<Rightarrow> string \<Rightarrow> (nat list \<times> nat option \<times> string) option" where
  "ipv6_groups 0 ell acc s = Some (acc, ell, s)"
| "ipv6_groups (Suc n) ell acc s =
     (let g = takeWhile (\<lambda>c. hex_val c \<noteq> None) s; rest = dropWhile (\<lambda>c. hex_val c \<noteq> None) s in
      if g = '''' \<or> 4 < length g then None
      else if rest \<noteq> '''' \<and> hd rest = CHR ''.'' then
        (if ell = None \<and> length acc \<noteq> 12 \<or> 16 < length acc + 4 then None
         else map_option (\<lambda>b. (acc @ b, ell, '''')) (parse_ipv4 s))
      else let acc = acc @ [hex_nat g div 256, hex_nat g mod 256] in
        if rest = '''' then Some (acc, ell, '''')
        else if hd rest \<noteq> CHR '':'' \<or> tl rest = '''' then None
        else if hd (tl rest) = CHR '':'' then
          (if ell \<noteq> None then None
           else if tl (tl rest) = '''' then Some (acc, Some (length acc), '''')
           else ipv6_groups n (Some (length acc)) acc (tl (tl rest)))
        else ipv6_groups n ell acc (tl rest))"

text \<open>The zone is split off first; \<open>ParseIP\<close> accepts no zone.\<close>

definition parse_ipv6 :: "string \<Rightarrow> nat list option" where
  "parse_ipv6 s =
     (if CHR ''%'' \<in> set s then None
      else let lead = has_prefix s ''::''; t = (if lead then drop 2 s else s) in
        if lead \<and> t = '''' then Some (replicate 16 0)
        else case ipv6_groups 8 (if lead then Some 0 else None) [] t of
            None \<Rightarrow> None
          | Some (b, ell, rest) \<Rightarrow>
              if rest \<noteq> '''' then None
              else if length b < 16 then
                (case ell of None \<Rightarrow> None
                 | Some e \<Rightarrow> Some (take e b @ replicate (16 - length b) 0 @ drop e b))
              else if ell \<noteq> None then None else Some b)"

text \<open>\<open>net.ParseIP\<close>: the sixteen bytes; an IPv4 address is mapped.\<close>

definition v4_prefix :: "nat list" where "v4_prefix = replicate 10 0 @ [255, 255]"

definition parse_ip :: "string \<Rightarrow> nat list option" where
  "parse_ip s =
     (case find (\<lambda>c. c = CHR ''.'' \<or> c = CHR '':'' \<or> c = CHR ''%'') s of
        None \<Rightarrow> None
      | Some c \<Rightarrow> if c = CHR ''.'' then map_option (\<lambda>b. v4_prefix @ b) (parse_ipv4 s)
                  else if c = CHR '':'' then parse_ipv6 s else None)"

definition ip_is_loopback :: "nat list \<Rightarrow> bool" where
  "ip_is_loopback b =
     (if take 12 b = v4_prefix then b ! 12 = 127 else b = replicate 15 0 @ [1])"

text \<open>The parts of a URL that the program looks at; \<open>url.Parse\<close> itself is a parameter of its users.\<close>

record parsed_url =
  pu_scheme :: string
  pu_host :: string
  pu_path :: string
  pu_escaped_path :: string

definition is_loopback_target :: "string \<Rightarrow> bool" where
  "is_loopback_target address =
     (let host = (case split_host_port address of Inl _ \<Rightarrow> address | Inr (h, _) \<Rightarrow> h);
          host = trim_space (trim_by (\<lambda>c. c = CHR ''['' \<or> c = CHR '']'') host)
      in if equal_fold host ''localhost'' then True
         else case parse_ip host of None \<Rightarrow> False | Some b \<Rightarrow> ip_is_loopback b)"

section \<open>Facts\<close>

lemma split_host_port_plain:
  assumes "CHR '':'' \<notin> set host" "CHR ''['' \<notin> set host" "CHR '']'' \<notin> set host" "list_all is_digit port"
  shows "split_host_port (host @ CHR '':'' # port) = Inr (host, port)"
proof -
  have d: "CHR '':'' \<notin> set port" "CHR ''['' \<notin> set port" "CHR '']'' \<notin> set port"
    using assms(4) by (auto simp: list_all_iff is_digit_def)
  have a: "after_last (CHR '':'') (host @ CHR '':'' # port) = port"
    proof -
    have "takeWhile (\<lambda>d. d \<noteq> CHR '':'') (rev port @ CHR '':'' # rev host) = rev port"
      using d(1) by (subst takeWhile_append2) auto
    then show ?thesis by (simp add: after_last_def)
  qed
  moreover have "before_last (CHR '':'') (host @ CHR '':'' # port) = host" by (simp add: before_last_def a)
  moreover have "hd (host @ CHR '':'' # port) \<noteq> CHR ''[''" using assms(2) by (cases host) auto
  ultimately show ?thesis using assms d by (simp add: split_host_port_def)
qed

end
