(* ===== verification/Sender.thy ===== *)
theory Sender
  imports Scheduler Proto FileSys NetAddr
begin

text \<open>
  The peer-to-peer sender, \<open>internal/transfer/sender.go\<close>: the manifest of a transfer, the channels and
  their statistics, and the workers of \<open>SendFileSplitWithResultCtx\<close>. Each section of code that holds
  the mutex is a function on the state \<open>sender\<close>; \<open>sender_step\<close> interleaves the workers, the refreshing of
  the interfaces and a cancellation. One attempt to send a chunk is the record of what its network calls
  return. The name of the manifest file, SHA-256, HMAC and the JSON codec are fields of \<open>send_env\<close>. The
  progress callback and its ticker are not modelled, the counting of a snapshot is.
\<close>

section \<open>Data\<close>

record send_channel =
  sc_name :: string
  sc_ip :: string

record interface_binding =
  ib_name :: string
  ib_type :: string
  ib_ip :: string

record channel_detail =
  cd_state :: string
  cd_interface_name :: string
  cd_local_ip :: string
  cd_bytes_sent :: int64
  cd_mbps_now :: rat
  cd_mbps30s :: rat
  cd_failures :: int64
  cd_last_error :: string

record send_options =
  so_explicit_resume :: bool
  so_chunk_size :: int64
  so_lab :: bool
  so_lab_receive_path :: string
  so_receive_rel_path :: string
  so_publish_name :: string
  so_folder_result :: string
  so_allow_new_interfaces :: bool
  so_auth_secret :: bytes

record progress_snapshot =
  ps_cable_bytes :: int64
  ps_wifi_bytes :: int64
  ps_total_bytes :: int64
  ps_cable_total :: int64
  ps_wifi_total :: int64
  ps_total_size :: int64
  ps_chunks_total :: int64
  ps_chunks_done :: int64
  ps_chunks_failed :: int64
  ps_chunks_pending :: int64
  ps_chunks_sending :: int64
  ps_resume_supported :: bool
  ps_manifest_path :: string
  ps_channel_details :: "(string, channel_detail) gomap"

record manifest_saver =
  sav_interval :: int
  sav_last :: gotime
  sav_last_err :: "string option"

datatype send_worker = SIdle | SBusy chunk_state send_channel | SFinished

record send_env =
  sv_opts :: send_options
  sv_base :: string
  sv_content :: bytes
  sv_target :: string
  sv_local_ips :: "string list"
  sv_path :: string \<comment> \<open>the manifest file\<close>
  sv_marshal :: "manifest \<Rightarrow> bytes result"
  sv_sha :: "bytes \<Rightarrow> bytes"
  sv_hmac :: "bytes \<Rightarrow> bytes \<Rightarrow> bytes"

record sender =
  sn_mf :: manifest
  sn_workers :: "send_worker list"
  sn_in_flight :: "(string, int) gomap"
  sn_channels :: "send_channel list"
  sn_stats :: "(string, channel_detail) gomap"
  sn_sched :: weighted_scheduler
  sn_hard_err :: "string option"
  sn_canceled :: bool \<comment> \<open>the caller's context\<close>
  sn_stopped :: bool \<comment> \<open>\<open>sendCancel\<close> has been called\<close>
  sn_saver :: manifest_saver
  sn_world :: world

definition max_attempts_per_chunk :: int where "max_attempts_per_chunk = 3"

definition zero_detail :: channel_detail where
  "zero_detail = \<lparr>cd_state = '''', cd_interface_name = '''', cd_local_ip = '''', cd_bytes_sent = 0,
     cd_mbps_now = 0, cd_mbps30s = 0, cd_failures = 0, cd_last_error = ''''\<rparr>"

section \<open>Identity and manifest\<close>

definition build_identity :: "(bytes \<Rightarrow> bytes) \<Rightarrow> string \<Rightarrow> int64 \<Rightarrow> int64 \<Rightarrow> string \<Rightarrow> int64 \<Rightarrow> string \<Rightarrow> string" where
  "build_identity sha absPath sz modUnix target chunkSize fingerprint =
     hex_encode (take 16 (sha (join_with (CHR ''|'') [absPath, itoa sz, itoa modUnix, target, itoa chunkSize, fingerprint])))"

text \<open>\<open>io.NewSectionReader\<close>, read to its end: what there is of the section.\<close>

definition section_of :: "bytes \<Rightarrow> int64 \<Rightarrow> int64 \<Rightarrow> bytes" where
  "section_of content off sz = take (nat sz) (drop (nat off) content)"

text \<open>The reads may fail: \<open>io_ok\<close> is the outcome of the copies.\<close>

definition hash_section :: "(bytes \<Rightarrow> bytes) \<Rightarrow> bytes \<Rightarrow> unit result \<Rightarrow> int64 \<Rightarrow> int64 \<Rightarrow> string result" where
  "hash_section sha content io_ok off sz =
     (case io_ok of Inl e \<Rightarrow> Inl e | Inr _ \<Rightarrow> Inr (hex_encode (sha (section_of content off sz))))"

definition fingerprint_window :: int64 where "fingerprint_window = 64 * 1024"

definition content_fingerprint :: "(bytes \<Rightarrow> bytes) \<Rightarrow> bytes \<Rightarrow> unit result \<Rightarrow> int64 \<Rightarrow> string result" where
  "content_fingerprint sha content io_ok sz =
     (let head = ''size:'' @ itoa sz @ [NUL] in
      if sz \<le> 2 * fingerprint_window then
        (if 0 < sz then
           (case io_ok of Inl e \<Rightarrow> Inl e | Inr _ \<Rightarrow> Inr (hex_encode (sha (head @ section_of content 0 sz))))
         else Inr (hex_encode (sha head)))
      else case io_ok of
          Inl e \<Rightarrow> Inl e
        | Inr _ \<Rightarrow> Inr (hex_encode (sha (head @ section_of content 0 fingerprint_window
            @ section_of content (sz - fingerprint_window) fingerprint_window))))"

definition manifest_complete :: "manifest \<Rightarrow> bool" where
  "manifest_complete m \<longleftrightarrow> mf_chunks m \<noteq> [] \<and> list_all (\<lambda>c. cs_status c = StatusDone) (mf_chunks m)"

text \<open>\<open>nano\<close> is \<open>time.Now().UnixNano()\<close>, which makes the transfer identifier.\<close>

definition new_manifest ::
    "int64 \<Rightarrow> gotime \<Rightarrow> string \<Rightarrow> string \<Rightarrow> int64 \<Rightarrow> int64 \<Rightarrow> string \<Rightarrow> string \<Rightarrow> int64 \<Rightarrow> plan \<Rightarrow> manifest" where
  "new_manifest nano now identity fileName totalBytes chunkSize targetAddr absPath modUnix p =
     \<lparr>mf_schema_version = 1, mf_transfer_id = ''tx-'' @ itoa nano, mf_type = ''p2p'', mf_file_name = fileName,
      mf_total_bytes = totalBytes, mf_chunk_size = chunkSize, mf_created_at = now, mf_updated_at = now,
      mf_source = \<lparr>src_type = ''p2p'', src_address = '''', src_url = '''', src_identity = identity,
        src_abs_path = absPath, src_mod_time = modUnix\<rparr>,
      mf_target = \<lparr>tgt_type = ''p2p'', tgt_address = targetAddr, tgt_path = dir_name absPath\<rparr>,
      mf_chunks = map pending_chunk (pl_chunks p)\<rparr>"

text \<open>\<open>stored\<close> is the result of \<open>manifest.Load\<close>, \<open>fresh\<close> the manifest that \<open>newManifest\<close> would make.\<close>

definition load_or_create_manifest ::
    "manifest result \<Rightarrow> string \<Rightarrow> string \<Rightarrow> int64 \<Rightarrow> int64 \<Rightarrow> string \<Rightarrow> bool \<Rightarrow> manifest \<Rightarrow> manifest result" where
  "load_or_create_manifest stored identity fileName sz chunkSize targetAddr explicitResume fresh =
     (case stored of
        Inr m \<Rightarrow>
          if mf_file_name m = fileName \<and> mf_total_bytes m = sz \<and> mf_chunk_size m = chunkSize
             \<and> tgt_address (mf_target m) = targetAddr \<and> src_identity (mf_source m) = identity
          then (if explicitResume then Inr (activate_resume max_attempts_per_chunk m)
                else if has_canceled_chunks m \<or> manifest_complete m then Inr fresh
                else Inr m)
          else if explicitResume then Inl ''manifest incompatible for resume''
          else Inr fresh
      | Inl _ \<Rightarrow> if explicitResume then Inl ''resume requested but manifest not found'' else Inr fresh)"

section \<open>Channels\<close>

definition send_channel_states :: "send_channel list \<Rightarrow> (string, int) gomap \<Rightarrow> (string, channel_detail) gomap \<Rightarrow> channel list" where
  "send_channel_states channels inFlight stats =
     map (\<lambda>c.
        let row = \<lparr>chn_name = sc_name c, chn_active = True, chn_in_flight = gomap_get inFlight (sc_name c) 0,
                   chn_mbps30s = 0, chn_failures = 0, chn_last_error = ''''\<rparr> in
        case map_of stats (sc_name c) of
          None \<Rightarrow> row
        | Some d \<Rightarrow> row\<lparr>chn_mbps30s := cd_mbps30s d, chn_failures := cd_failures d,
                         chn_last_error := cd_last_error d\<rparr>) channels"

definition retryable_pending :: "manifest \<Rightarrow> chunk_state list" where
  "retryable_pending m = sort_by_index (filter (\<lambda>c. cs_status c = StatusPending
     \<or> cs_status c = StatusFailed \<and> cs_attempts c < max_attempts_per_chunk) (mf_chunks m))"

text \<open>The loop over the bindings: the first wired and the first wireless address.\<close>

fun first_ips :: "interface_binding list \<Rightarrow> string \<times> string \<Rightarrow> string \<times> string" where
  "first_ips [] (cable, wifi) = (cable, wifi)"
| "first_ips (it # its) (cable, wifi) =
     first_ips its
       (if ib_type it = ''ethernet'' \<or> ib_type it = ''usb_ethernet'' \<or> ib_type it = ''unknown''
        then (if cable = '''' then ib_ip it else cable, wifi)
        else if ib_type it = ''wifi'' then (cable, if wifi = '''' then ib_ip it else wifi)
        else (cable, wifi))"

definition build_dynamic_channels :: "string list \<Rightarrow> interface_binding list option \<Rightarrow> send_channel list" where
  "build_dynamic_channels localIPs provider =
     (case provider of
        None \<Rightarrow> map (\<lambda>(i, ip). \<lparr>sc_name = (if i = 0 then ''cable'' else ''wifi''), sc_ip = ip\<rparr>)
            (zip [0..<length localIPs] localIPs)
      | Some bindings \<Rightarrow>
          let (cable, wifi) = first_ips bindings ('''', '''') in
          (if cable \<noteq> '''' then [\<lparr>sc_name = ''cable'', sc_ip = cable\<rparr>] else [])
          @ (if wifi \<noteq> '''' then [\<lparr>sc_name = ''wifi'', sc_ip = wifi\<rparr>] else []))"

definition find_send_channel :: "send_channel list \<Rightarrow> string \<Rightarrow> send_channel option" where
  "find_send_channel channels name = find (\<lambda>c. sc_name c = name) channels"

text \<open>\<open>channelStats\<close>: a map from names to details.\<close>

definition stats_set :: "string \<Rightarrow> channel_detail \<Rightarrow> (string, channel_detail) gomap \<Rightarrow> (string, channel_detail) gomap" where
  "stats_set name d stats = AList.update name d stats"

definition stats_get :: "(string, channel_detail) gomap \<Rightarrow> string \<Rightarrow> channel_detail option" where
  "stats_get stats name = map_of stats name"

text \<open>\<open>get\<close> with the zero detail for an absent name, as its callers use it.\<close>

definition stats_cur :: "(string, channel_detail) gomap \<Rightarrow> string \<Rightarrow> channel_detail" where
  "stats_cur stats name = (case stats_get stats name of None \<Rightarrow> zero_detail | Some d \<Rightarrow> d)"

definition activate_detail :: "send_channel \<Rightarrow> channel_detail \<Rightarrow> channel_detail" where
  "activate_detail ch d = d\<lparr>cd_state := ''active'', cd_local_ip := sc_ip ch,
     cd_interface_name := (if cd_interface_name d = '''' then sc_name ch else cd_interface_name d)\<rparr>"

definition update_from_channels :: "send_channel list \<Rightarrow> (string, channel_detail) gomap \<Rightarrow> (string, channel_detail) gomap" where
  "update_from_channels channels stats =
     (let stats = foldl (\<lambda>st ch. stats_set (sc_name ch) (activate_detail ch (stats_cur st (sc_name ch))) st) stats channels in
      foldl (\<lambda>st n. if n \<notin> set (map sc_name channels)
          then stats_set n ((stats_cur st n)\<lparr>cd_state := ''offline''\<rparr>) st else st) stats [''cable'', ''wifi''])"

section \<open>Progress\<close>

text \<open>\<open>emit\<close>: the counts of one snapshot; a canceled chunk counts as pending.\<close>

definition emit :: "int64 \<Rightarrow> int64 \<Rightarrow> int64 \<Rightarrow> int64 \<Rightarrow> int64 \<Rightarrow> string \<Rightarrow> manifest \<Rightarrow> (string, channel_detail) gomap \<Rightarrow> progress_snapshot" where
  "emit cable wifi totalSize cableTotal wifiTotal path m stats =
     \<lparr>ps_cable_bytes = cable, ps_wifi_bytes = wifi, ps_total_bytes = i64 (cable + wifi),
      ps_cable_total = cableTotal, ps_wifi_total = wifiTotal, ps_total_size = totalSize,
      ps_chunks_total = int (length (mf_chunks m)), ps_chunks_done = count_status StatusDone m,
      ps_chunks_failed = count_status StatusFailed m,
      ps_chunks_pending = int (length (filter (\<lambda>c. cs_status c = StatusPending \<or> cs_status c = StatusCanceled) (mf_chunks m))),
      ps_chunks_sending = count_status StatusSending m, ps_resume_supported = True, ps_manifest_path = path, ps_channel_details = stats\<rparr>"

text \<open>The live byte counters, and the reader of one attempt that counts into them.\<close>

record byte_counters =
  bc_cable :: int64
  bc_wifi :: int64

record progress_reader =
  pr_channel :: string
  pr_counted :: int64

definition add_counter :: "string \<Rightarrow> int \<Rightarrow> byte_counters \<Rightarrow> byte_counters" where
  "add_counter channel n bc =
     (if channel = ''cable'' \<or> channel = ''loopback'' \<or> channel = ''local'' then bc\<lparr>bc_cable := i64 (bc_cable bc + n)\<rparr>
      else if channel = ''wifi'' then bc\<lparr>bc_wifi := i64 (bc_wifi bc + n)\<rparr>
      else bc)"

definition has_counter :: "string \<Rightarrow> bool" where
  "has_counter channel \<longleftrightarrow> channel \<in> {''cable'', ''loopback'', ''local'', ''wifi''}"

definition progress_read :: "int64 \<Rightarrow> progress_reader \<times> byte_counters \<Rightarrow> progress_reader \<times> byte_counters" where
  "progress_read n = (\<lambda>(p, bc).
     if 0 < n \<and> has_counter (pr_channel p)
     then (p\<lparr>pr_counted := i64 (pr_counted p + n)\<rparr>, add_counter (pr_channel p) n bc) else (p, bc))"

definition rollback :: "progress_reader \<times> byte_counters \<Rightarrow> progress_reader \<times> byte_counters" where
  "rollback = (\<lambda>(p, bc).
     (p\<lparr>pr_counted := 0\<rparr>, if pr_counted p = 0 then bc else add_counter (pr_channel p) (- pr_counted p) bc))"

section \<open>Saving\<close>

definition new_manifest_saver :: "int \<Rightarrow> manifest_saver" where
  "new_manifest_saver interval = \<lparr>sav_interval = interval, sav_last = 0, sav_last_err = None\<rparr>"

definition saver_flush :: "send_env \<Rightarrow> gotime \<Rightarrow> manifest \<Rightarrow> manifest_saver \<Rightarrow> world \<Rightarrow> unit result \<times> manifest_saver \<times> world" where
  "saver_flush env now m s w =
     (case save_manifest (sv_marshal env) now (sv_path env) m w of
        (Inl e, w) \<Rightarrow> (Inl e, s\<lparr>sav_last_err := Some e\<rparr>, w)
      | (Inr _, w) \<Rightarrow> (Inr (), s\<lparr>sav_last := now, sav_last_err := None\<rparr>, w))"

definition saver_save :: "send_env \<Rightarrow> gotime \<Rightarrow> bool \<Rightarrow> manifest \<Rightarrow> manifest_saver \<Rightarrow> world \<Rightarrow> manifest_saver \<times> world" where
  "saver_save env now force m s w =
     (if \<not> force \<and> sav_last s \<noteq> 0 \<and> now - sav_last s < sav_interval s then (s, w)
      else snd (saver_flush env now m s w))"

definition save_now :: "send_env \<Rightarrow> gotime \<Rightarrow> bool \<Rightarrow> sender \<Rightarrow> sender" where
  "save_now env now force s =
     (let (sv, w) = saver_save env now force (sn_mf s) (sn_saver s) (sn_world s)
      in s\<lparr>sn_saver := sv, sn_world := w\<rparr>)"

section \<open>Sending one chunk\<close>

text \<open>What the calls of one attempt return, in their order.\<close>

record attempt =
  at_dial :: "unit result"
  at_header :: "unit result"
  at_copied :: int64
  at_copy :: "unit result"
  at_ack :: "chunk_ack result"
  at_ctx :: "string option" \<comment> \<open>the error of the context at the end\<close>

definition send_chunk :: "string \<Rightarrow> header \<Rightarrow> attempt \<Rightarrow> unit result" where
  "send_chunk localIP h a =
     (if trim_space localIP \<noteq> '''' \<and> parse_ip localIP = None then Inl ''invalid local IP''
      else case at_dial a of Inl e \<Rightarrow> Inl e | Inr _ \<Rightarrow>
      case at_header a of Inl e \<Rightarrow> Inl e | Inr _ \<Rightarrow>
      case at_copy a of Inl e \<Rightarrow> Inl e | Inr _ \<Rightarrow>
      if at_copied a \<noteq> h_part_size h then Inl ''chunk size mismatch''
      else case at_ack a of Inl e \<Rightarrow> Inl e | Inr ack \<Rightarrow>
      if ack_status ack \<noteq> ''done'' \<or> ack_chunk_index ack \<noteq> h_chunk_index h then Inl ''chunk ack failed''
      else case at_ctx a of Some e \<Rightarrow> Inl e | None \<Rightarrow> Inr ())"

definition send_header :: "send_env \<Rightarrow> manifest \<Rightarrow> chunk_state \<Rightarrow> string \<Rightarrow> header" where
  "send_header env mf c hash =
     sign_header (sv_hmac env) (so_auth_secret (sv_opts env))
       \<lparr>h_message_type = ''chunk_start'', h_transfer_id = mf_transfer_id mf, h_file_name = sv_base env,
        h_part_index = i64 (cs_index c + 1), h_total_parts = int (length (mf_chunks mf)), h_part_size = cs_size c,
        h_chunk_index = cs_index c, h_offset = cs_offset c, h_total_bytes = int (length (sv_content env)),
        h_lab = so_lab (sv_opts env), h_lab_path = so_lab_receive_path (sv_opts env),
        h_receive_rel_path = so_receive_rel_path (sv_opts env), h_publish_name = so_publish_name (sv_opts env),
        h_folder_result = so_folder_result (sv_opts env), h_chunk_sha256 = hash, h_auth = ''''\<rparr>"

section \<open>The workers\<close>

definition set_send_worker :: "nat \<Rightarrow> send_worker \<Rightarrow> sender \<Rightarrow> sender" where
  "set_send_worker k wk s = s\<lparr>sn_workers := (sn_workers s)[k := wk]\<rparr>"

definition set_detail :: "string \<Rightarrow> (channel_detail \<Rightarrow> channel_detail) \<Rightarrow> sender \<Rightarrow> sender" where
  "set_detail name f s =
     (case stats_get (sn_stats s) name of None \<Rightarrow> s | Some d \<Rightarrow> s\<lparr>sn_stats := stats_set name (f d) (sn_stats s)\<rparr>)"

definition add_in_flight :: "string \<Rightarrow> int \<Rightarrow> sender \<Rightarrow> sender" where
  "add_in_flight ch d s = s\<lparr>sn_in_flight := AList.update ch (gomap_get (sn_in_flight s) ch 0 + d) (sn_in_flight s)\<rparr>"

definition drop_in_flight :: "string \<Rightarrow> sender \<Rightarrow> sender" where
  "drop_in_flight ch s = (if 0 < gomap_get (sn_in_flight s) ch 0 then add_in_flight ch (- 1) s else s)"

definition send_stopping :: "sender \<Rightarrow> bool" where
  "send_stopping s \<longleftrightarrow> sn_canceled s \<or> sn_stopped s"

definition refresh_channels :: "send_env \<Rightarrow> interface_binding list option \<Rightarrow> sender \<Rightarrow> sender" where
  "refresh_channels env provider s =
     (let updated = build_dynamic_channels (sv_local_ips env) provider in
      s\<lparr>sn_channels := updated, sn_stats := update_from_channels updated (sn_stats s)\<rparr>)"

text \<open>The section that chooses and marks a chunk, all of it under the mutex.\<close>

definition send_dispatch :: "send_env \<Rightarrow> gotime \<Rightarrow> nat \<Rightarrow> sender \<Rightarrow> sender" where
  "send_dispatch env now k s =
     (let pending = retryable_pending (sn_mf s) in
      if pending = [] then set_send_worker k SFinished s
      else case next_chunk now (sn_sched s) pending
               (send_channel_states (sn_channels s) (sn_in_flight s) (sn_stats s)) of
        ((idx, pickCh, ok), sched) \<Rightarrow>
          (let s = s\<lparr>sn_sched := sched\<rparr> in
           if \<not> ok then s
           else case find_send_channel (sn_channels s) pickCh of
             None \<Rightarrow> s
           | Some selected \<Rightarrow>
               (case mark_and_get_sending now idx (sc_name selected) (sn_mf s) of
                  (chunkState, mf) \<Rightarrow>
                    (let s = set_detail (sc_name selected) (\<lambda>d. d\<lparr>cd_state := ''active''\<rparr>)
                           (save_now env now False (add_in_flight (sc_name selected) 1 (s\<lparr>sn_mf := mf\<rparr>)))
                     in case chunkState of
                          None \<Rightarrow> s
                        | Some c \<Rightarrow> set_send_worker k (SBusy c selected) s))))"

definition hash_failed :: "send_env \<Rightarrow> gotime \<Rightarrow> string \<Rightarrow> nat \<Rightarrow> chunk_state \<Rightarrow> send_channel \<Rightarrow> sender \<Rightarrow> sender" where
  "hash_failed env now err k c ch s =
     (let s = drop_in_flight (sc_name ch) s;
          s = save_now env now True (s\<lparr>sn_mf := mark_failed (cs_index c) err (sn_mf s),
                sn_hard_err := Some (''hash chunk: '' @ err)\<rparr>)
      in set_send_worker k SFinished (s\<lparr>sn_stopped := True\<rparr>))"

text \<open>The decision after a failed attempt: try again, or give up the transfer.\<close>

definition requeue_send :: "int64 \<Rightarrow> string \<Rightarrow> manifest \<Rightarrow> manifest \<times> string option" where
  "requeue_send idx err mf =
     (let mf = mark_failed idx err mf in
      case get_chunk mf idx of
        None \<Rightarrow> (mf, None)
      | Some c \<Rightarrow>
          if cs_attempts c < max_attempts_per_chunk
          then (upd_chunk idx (\<lambda>c. c\<lparr>cs_status := StatusPending\<rparr>) mf, None)
          else (mf, Some ''chunk exceeded retries''))"

definition fail_detail :: "string \<Rightarrow> channel_detail \<Rightarrow> channel_detail" where
  "fail_detail err d = d\<lparr>cd_failures := i64 (cd_failures d + 1), cd_last_error := err,
     cd_state := (if 3 \<le> i64 (cd_failures d + 1) then ''cooldown'' else ''offline'')\<rparr>"

definition send_failed :: "send_env \<Rightarrow> gotime \<Rightarrow> string \<Rightarrow> nat \<Rightarrow> chunk_state \<Rightarrow> send_channel \<Rightarrow> sender \<Rightarrow> sender" where
  "send_failed env now err k c ch s =
     (let s = drop_in_flight (sc_name ch) s;
          (mf, hard) = requeue_send (cs_index c) err (sn_mf s);
          s = s\<lparr>sn_mf := mf, sn_hard_err := (case hard of None \<Rightarrow> sn_hard_err s | Some e \<Rightarrow> Some e)\<rparr>;
          s = set_detail (sc_name ch) (fail_detail err) (save_now env now (sn_hard_err s \<noteq> None) s);
          s = s\<lparr>sn_sched := report_failure now (sc_name ch) (sn_sched s)\<rparr>
      in if send_stopping s then set_send_worker k SFinished s
         else if sn_hard_err s \<noteq> None then set_send_worker k SFinished (s\<lparr>sn_stopped := True\<rparr>)
         else set_send_worker k SIdle s)"

definition send_done :: "send_env \<Rightarrow> gotime \<Rightarrow> int \<Rightarrow> string \<Rightarrow> nat \<Rightarrow> chunk_state \<Rightarrow> send_channel \<Rightarrow> sender \<Rightarrow> sender" where
  "send_done env now dur hash k c ch s =
     (let s = drop_in_flight (sc_name ch) (s\<lparr>sn_sched := report_success (sc_name ch) (cs_size c) dur (sn_sched s)\<rparr>);
          s = save_now env now False (s\<lparr>sn_mf := mark_done now (cs_index c) (cs_size c) hash (sn_mf s)\<rparr>);
          s = set_detail (sc_name ch) (\<lambda>d. d\<lparr>cd_state := ''active'', cd_last_error := '''',
                cd_bytes_sent := i64 (cd_bytes_sent d + cs_size c)\<rparr>) s
      in set_send_worker k SIdle s)"

text \<open>The state when the workers start, and what is returned after they have ended.\<close>

definition send_start :: "send_env \<Rightarrow> interface_binding list option \<Rightarrow> manifest \<Rightarrow> world \<Rightarrow> sender" where
  "send_start env provider mf w =
     (let stats0 = [(''cable'', zero_detail\<lparr>cd_state := ''offline''\<rparr>), (''wifi'', zero_detail\<lparr>cd_state := ''offline''\<rparr>)];
          loop = so_lab (sv_opts env) \<or> is_loopback_target (sv_target env);
          channels = (if loop then [\<lparr>sc_name = ''loopback'', sc_ip = ''''\<rparr>] else build_dynamic_channels (sv_local_ips env) provider);
          onloop = zero_detail\<lparr>cd_state := ''active'', cd_interface_name := ''loopback''\<rparr>;
          stats = (if loop then stats_set ''cable'' onloop (stats_set ''loopback'' onloop stats0)
                   else update_from_channels channels stats0);
          n = max 1 (length channels);
          n = (if so_allow_new_interfaces (sv_opts env) \<and> n < 2 then 2 else n)
      in \<lparr>sn_mf = mf, sn_workers = replicate n SIdle, sn_in_flight = [], sn_channels = channels, sn_stats = stats,
          sn_sched = new_weighted_scheduler, sn_hard_err = None, sn_canceled = False, sn_stopped = False,
          sn_saver = new_manifest_saver (750 * millisecond), sn_world = w\<rparr>)"

definition send_finish :: "send_env \<Rightarrow> gotime \<Rightarrow> sender \<Rightarrow> unit result \<times> sender" where
  "send_finish env now s =
     (if sn_canceled s then
        (Inl ''context canceled'', save_now env now True (s\<lparr>sn_mf := mark_canceled_pending (sn_mf s)\<rparr>))
      else case sn_hard_err s of
        Some e \<Rightarrow> (Inl e, save_now env now True s)
      | None \<Rightarrow>
          (case saver_flush env now (sn_mf s) (sn_saver s) (sn_world s) of
             (Inl e, sv, w) \<Rightarrow> (Inl (''persist final manifest: '' @ e), s\<lparr>sn_saver := sv, sn_world := w\<rparr>)
           | (Inr _, sv, w) \<Rightarrow>
               (if list_all (\<lambda>c. cs_status c = StatusDone) (mf_chunks (sn_mf s)) then Inr () else Inl ''transfer incomplete'',
                s\<lparr>sn_saver := sv, sn_world := w\<rparr>)))"

section \<open>The start of a transfer\<close>

definition sender_manifest_path :: "string \<Rightarrow> string \<Rightarrow> string" where
  "sender_manifest_path profile identity =
     (let base = (if profile = '''' then ''C:'' @ bs # ''Users'' @ bs # ''Public'' else profile)
      in join_path [join_path [base, ''Downloads'', ''MultiSend'', ''manifests''], identity @ ''.manifest.json''])"

text \<open>
  \<open>SenderIdentity\<close> and the part of \<open>SendFileSplitWithResultCtx\<close> before the workers. \<open>file\<close> is what opening the
  source and \<open>Stat\<close> give: its content, modification time and whether it is a directory. The result
  \<open>None\<close> means that the planning never returns.
\<close>

record source_file =
  sf_content :: bytes
  sf_mod_unix :: int64
  sf_is_dir :: bool

definition sender_identity ::
    "(bytes \<Rightarrow> bytes) \<Rightarrow> string \<Rightarrow> source_file result \<Rightarrow> unit result \<Rightarrow> string \<Rightarrow> int64 \<Rightarrow> string result" where
  "sender_identity sha absPath file readOk target chunkSize =
     (case file of
        Inl e \<Rightarrow> Inl e
      | Inr f \<Rightarrow>
          if sf_is_dir f then Inl ''source is not a file''
          else
            (let sz = int (length (sf_content f));
                 cs = (if chunkSize \<le> 0 then auto_chunk_size sz else chunkSize)
             in case content_fingerprint sha (sf_content f) readOk sz of
                  Inl e \<Rightarrow> Inl e
                | Inr fp \<Rightarrow> Inr (build_identity sha absPath sz (sf_mod_unix f) target cs fp)))"

definition prepare_send ::
    "(bytes \<Rightarrow> bytes) \<Rightarrow> (manifest \<Rightarrow> bytes result) \<Rightarrow> (bytes \<Rightarrow> manifest result) \<Rightarrow> string \<Rightarrow> send_options \<Rightarrow>
     string list \<Rightarrow> string \<Rightarrow> source_file result \<Rightarrow> unit result \<Rightarrow> string \<Rightarrow> int64 \<Rightarrow> gotime \<Rightarrow> world \<Rightarrow>
     ((string \<times> manifest) result \<times> world) option" where
  "prepare_send sha enc dec profile opts localIPs absPath file readOk target nano now w =
     (if localIPs = [] then Some (Inl ''no usable local IP'', w)
      else case file of Inl e \<Rightarrow> Some (Inl e, w) | Inr f \<Rightarrow>
        (let sz = int (length (sf_content f));
             cs = (if so_chunk_size opts \<le> 0 then auto_chunk_size sz else so_chunk_size opts)
         in case build_plan sz cs of
              None \<Rightarrow> None
            | Some (Inl e) \<Rightarrow> Some (Inl e, w)
            | Some (Inr p) \<Rightarrow>
                (case content_fingerprint sha (sf_content f) readOk sz of
                   Inl e \<Rightarrow> Some (Inl e, w)
                 | Inr fp \<Rightarrow>
                     (let identity = build_identity sha absPath sz (sf_mod_unix f) target cs fp;
                          path = sender_manifest_path profile identity;
                          fresh = new_manifest nano now identity (base_name absPath) sz cs target absPath (sf_mod_unix f) p;
                          (stored, w) = load_file dec path w
                      in case load_or_create_manifest stored identity (base_name absPath) sz cs target
                                (so_explicit_resume opts) fresh of
                           Inl e \<Rightarrow> Some (Inl e, w)
                         | Inr mf \<Rightarrow>
                             (case save_manifest enc now path mf w of
                                (Inl e, w) \<Rightarrow> Some (Inl e, w)
                              | (Inr _, w) \<Rightarrow> Some (Inr (path, mf), w))))))"

section \<open>Properties\<close>

text \<open>The counters while an attempt reads and other workers count: reads of the attempt, additions of others.\<close>

datatype count_event = Read int64 | Other string int

fun count_step :: "count_event \<Rightarrow> progress_reader \<times> byte_counters \<Rightarrow> progress_reader \<times> byte_counters" where
  "count_step (Read n) pb = progress_read n pb"
| "count_step (Other ch n) (p, bc) = (p, add_counter ch n bc)"

fun count_others :: "count_event \<Rightarrow> byte_counters \<Rightarrow> byte_counters" where
  "count_others (Read n) bc = bc"
| "count_others (Other ch n) bc = add_counter ch n bc"

lemma i64_sums: "i64 (i64 a + b) = i64 (a + b)" "i64 (a + i64 b) = i64 (a + b)"
  using i64_cong_add [of a b] i64_cong_add [of b a] by (simp_all add: add.commute)

lemma add_counter_add: "add_counter ch a (add_counter ch b bc) = add_counter ch (b + a) bc"
  by (simp add: add_counter_def i64_sums add.assoc)

lemma add_counter_comm: "add_counter ch a (add_counter ch' b bc) = add_counter ch' b (add_counter ch a bc)"
  by (simp add: add_counter_def i64_sums algebra_simps)

lemma add_counter_i64: "add_counter ch (i64 a) bc = add_counter ch a bc"
  by (simp add: add_counter_def i64_sums)

lemma add_counter_none: "\<not> has_counter ch \<Longrightarrow> add_counter ch a bc = bc"
  by (simp add: add_counter_def has_counter_def)

definition counters_ok :: "byte_counters \<Rightarrow> bool" where
  "counters_ok bc \<longleftrightarrow> in_i64 (bc_cable bc) \<and> in_i64 (bc_wifi bc)"

lemma add_counter_zero: "counters_ok bc \<Longrightarrow> add_counter ch 0 bc = bc"
  by (simp add: add_counter_def counters_ok_def in_i64_def)

lemma add_counter_ok: "counters_ok bc \<Longrightarrow> counters_ok (add_counter ch n bc)"
  using in_i64_i64 by (simp add: add_counter_def counters_ok_def)

lemma count_fold:
  "counters_ok bo \<Longrightarrow> fold count_step es (\<lparr>pr_channel = ch, pr_counted = n\<rparr>, add_counter ch n bo) =
     (\<lparr>pr_channel = ch, pr_counted = n'\<rparr>, bc') \<Longrightarrow>
   bc' = add_counter ch n' (fold count_others es bo) \<and> counters_ok (fold count_others es bo)"
proof (induction es arbitrary: n bo)
  case (Cons e es)
  show ?case
  proof (cases e)
    case (Read k)
    show ?thesis
    proof (cases "0 < k \<and> has_counter ch")
      case True
      then have "count_step e (\<lparr>pr_channel = ch, pr_counted = n\<rparr>, add_counter ch n bo)
          = (\<lparr>pr_channel = ch, pr_counted = i64 (n + k)\<rparr>, add_counter ch (i64 (n + k)) bo)"
        by (simp add: Read progress_read_def add_counter_add add_counter_i64)
      then show ?thesis using Cons.IH [of bo "i64 (n + k)"] Cons.prems Read by simp
    next
      case False
      then have "count_step e (\<lparr>pr_channel = ch, pr_counted = n\<rparr>, add_counter ch n bo)
          = (\<lparr>pr_channel = ch, pr_counted = n\<rparr>, add_counter ch n bo)" by (auto simp: Read progress_read_def)
      then show ?thesis using Cons.IH [of bo n] Cons.prems Read by simp
    qed
  next
    case (Other ch' k)
    then show ?thesis using Cons.IH [of "add_counter ch' k bo" n] Cons.prems add_counter_ok [of bo ch' k]
        add_counter_comm [of ch' k ch n bo] by simp
  qed
qed (auto simp: counters_ok_def)

lemma count_channel: "pr_channel (fst (fold count_step es pb)) = pr_channel (fst pb)"
proof (induction es arbitrary: pb)
  case (Cons e es)
  have "pr_channel (fst (count_step e pb)) = pr_channel (fst pb)"
    by (cases e; cases pb) (auto simp: progress_read_def)
  then show ?case using Cons by simp
qed simp

text \<open>
  C25: a failed attempt leaves no trace in the progress counters. Whatever an attempt has read, and however
  the other workers' counting is interleaved with it, rolling it back leaves the counters as if the
  attempt had not been made, also when they wrap around.
\<close>

theorem rollback_exact:
  assumes "in_i64 (bc_cable bc)" "in_i64 (bc_wifi bc)"
  shows "snd (rollback (fold count_step es (\<lparr>pr_channel = ch, pr_counted = 0\<rparr>, bc))) = fold count_others es bc"
proof -
  have ok: "counters_ok bc" using assms by (simp add: counters_ok_def)
  obtain p bc' where f: "fold count_step es (\<lparr>pr_channel = ch, pr_counted = 0\<rparr>, bc) = (p, bc')" by force
  have "pr_channel p = ch" using count_channel [of es "(\<lparr>pr_channel = ch, pr_counted = 0\<rparr>, bc)"] f by simp
  then obtain n where p: "p = \<lparr>pr_channel = ch, pr_counted = n\<rparr>" by (cases p) simp
  have c: "bc' = add_counter ch n (fold count_others es bc)" "counters_ok (fold count_others es bc)"
    using count_fold [of bc es ch 0 n bc'] f ok add_counter_zero [OF ok] by (simp_all add: p)
  then show ?thesis using add_counter_zero [OF c(2)]
    by (simp add: f p rollback_def c(1) add_counter_add)
qed

theorem rollback_exact_witness:
  "snd (rollback (fold count_step [Read 3, Other ''cable'' 5, Read 4] (\<lparr>pr_channel = ''cable'', pr_counted = 0\<rparr>,
     \<lparr>bc_cable = 9223372036854775800, bc_wifi = 0\<rparr>))) = \<lparr>bc_cable = 9223372036854775805, bc_wifi = 0\<rparr>"
proof -
  let ?bc = "\<lparr>bc_cable = 9223372036854775800, bc_wifi = 0\<rparr>"
  have "in_i64 (bc_cable ?bc)" "in_i64 (bc_wifi ?bc)" by (simp_all add: in_i64_def)
  from rollback_exact [OF this, of "[Read 3, Other ''cable'' 5, Read 4]" "''cable''"] show ?thesis
    by (simp add: add_counter_def i64_def)
qed

end
