(* ===== verification/SenderRun.thy ===== *)
theory SenderRun
  imports Sender
begin

text \<open>
  The interleavings of the sender's workers and their invariants: a chunk that is being sent is marked
  so and is sent by one worker only, the in-flight counters are exact, and the work of a run is bounded
  by the retries of its chunks.
\<close>

section \<open>Steps\<close>

inductive sender_local :: "send_env \<Rightarrow> sender \<Rightarrow> sender \<Rightarrow> bool" for env :: send_env where
  Stop: "k < length (sn_workers s) \<Longrightarrow> sn_workers s ! k = SIdle \<Longrightarrow> send_stopping s \<or> sn_hard_err s \<noteq> None \<Longrightarrow>
    sender_local env s (set_send_worker k SFinished s)"
| Refresh: "k < length (sn_workers s) \<Longrightarrow> sn_workers s ! k = SIdle \<Longrightarrow>
    so_allow_new_interfaces (sv_opts env) \<Longrightarrow> \<not> so_lab (sv_opts env) \<Longrightarrow> \<not> is_loopback_target (sv_target env) \<Longrightarrow>
    sender_local env s (refresh_channels env provider s)"
| Dispatch: "k < length (sn_workers s) \<Longrightarrow> sn_workers s ! k = SIdle \<Longrightarrow>
    sender_local env s (send_dispatch env now k s)"
| Hash_Fail: "k < length (sn_workers s) \<Longrightarrow> sn_workers s ! k = SBusy c ch \<Longrightarrow>
    hash_section (sv_sha env) (sv_content env) io (cs_offset c) (cs_size c) = Inl err \<Longrightarrow>
    sender_local env s (hash_failed env now err k c ch s)"
| Cancel: "sender_local env s (s\<lparr>sn_canceled := True\<rparr>)"

inductive sender_attempt :: "send_env \<Rightarrow> header \<Rightarrow> attempt \<Rightarrow> sender \<Rightarrow> sender \<Rightarrow> bool" for env :: send_env where
  Fail: "k < length (sn_workers s) \<Longrightarrow> sn_workers s ! k = SBusy c ch \<Longrightarrow>
    hash_section (sv_sha env) (sv_content env) (Inr ()) (cs_offset c) (cs_size c) = Inr hash \<Longrightarrow>
    h = send_header env (sn_mf s) c hash \<Longrightarrow> send_chunk (sc_ip ch) h a = Inl err \<Longrightarrow>
    sender_attempt env h a s (send_failed env now err k c ch s)"
| Done: "k < length (sn_workers s) \<Longrightarrow> sn_workers s ! k = SBusy c ch \<Longrightarrow>
    hash_section (sv_sha env) (sv_content env) (Inr ()) (cs_offset c) (cs_size c) = Inr hash \<Longrightarrow>
    h = send_header env (sn_mf s) c hash \<Longrightarrow> send_chunk (sc_ip ch) h a = Inr () \<Longrightarrow>
    sender_attempt env h a s (send_done env now dur hash k c ch s)"

text \<open>A run, with the attempts it makes.\<close>

inductive sender_trace :: "send_env \<Rightarrow> sender \<Rightarrow> (header \<times> attempt) list \<Rightarrow> sender \<Rightarrow> bool" for env s0 where
  Start: "sender_trace env s0 [] s0"
| Local: "sender_trace env s0 xs s \<Longrightarrow> sender_local env s s' \<Longrightarrow> sender_trace env s0 xs s'"
| Attempt: "sender_trace env s0 xs s \<Longrightarrow> sender_attempt env h a s s' \<Longrightarrow> sender_trace env s0 (xs @ [(h, a)]) s'"

section \<open>What the sections of code change\<close>

lemma save_now_simps [simp]:
  "sn_mf (save_now env now f s) = sn_mf s" "sn_workers (save_now env now f s) = sn_workers s"
  "sn_in_flight (save_now env now f s) = sn_in_flight s" "sn_sched (save_now env now f s) = sn_sched s"
  "sn_hard_err (save_now env now f s) = sn_hard_err s" "sn_canceled (save_now env now f s) = sn_canceled s"
  "sn_stopped (save_now env now f s) = sn_stopped s" "sn_channels (save_now env now f s) = sn_channels s"
  by (simp_all add: save_now_def split: prod.splits)

lemma set_detail_simps [simp]:
  "sn_mf (set_detail n f s) = sn_mf s" "sn_workers (set_detail n f s) = sn_workers s"
  "sn_in_flight (set_detail n f s) = sn_in_flight s" "sn_sched (set_detail n f s) = sn_sched s"
  "sn_hard_err (set_detail n f s) = sn_hard_err s" "sn_canceled (set_detail n f s) = sn_canceled s"
  "sn_stopped (set_detail n f s) = sn_stopped s"
  by (simp_all add: set_detail_def split: option.splits)

lemma flight_simps [simp]:
  "sn_mf (add_in_flight n d s) = sn_mf s" "sn_workers (add_in_flight n d s) = sn_workers s"
  "sn_sched (add_in_flight n d s) = sn_sched s" "sn_hard_err (add_in_flight n d s) = sn_hard_err s"
  "sn_canceled (add_in_flight n d s) = sn_canceled s" "sn_stopped (add_in_flight n d s) = sn_stopped s"
  "sn_mf (drop_in_flight n s) = sn_mf s" "sn_workers (drop_in_flight n s) = sn_workers s"
  "sn_sched (drop_in_flight n s) = sn_sched s" "sn_hard_err (drop_in_flight n s) = sn_hard_err s"
  "sn_canceled (drop_in_flight n s) = sn_canceled s" "sn_stopped (drop_in_flight n s) = sn_stopped s"
  by (simp_all add: add_in_flight_def drop_in_flight_def)

lemma set_send_worker_simps [simp]:
  "sn_mf (set_send_worker k wk s) = sn_mf s" "sn_workers (set_send_worker k wk s) = (sn_workers s)[k := wk]"
  "sn_in_flight (set_send_worker k wk s) = sn_in_flight s" "sn_sched (set_send_worker k wk s) = sn_sched s"
  "sn_hard_err (set_send_worker k wk s) = sn_hard_err s"
  by (simp_all add: set_send_worker_def)

lemma refresh_simps [simp]:
  "sn_mf (refresh_channels env p s) = sn_mf s" "sn_workers (refresh_channels env p s) = sn_workers s"
  "sn_in_flight (refresh_channels env p s) = sn_in_flight s" "sn_sched (refresh_channels env p s) = sn_sched s"
  "sn_hard_err (refresh_channels env p s) = sn_hard_err s"
  by (simp_all add: refresh_channels_def Let_def)

definition flight :: "sender \<Rightarrow> string \<Rightarrow> int" where
  "flight s n = gomap_get (sn_in_flight s) n 0"

lemma flight_more [simp]:
  "flight (add_in_flight n d s) m = (if m = n then flight s n + d else flight s m)"
  "flight (save_now env now f s) m = flight s m" "flight (set_detail k f' s) m = flight s m"
  "flight (set_send_worker i wk s) m = flight s m" "flight (refresh_channels env p s) m = flight s m"
  by (simp_all add: flight_def add_in_flight_def)

lemma flight_drop: "flight (drop_in_flight n s) m = (if m = n \<and> 0 < flight s n then flight s n - 1 else flight s m)"
  by (simp add: drop_in_flight_def flight_def [symmetric])

text \<open>A dispatch leaves the state as it is, ends the worker, or gives it a chunk that nobody sends.\<close>

lemma dispatch_cases:
  assumes "sched_ok (sn_sched s)"
  obtains (same) "sn_mf (send_dispatch env now k s) = sn_mf s" "sn_hard_err (send_dispatch env now k s) = sn_hard_err s"
      "sn_workers (send_dispatch env now k s) = sn_workers s \<or> sn_workers (send_dispatch env now k s) = (sn_workers s)[k := SFinished]"
      "sn_in_flight (send_dispatch env now k s) = sn_in_flight s" "sched_ok (sn_sched (send_dispatch env now k s))"
  | (take) c ch where "c \<in> set (mf_chunks (sn_mf s))" "get_chunk (sn_mf s) (cs_index c) \<noteq> None"
      "cs_status c = StatusPending \<or> cs_status c = StatusFailed \<and> cs_attempts c < max_attempts_per_chunk"
      "sn_mf (send_dispatch env now k s) = mark_sending now (cs_index c) (sc_name ch) (sn_mf s)"
      "sn_workers (send_dispatch env now k s)
        = (sn_workers s)[k := SBusy (sending_chunk now (sc_name ch) (the (get_chunk (sn_mf s) (cs_index c)))) ch]"
      "sn_hard_err (send_dispatch env now k s) = sn_hard_err s" "sched_ok (sn_sched (send_dispatch env now k s))"
      "\<And>m. flight (send_dispatch env now k s) m = (if m = sc_name ch then flight s m + 1 else flight s m)"
proof (cases "retryable_pending (sn_mf s) = []")
  case True
  then show ?thesis using assms by (intro same) (simp_all add: send_dispatch_def)
next
  case False
  obtain idx pickCh ok sched where n: "next_chunk now (sn_sched s) (retryable_pending (sn_mf s))
      (send_channel_states (sn_channels s) (sn_in_flight s) (sn_stats s)) = ((idx, pickCh, ok), sched)" by (metis prod.exhaust)
  have so: "sched_ok sched" using wsched.pick_inv [OF assms n] .
  show ?thesis
  proof (cases "ok \<and> find_send_channel (sn_channels s) pickCh \<noteq> None")
    case nok: False
    then have "send_dispatch env now k s = s\<lparr>sn_sched := sched\<rparr>"
      using False n by (auto simp: send_dispatch_def Let_def split: option.splits)
    then show ?thesis using so by (intro same) simp_all
  next
    case ok: True
    then obtain ch where ch: "find_send_channel (sn_channels s) pickCh = Some ch" by blast
    from n ok have n': "next_chunk now (sn_sched s) (retryable_pending (sn_mf s))
      (send_channel_states (sn_channels s) (sn_in_flight s) (sn_stats s)) = ((idx, pickCh, True), sched)" by simp
    have p: "\<forall>c\<in>set (retryable_pending (sn_mf s)). c \<in> set (mf_chunks (sn_mf s)) \<and> (cs_status c = StatusPending
        \<or> cs_status c = StatusFailed \<and> cs_attempts c < max_attempts_per_chunk)"
      by (auto simp: retryable_pending_def sort_by_index_props)
    obtain c where c: "c \<in> set (mf_chunks (sn_mf s))" "cs_index c = idx"
      "cs_status c = StatusPending \<or> cs_status c = StatusFailed \<and> cs_attempts c < max_attempts_per_chunk"
      using wsched.dispatch_exists(1) [OF assms n' p] by blast
    have g: "get_chunk (sn_mf s) idx \<noteq> None"
      using c by (auto simp: get_chunk_def find_None_all)
    then obtain d where d: "get_chunk (sn_mf s) idx = Some d" by blast
    have "send_dispatch env now k s = set_send_worker k (SBusy (sending_chunk now (sc_name ch) d) ch)
        (set_detail (sc_name ch) (\<lambda>d. d\<lparr>cd_state := ''active''\<rparr>) (save_now env now False
          (add_in_flight (sc_name ch) 1 (s\<lparr>sn_sched := sched, sn_mf := mark_sending now idx (sc_name ch) (sn_mf s)\<rparr>))))"
      using False n' ch d by (simp add: send_dispatch_def Let_def mark_and_get_sending_def mark_sending_def)
    then show ?thesis using c g d so by (intro take [of c ch]) (simp_all add: flight_def add_in_flight_def)
  qed
qed

section \<open>The invariant\<close>

fun sends :: "send_worker \<Rightarrow> int64 \<Rightarrow> bool" where
  "sends (SBusy c ch) i \<longleftrightarrow> cs_index c = i"
| "sends wk i \<longleftrightarrow> False"

fun sends_on :: "string \<Rightarrow> send_worker \<Rightarrow> bool" where
  "sends_on n (SBusy c ch) \<longleftrightarrow> sc_name ch = n"
| "sends_on n wk \<longleftrightarrow> False"

fun worker_ok :: "manifest \<Rightarrow> send_worker \<Rightarrow> bool" where
  "worker_ok m (SBusy c ch) \<longleftrightarrow> (\<exists>d. get_chunk m (cs_index c) = Some d \<and> cs_status d = StatusSending \<and> cs_geom d = cs_geom c)"
| "worker_ok m wk \<longleftrightarrow> True"

definition attempts_ok :: "manifest \<Rightarrow> bool" where
  "attempts_ok m \<longleftrightarrow> (\<forall>i c. get_chunk m i = Some c \<longrightarrow> 0 \<le> cs_attempts c \<and>
     (cs_status c = StatusPending \<or> cs_status c = StatusSending \<longrightarrow> cs_attempts c < max_attempts_per_chunk))"

definition send_inv :: "sender \<Rightarrow> bool" where
  "send_inv s \<longleftrightarrow> sched_ok (sn_sched s) \<and> list_all (\<lambda>g. 0 \<le> snd (snd g)) (snd (geometry (sn_mf s)))
     \<and> distinct (map cs_index (mf_chunks (sn_mf s))) \<and> attempts_ok (sn_mf s) \<and> list_all (worker_ok (sn_mf s)) (sn_workers s)
     \<and> (\<forall>k1 < length (sn_workers s). \<forall>k2 < length (sn_workers s). \<forall>i.
          sends (sn_workers s ! k1) i \<longrightarrow> sends (sn_workers s ! k2) i \<longrightarrow> k1 = k2)
     \<and> (\<forall>n. flight s n = int (length (filter (sends_on n) (sn_workers s))))"

lemma geometry_indices:
  assumes "geometry m' = geometry m"
  shows "map cs_index (mf_chunks m') = map cs_index (mf_chunks m)"
proof -
  have "map fst (map cs_geom (mf_chunks m')) = map fst (map cs_geom (mf_chunks m))"
    using assms by (simp add: geometry_def)
  then show ?thesis by (simp add: comp_def cs_geom_def)
qed

lemma worker_ok_cong:
  "(\<And>i. sends wk i \<Longrightarrow> get_chunk m' i = get_chunk m i) \<Longrightarrow> worker_ok m' wk = worker_ok m wk"
  by (cases wk) auto

lemma count_update:
  assumes "k < length xs"
  shows "int (length (filter P (xs[k := x]))) = int (length (filter P xs)) - (if P (xs ! k) then 1 else 0) + (if P x then 1 else 0)"
proof -
  note e = id_take_nth_drop [OF assms]
  have "filter P (xs[k := x]) = filter P (take k xs) @ filter P [x] @ filter P (drop (Suc k) xs)"
    using assms by (simp add: upd_conv_take_nth_drop)
  moreover have "filter P xs = filter P (take k xs) @ filter P [xs ! k] @ filter P (drop (Suc k) xs)"
    by (subst e) simp
  ultimately show ?thesis by simp
qed

text \<open>A worker ends its attempt: its chunk changes, and it sends no more.\<close>

lemma send_inv_end:
  assumes inv: "send_inv s" and k: "k < length (sn_workers s)" "sn_workers s ! k = SBusy c ch"
    and m: "\<And>j. j \<noteq> cs_index c \<Longrightarrow> get_chunk (sn_mf s') j = get_chunk (sn_mf s) j" "attempts_ok (sn_mf s')"
      "geometry (sn_mf s') = geometry (sn_mf s)"
    and w: "sn_workers s' = (sn_workers s)[k := wk]" "\<And>i. \<not> sends wk i"
    and f: "\<And>n. flight s' n = (if n = sc_name ch \<and> 0 < flight s (sc_name ch) then flight s n - 1 else flight s n)"
    and sc: "sched_ok (sn_sched s')"
  shows "send_inv s'"
proof -
  have u: "k1 = k2" if "k1 < length (sn_workers s)" "k2 < length (sn_workers s)"
      "sends (sn_workers s ! k1) i" "sends (sn_workers s ! k2) i" for k1 k2 i
    using inv that unfolding send_inv_def by metis
  have nb: "\<not> sends_on n wk" "worker_ok m wk" for n m using w(2) by (cases wk; auto)+
  have "worker_ok (sn_mf s') ((sn_workers s)[k := wk] ! j)" if j: "j < length (sn_workers s)" for j
  proof (cases "j = k")
    case False
    then have "\<not> sends (sn_workers s ! j) (cs_index c)" using u [OF j k(1)] k(2) by auto
    then have "worker_ok (sn_mf s') (sn_workers s ! j) = worker_ok (sn_mf s) (sn_workers s ! j)"
      using m(1) by (intro worker_ok_cong) metis
    then show ?thesis using inv j False by (simp add: send_inv_def list_all_length)
  qed (use nb j in simp)
  then have 1: "list_all (worker_ok (sn_mf s')) (sn_workers s')" by (simp add: w(1) list_all_length)
  have 2: "k1 = k2" if "k1 < length (sn_workers s')" "k2 < length (sn_workers s')"
      "sends (sn_workers s' ! k1) i" "sends (sn_workers s' ! k2) i" for k1 k2 i
    using that w k(1) u [of k1 k2 i] by (auto simp: nth_list_update split: if_splits)
  have c: "int (length (filter (sends_on n) (sn_workers s)))
      = int (length (filter (sends_on n) (sn_workers s'))) + (if n = sc_name ch then 1 else 0)" for n
    using count_update [OF k(1), of "sends_on n" wk] k(2) nb by (simp add: w(1))
  then have "flight s n = int (length (filter (sends_on n) (sn_workers s'))) + (if n = sc_name ch then 1 else 0)" for n
    using inv by (simp add: send_inv_def)
  then have 3: "flight s' n = int (length (filter (sends_on n) (sn_workers s')))" for n
    unfolding f by simp
  have 4: "distinct (map cs_index (mf_chunks (sn_mf s')))" using inv geometry_indices [OF m(3)] by (simp add: send_inv_def)
  have 5: "list_all (\<lambda>g. 0 \<le> snd (snd g)) (snd (geometry (sn_mf s')))" using inv m(3) by (simp add: send_inv_def)
  show ?thesis unfolding send_inv_def using 1 2 3 4 5 m(2) sc by metis
qed

text \<open>A worker takes a chunk that nobody sends.\<close>

lemma send_inv_take:
  assumes inv: "send_inv s" and k: "k < length (sn_workers s)" "sn_workers s ! k = SIdle"
    and d: "get_chunk (sn_mf s) i = Some d" "cs_status d \<noteq> StatusSending" "cs_attempts d < max_attempts_per_chunk"
    and m: "sn_mf s' = mark_sending now i n (sn_mf s)"
    and w: "sn_workers s' = (sn_workers s)[k := SBusy (sending_chunk now n d) ch]" "n = sc_name ch"
    and f: "\<And>m. flight s' m = (if m = n then flight s m + 1 else flight s m)"
    and sc: "sched_ok (sn_sched s')"
  shows "send_inv s'"
proof -
  have g: "get_chunk (sn_mf s') j = (if j = i then Some (sending_chunk now n d) else get_chunk (sn_mf s) j)" for j
    unfolding m mark_sending_def mark_and_get_sending_def using d(1) by (simp add: get_chunk_upd_chunk)
  have di: "cs_index d = i" using d(1) get_chunk_SomeD by blast
  have u: "k1 = k2" if "k1 < length (sn_workers s)" "k2 < length (sn_workers s)"
      "sends (sn_workers s ! k1) i" "sends (sn_workers s ! k2) i" for k1 k2 i
    using inv that unfolding send_inv_def by metis
  have free: "\<not> sends (sn_workers s ! j) i" if "j < length (sn_workers s)" for j
  proof
    assume "sends (sn_workers s ! j) i"
    moreover have "worker_ok (sn_mf s) (sn_workers s ! j)" using inv that by (simp add: send_inv_def list_all_length)
    ultimately show False using d by (cases "sn_workers s ! j") auto
  qed
  have new: "worker_ok (sn_mf s') (SBusy (sending_chunk now n d) ch)" using g di by (simp add: sending_chunk_def)
  have "worker_ok (sn_mf s') ((sn_workers s)[k := SBusy (sending_chunk now n d) ch] ! j)" if j: "j < length (sn_workers s)" for j
  proof (cases "j = k")
    case False
    have "worker_ok (sn_mf s') (sn_workers s ! j) = worker_ok (sn_mf s) (sn_workers s ! j)"
      using free [OF j] g by (intro worker_ok_cong) metis
    then show ?thesis using inv j False by (simp add: send_inv_def list_all_length)
  qed (use new j in simp)
  then have 1: "list_all (worker_ok (sn_mf s')) (sn_workers s')" by (simp add: w(1) list_all_length)
  have 2: "k1 = k2" if "k1 < length (sn_workers s')" "k2 < length (sn_workers s')"
      "sends (sn_workers s' ! k1) j" "sends (sn_workers s' ! k2) j" for k1 k2 j
    using that free k(1) u [of k1 k2 j] di by (auto simp: w(1) nth_list_update split: if_splits)
  have 3: "flight s' m = int (length (filter (sends_on m) (sn_workers s')))" for m
    using inv k(2) count_update [OF k(1), of "sends_on m" "SBusy (sending_chunk now n d) ch"]
    by (simp add: f w send_inv_def)
  have "attempts_ok (sn_mf s')" using inv g d(1,3)
    by (auto simp: attempts_ok_def send_inv_def sending_chunk_def)
  moreover have "distinct (map cs_index (mf_chunks (sn_mf s')))"
    "list_all (\<lambda>g. 0 \<le> snd (snd g)) (snd (geometry (sn_mf s')))"
    using inv g_sending.indices_f [of now i n "sn_mf s"] by (simp_all add: send_inv_def m g_sending.geometry_f)
  ultimately show ?thesis unfolding send_inv_def using 1 2 3 sc by metis
qed

lemma get_chunk_distinct:
  assumes "distinct (map cs_index (mf_chunks m))" "c \<in> set (mf_chunks m)"
  shows "get_chunk m (cs_index c) = Some c"
proof -
  obtain d where d: "get_chunk m (cs_index c) = Some d"
    using assms(2) by (cases "get_chunk m (cs_index c)") (auto simp: get_chunk_def find_None_all)
  then have "d \<in> set (mf_chunks m)" "cs_index d = cs_index c" using get_chunk_SomeD by blast+
  then have "d = c" using assms by (simp add: distinct_map inj_on_def)
  then show ?thesis using d by simp
qed

lemma get_chunk_marks:
  "get_chunk (mark_failed i e m) j = (if j = i then map_option (failed_chunk e) (get_chunk m i) else get_chunk m j)"
  "get_chunk (mark_done now i b h m) j = (if j = i then map_option (done_chunk now b h) (get_chunk m i) else get_chunk m j)"
  by (simp_all add: mark_failed_def mark_done_def get_chunk_upd_chunk)

lemma requeue_send_spec:
  assumes "requeue_send i e m = (m', hard)" "get_chunk m i = Some d"
  shows "get_chunk m' j = (if j = i then Some (if cs_attempts d + 1 < max_attempts_per_chunk
      then (failed_chunk e d)\<lparr>cs_status := StatusPending\<rparr> else failed_chunk e d) else get_chunk m j)"
    "hard = None \<longleftrightarrow> cs_attempts d + 1 < max_attempts_per_chunk" "geometry m' = geometry m"
    "mf_transfer_id m' = mf_transfer_id m"
proof -
  have "get_chunk (mark_failed i e m) i = Some (failed_chunk e d)" using assms(2) by (simp add: get_chunk_marks)
  moreover have "cs_attempts (failed_chunk e d) = cs_attempts d + 1" by (simp add: failed_chunk_def)
  ultimately have e: "(m', hard) = (if cs_attempts d + 1 < max_attempts_per_chunk
      then (upd_chunk i (\<lambda>c. c\<lparr>cs_status := StatusPending\<rparr>) (mark_failed i e m), None)
      else (mark_failed i e m, Some ''chunk exceeded retries''))"
    using assms(1) by (auto simp: requeue_send_def Let_def)
  then show "get_chunk m' j = (if j = i then Some (if cs_attempts d + 1 < max_attempts_per_chunk
      then (failed_chunk e d)\<lparr>cs_status := StatusPending\<rparr> else failed_chunk e d) else get_chunk m j)"
    using assms(2) by (auto simp: get_chunk_marks get_chunk_upd_chunk split: if_splits)
  show "hard = None \<longleftrightarrow> cs_attempts d + 1 < max_attempts_per_chunk" "geometry m' = geometry m"
    using e by (auto simp: geometry_upd_chunk g_failed.geometry_f split: if_splits)
  show "mf_transfer_id m' = mf_transfer_id m" using e by (auto simp: mark_failed_def upd_chunk_def split: if_splits)
qed

lemma worker_chunk:
  assumes "send_inv s" "k < length (sn_workers s)" "sn_workers s ! k = SBusy c ch"
  obtains d where "get_chunk (sn_mf s) (cs_index c) = Some d" "cs_status d = StatusSending" "cs_geom d = cs_geom c"
    "0 \<le> cs_attempts d" "cs_attempts d < max_attempts_per_chunk"
proof -
  have "worker_ok (sn_mf s) (SBusy c ch)" using assms by (metis list_all_length send_inv_def)
  then show ?thesis using assms(1) that by (auto simp: send_inv_def attempts_ok_def)
qed

lemma send_inv_same:
  assumes inv: "send_inv s" and m: "sn_mf s' = sn_mf s" "sched_ok (sn_sched s')" "\<And>n. flight s' n = flight s n"
    and w: "sn_workers s' = sn_workers s \<or> sn_workers s' = (sn_workers s)[k := SFinished]"
    and k: "k < length (sn_workers s)" "sn_workers s ! k = SIdle"
  shows "send_inv s'"
proof (cases "sn_workers s' = sn_workers s")
  case True
  then show ?thesis using inv m by (simp add: send_inv_def)
next
  case False
  then have w: "sn_workers s' = (sn_workers s)[k := SFinished]" using w by simp
  have u: "k1 = k2" if "k1 < length (sn_workers s)" "k2 < length (sn_workers s)"
      "sends (sn_workers s ! k1) i" "sends (sn_workers s ! k2) i" for k1 k2 i
    using inv that unfolding send_inv_def by metis
  have 1: "list_all (worker_ok (sn_mf s')) (sn_workers s')"
    using inv k(1) by (simp add: w m send_inv_def list_all_length nth_list_update)
  have 2: "k1 = k2" if "k1 < length (sn_workers s')" "k2 < length (sn_workers s')"
      "sends (sn_workers s' ! k1) i" "sends (sn_workers s' ! k2) i" for k1 k2 i
    using that w k(1) u [of k1 k2 i] by (auto simp: nth_list_update split: if_splits)
  have 3: "flight s' n = int (length (filter (sends_on n) (sn_workers s')))" for n
    using count_update [OF k(1), of "sends_on n" SFinished] k(2) inv by (simp add: w m(3) send_inv_def)
  show ?thesis unfolding send_inv_def using 1 2 3 inv m by (metis send_inv_def)
qed

lemma sender_local_inv:
  assumes "sender_local env s s'" "send_inv s"
  shows "send_inv s' \<and> geometry (sn_mf s') = geometry (sn_mf s) \<and> mf_transfer_id (sn_mf s') = mf_transfer_id (sn_mf s)"
  using assms(1)
proof cases
  case (Stop k)
  have "send_inv s'" using assms(2) Stop by (intro send_inv_same [OF assms(2), of s' k]) (simp_all add: send_inv_def)
  then show ?thesis using Stop by simp
next
  case (Refresh k provider)
  have "send_inv s'" using assms(2) Refresh by (intro send_inv_same [OF assms(2), of s' k]) (simp_all add: send_inv_def)
  then show ?thesis using Refresh by simp
next
  case (Dispatch k now)
  have so: "sched_ok (sn_sched s)" using assms(2) by (simp add: send_inv_def)
  from so show ?thesis
  proof (cases rule: dispatch_cases [where env = env and now = now and k = k])
    case same
    have "send_inv s'" using same Dispatch by (intro send_inv_same [OF assms(2), of s' k]) (simp_all add: flight_def)
    then show ?thesis using same Dispatch by simp
  next
    case (take c ch)
    have d: "get_chunk (sn_mf s) (cs_index c) = Some c"
      using get_chunk_distinct take(1) assms(2) by (simp add: send_inv_def)
    then have "cs_attempts c < max_attempts_per_chunk" "cs_status c \<noteq> StatusSending"
      using take(3) assms(2) by (auto simp: send_inv_def attempts_ok_def)
    then have "send_inv s'" using take Dispatch d
      by (intro send_inv_take [OF assms(2) Dispatch(2,3) d, of s' now "sc_name ch" ch]) simp_all
    moreover have "geometry (sn_mf s') = geometry (sn_mf s)" "mf_transfer_id (sn_mf s') = mf_transfer_id (sn_mf s)"
      using take(4) Dispatch(1) by (simp_all add: g_sending.geometry_f) (simp add: mark_sending_def mark_and_get_sending_def upd_chunk_def)
    ultimately show ?thesis by simp
  qed
next
  case (Hash_Fail k c ch io err now)
  obtain d where d: "get_chunk (sn_mf s) (cs_index c) = Some d" "0 \<le> cs_attempts d" "cs_attempts d < max_attempts_per_chunk"
    using worker_chunk [OF assms(2) Hash_Fail(2,3)] by blast
  have m: "sn_mf s' = mark_failed (cs_index c) err (sn_mf s)" "sn_workers s' = (sn_workers s)[k := SFinished]"
    "sn_sched s' = sn_sched s" "\<And>n. flight s' n = flight (drop_in_flight (sc_name ch) s) n"
    unfolding Hash_Fail(1) by (simp_all add: hash_failed_def Let_def flight_def set_send_worker_def)
  have "attempts_ok (sn_mf s')" using assms(2) d
    by (auto simp: m get_chunk_marks attempts_ok_def send_inv_def failed_chunk_def split: if_splits)
  then have "send_inv s'" using assms(2) m
    by (intro send_inv_end [OF assms(2) Hash_Fail(2,3), of s' SFinished])
      (simp_all add: get_chunk_marks flight_drop send_inv_def g_failed.geometry_f)
  then show ?thesis using m by (simp add: g_failed.geometry_f) (simp add: mark_failed_def upd_chunk_def)
next
  case Cancel
  then show ?thesis using assms(2) by (simp add: send_inv_def flight_def)
qed

lemma send_failed_simps:
  assumes "requeue_send (cs_index c) err (sn_mf s) = (m, hard)"
  shows "sn_mf (send_failed env now err k c ch s) = m"
    "\<exists>wk. sn_workers (send_failed env now err k c ch s) = (sn_workers s)[k := wk] \<and> (\<forall>i. \<not> sends wk i)"
    "sn_sched (send_failed env now err k c ch s) = report_failure now (sc_name ch) (sn_sched s)"
    "flight (send_failed env now err k c ch s) n = flight (drop_in_flight (sc_name ch) s) n"
  using assms by (auto simp: send_failed_def Let_def flight_def set_send_worker_def)

lemma send_done_simps:
  "sn_mf (send_done env now dur hash k c ch s) = mark_done now (cs_index c) (cs_size c) hash (sn_mf s)"
  "sn_workers (send_done env now dur hash k c ch s) = (sn_workers s)[k := SIdle]"
  "sn_sched (send_done env now dur hash k c ch s) = report_success (sc_name ch) (cs_size c) dur (sn_sched s)"
  "flight (send_done env now dur hash k c ch s) n = flight (drop_in_flight (sc_name ch) s) n"
  by (simp_all add: send_done_def Let_def) (simp add: flight_def drop_in_flight_def add_in_flight_def)

lemma send_header_simps [simp]:
  "h_chunk_index (send_header env m c hash) = cs_index c" "h_offset (send_header env m c hash) = cs_offset c"
  "h_part_size (send_header env m c hash) = cs_size c" "h_transfer_id (send_header env m c hash) = mf_transfer_id m"
  "h_file_name (send_header env m c hash) = sv_base env" "h_total_bytes (send_header env m c hash) = int (length (sv_content env))"
  "h_lab (send_header env m c hash) = so_lab (sv_opts env)"
  "h_receive_rel_path (send_header env m c hash) = so_receive_rel_path (sv_opts env)"
  "h_publish_name (send_header env m c hash) = so_publish_name (sv_opts env)"
  "h_folder_result (send_header env m c hash) = so_folder_result (sv_opts env)"
  "h_chunk_sha256 (send_header env m c hash) = hash"
  by (simp_all add: send_header_def sign_header_def)

text \<open>What one attempt does to the manifest.\<close>

definition attempt_effect :: "send_env \<Rightarrow> header \<Rightarrow> attempt \<Rightarrow> manifest \<Rightarrow> manifest \<Rightarrow> bool" where
  "attempt_effect env h a m m' \<longleftrightarrow> (\<exists>d d' ip n. get_chunk m (h_chunk_index h) = Some d \<and> cs_status d = StatusSending
     \<and> 0 \<le> cs_attempts d \<and> cs_attempts d < max_attempts_per_chunk \<and> cs_geom d = (h_chunk_index h, h_offset h, h_part_size h)
     \<and> h = send_header env m d (hex_encode (sv_sha env (section_of (sv_content env) (cs_offset d) (cs_size d))))
     \<and> (\<forall>j. get_chunk m' j = (if j = h_chunk_index h then Some d' else get_chunk m j))
     \<and> ((\<exists>err. send_chunk ip h a = Inl err) \<and> cs_attempts d' = cs_attempts d + 1 \<and> cs_status d' \<noteq> StatusDone
        \<or> send_chunk ip h a = Inr () \<and> d' = done_chunk n (h_part_size h) (h_chunk_sha256 h) d))"

lemma send_header_geom:
  "cs_geom c = cs_geom d \<Longrightarrow> send_header env m c hash = send_header env m d hash"
  by (simp add: send_header_def cs_geom_def)

lemma sender_attempt_effect:
  assumes "sender_attempt env h a s s'" "send_inv s"
  shows "send_inv s' \<and> geometry (sn_mf s') = geometry (sn_mf s) \<and> mf_transfer_id (sn_mf s') = mf_transfer_id (sn_mf s)
    \<and> attempt_effect env h a (sn_mf s) (sn_mf s')"
  using assms(1)
proof cases
  case (Fail k c ch hash err now)
  obtain d where d: "get_chunk (sn_mf s) (cs_index c) = Some d" "cs_status d = StatusSending" "cs_geom d = cs_geom c"
    "0 \<le> cs_attempts d" "cs_attempts d < max_attempts_per_chunk" using worker_chunk [OF assms(2) Fail(2,3)] by blast
  obtain m hard where m: "requeue_send (cs_index c) err (sn_mf s) = (m, hard)" by force
  note r = requeue_send_spec [OF m d(1)] and f = send_failed_simps [OF m, where env = env and now = now and k = k and ch = ch]
  let ?d' = "if cs_attempts d + 1 < max_attempts_per_chunk then (failed_chunk err d)\<lparr>cs_status := StatusPending\<rparr> else failed_chunk err d"
  have a': "cs_attempts ?d' = cs_attempts d + 1" "cs_status ?d' \<noteq> StatusDone" "cs_status ?d' \<noteq> StatusSending"
    by (simp_all add: failed_chunk_def)
  have "0 \<le> cs_attempts ?d' \<and> (cs_status ?d' = StatusPending \<or> cs_status ?d' = StatusSending \<longrightarrow> cs_attempts ?d' < max_attempts_per_chunk)"
    using d(4) by (simp add: failed_chunk_def)
  then have "attempts_ok m" using assms(2) r(1) unfolding attempts_ok_def send_inv_def by (metis option.inject)
  moreover obtain wk where "sn_workers s' = (sn_workers s)[k := wk]" "\<forall>i. \<not> sends wk i" using f(2) Fail(1) by blast
  moreover have "sched_ok (sn_sched s')" using f(3) Fail(1) assms(2) by (simp add: send_inv_def sched_ok_failure)
  ultimately have inv: "send_inv s'" using r f(1,4) unfolding Fail(1) [symmetric]
    by (intro send_inv_end [OF assms(2) Fail(2,3), of s' wk]) (simp_all add: flight_drop)
  have h: "h = send_header env (sn_mf s) d hash" using Fail(5) send_header_geom [OF d(3)] by simp
  have hs: "hash = hex_encode (sv_sha env (section_of (sv_content env) (cs_offset d) (cs_size d)))"
    using Fail(4) d(3) by (simp add: hash_section_def cs_geom_def)
  have g: "cs_geom d = (h_chunk_index h, h_offset h, h_part_size h)" using h by (simp add: cs_geom_def)
  have i: "cs_index c = h_chunk_index h" using Fail(5) by simp
  have "attempt_effect env h a (sn_mf s) (sn_mf s')" unfolding attempt_effect_def
    using d g i Fail(6) a' r(1) f(1) Fail(1) h [unfolded hs]
    by (intro exI [of _ d] exI [of _ ?d'] exI [of _ "sc_ip ch"]) simp
  then show ?thesis using inv r(3,4) f(1) Fail(1) by simp
next
  case (Done k c ch hash now dur)
  obtain d where d: "get_chunk (sn_mf s) (cs_index c) = Some d" "cs_status d = StatusSending" "cs_geom d = cs_geom c"
    "0 \<le> cs_attempts d" "cs_attempts d < max_attempts_per_chunk" using worker_chunk [OF assms(2) Done(2,3)] by blast
  note f = send_done_simps [of env now dur hash k c ch s, folded Done(1)]
  have "attempts_ok (sn_mf s')" using assms(2) d(4)
    by (auto simp: f get_chunk_marks attempts_ok_def send_inv_def d(1) done_chunk_def split: if_splits)
  moreover have "cs_geom d \<in> set (snd (geometry (sn_mf s)))" using get_chunk_SomeD [OF d(1)] by (simp add: geometry_def)
  then have "0 \<le> cs_size c" using assms(2) d(3) by (auto simp: send_inv_def list_all_iff cs_geom_def)
  then have "sched_ok (sn_sched s')" using f(3) assms(2) by (simp add: send_inv_def sched_ok_success)
  ultimately have inv: "send_inv s'" using f
    by (intro send_inv_end [OF assms(2) Done(2,3), of s' SIdle]) (simp_all add: get_chunk_marks flight_drop g_done.geometry_f)
  have h: "h = send_header env (sn_mf s) d hash" using Done(5) send_header_geom [OF d(3)] by simp
  have hs: "hash = hex_encode (sv_sha env (section_of (sv_content env) (cs_offset d) (cs_size d)))"
    using Done(4) d(3) by (simp add: hash_section_def cs_geom_def)
  have g: "cs_geom d = (h_chunk_index h, h_offset h, h_part_size h)" using h by (simp add: cs_geom_def)
  have i: "cs_index c = h_chunk_index h" "cs_size c = h_part_size h" "hash = h_chunk_sha256 h" using Done(5) by simp_all
  have "attempt_effect env h a (sn_mf s) (sn_mf s')" unfolding attempt_effect_def
    using d g i Done(6) f(1) h [unfolded hs]
    by (intro exI [of _ d] exI [of _ "done_chunk now (h_part_size h) (h_chunk_sha256 h) d"] exI [of _ "sc_ip ch"] exI [of _ now])
      (simp add: get_chunk_marks)
  then show ?thesis using inv f(1) by (simp add: g_done.geometry_f) (simp add: mark_done_def upd_chunk_def)
qed

lemma send_start_inv:
  assumes "wf_plan m" "attempts_ok m"
  shows "send_inv (send_start env p m w)"
proof -
  let ?s = "send_start env p m w"
  obtain n where w: "sn_workers ?s = replicate n SIdle" by (simp add: send_start_def Let_def)
  have m: "sn_mf ?s = m" "sn_sched ?s = new_weighted_scheduler" "sn_in_flight ?s = []"
    by (simp_all add: send_start_def Let_def)
  have "list_all (\<lambda>g. 0 \<le> snd (snd g)) (snd (geometry m))"
    unfolding list_all_iff geometry_def snd_conv
  proof
    fix g assume "g \<in> set (map cs_geom (mf_chunks m))"
    from tiling_pos [OF assms(1) [unfolded wf_plan_def] this] show "0 \<le> snd (snd g)" by simp
  qed
  then show ?thesis using assms wf_plan_distinct [OF assms(1)]
    by (simp add: send_inv_def m w flight_def gomap_get_def sched_ok_new list_all_length)
qed

text \<open>How often a chunk may still be sent.\<close>

definition send_budget :: "manifest \<Rightarrow> int64 \<Rightarrow> nat" where
  "send_budget m i = (case get_chunk m i of None \<Rightarrow> 0
     | Some c \<Rightarrow> if cs_status c = StatusDone then 0 else nat (max_attempts_per_chunk - cs_attempts c))"

lemma local_budget:
  assumes "sender_local env s s'" "send_inv s"
  shows "send_budget (sn_mf s') i \<le> send_budget (sn_mf s) i"
    "get_chunk (sn_mf s') i = Some c \<Longrightarrow> cs_status c = StatusDone \<Longrightarrow> get_chunk (sn_mf s) i = Some c"
    "\<And>d. get_chunk (sn_mf s) i = Some d \<Longrightarrow> cs_status d = StatusDone \<Longrightarrow> get_chunk (sn_mf s') i = Some d"
proof -
  have so: "sched_ok (sn_sched s)" using assms(2) by (simp add: send_inv_def)
  have "send_budget (sn_mf s') i \<le> send_budget (sn_mf s) i
      \<and> (\<forall>c. get_chunk (sn_mf s') i = Some c \<longrightarrow> cs_status c = StatusDone \<longrightarrow> get_chunk (sn_mf s) i = Some c)
      \<and> (\<forall>d. get_chunk (sn_mf s) i = Some d \<longrightarrow> cs_status d = StatusDone \<longrightarrow> get_chunk (sn_mf s') i = Some d)"
    using assms(1)
  proof cases
    case (Dispatch k now)
    from so show ?thesis
    proof (cases rule: dispatch_cases [where env = env and now = now and k = k])
      case same
      then show ?thesis using Dispatch by simp
    next
      case (take c ch)
      have "get_chunk (sn_mf s) (cs_index c) = Some c"
        using get_chunk_distinct take(1) assms(2) by (simp add: send_inv_def)
      then have "get_chunk (sn_mf s') j = (if j = cs_index c then Some (sending_chunk now (sc_name ch) c) else get_chunk (sn_mf s) j)" for j
        unfolding Dispatch(1) take(4) mark_sending_def mark_and_get_sending_def by (simp add: get_chunk_upd_chunk)
      then show ?thesis using take(3) \<open>get_chunk (sn_mf s) (cs_index c) = Some c\<close>
        by (auto simp: send_budget_def sending_chunk_def split: option.splits)
    qed
  next
    case (Hash_Fail k c ch io err now)
    obtain d where d: "get_chunk (sn_mf s) (cs_index c) = Some d" "cs_status d = StatusSending"
      using worker_chunk [OF assms(2) Hash_Fail(2,3)] by blast
    have "sn_mf s' = mark_failed (cs_index c) err (sn_mf s)"
      unfolding Hash_Fail(1) by (simp add: hash_failed_def Let_def)
    then have "get_chunk (sn_mf s') j = (if j = cs_index c then Some (failed_chunk err d) else get_chunk (sn_mf s) j)" for j
      using d(1) by (simp add: get_chunk_marks)
    then show ?thesis using d by (auto simp: send_budget_def failed_chunk_def split: option.splits)
  qed simp_all
  then show "send_budget (sn_mf s') i \<le> send_budget (sn_mf s) i"
    "get_chunk (sn_mf s') i = Some c \<Longrightarrow> cs_status c = StatusDone \<Longrightarrow> get_chunk (sn_mf s) i = Some c"
    "\<And>d. get_chunk (sn_mf s) i = Some d \<Longrightarrow> cs_status d = StatusDone \<Longrightarrow> get_chunk (sn_mf s') i = Some d"
    by blast+
qed

lemma attempt_budget:
  "attempt_effect env h a m m' \<Longrightarrow> send_budget m' i + (if i = h_chunk_index h then 1 else 0) \<le> send_budget m i"
  by (auto simp: attempt_effect_def send_budget_def done_chunk_def)

text \<open>An attempt that the receiver acknowledged for the chunk \<open>d\<close>.\<close>

definition acknowledged :: "send_env \<Rightarrow> chunk_state \<Rightarrow> header \<times> attempt \<Rightarrow> bool" where
  "acknowledged env d = (\<lambda>(h, a). cs_geom d = (h_chunk_index h, h_offset h, h_part_size h)
     \<and> h_chunk_sha256 h = hex_encode (sv_sha env (section_of (sv_content env) (cs_offset d) (cs_size d)))
     \<and> at_copied a = cs_size d \<and> (\<exists>ack. at_ack a = Inr ack \<and> ack_status ack = ''done'' \<and> ack_chunk_index ack = cs_index d))"

lemma send_chunk_Inr:
  "send_chunk ip h a = Inr () \<Longrightarrow> at_copied a = h_part_size h
     \<and> (\<exists>ack. at_ack a = Inr ack \<and> ack_status ack = ''done'' \<and> ack_chunk_index ack = h_chunk_index h)"
  by (auto simp: send_chunk_def split: if_splits sum.splits option.splits)

lemma trace_inv:
  assumes "sender_trace env s0 xs s" "send_inv s0"
  shows "send_inv s \<and> geometry (sn_mf s) = geometry (sn_mf s0) \<and> mf_transfer_id (sn_mf s) = mf_transfer_id (sn_mf s0)
    \<and> (\<forall>i. length (filter (\<lambda>x. h_chunk_index (fst x) = i) xs) + send_budget (sn_mf s) i \<le> send_budget (sn_mf s0) i)
    \<and> (\<forall>i c. get_chunk (sn_mf s) i = Some c \<longrightarrow> cs_status c = StatusDone \<longrightarrow>
         get_chunk (sn_mf s0) i = Some c \<or> (\<exists>x\<in>set xs. acknowledged env c x))"
  using assms
proof (induction rule: sender_trace.induct)
  case Start
  then show ?case by simp
next
  case (Local xs s s')
  then have IH: "send_inv s" by simp
  note l = sender_local_inv [OF Local.hyps(2) IH] and b = local_budget [OF Local.hyps(2) IH]
  have "length (filter (\<lambda>x. h_chunk_index (fst x) = i) xs) + send_budget (sn_mf s') i \<le> send_budget (sn_mf s0) i" for i
    using Local b(1) [of i] by (meson add_left_mono order_trans)
  moreover have "get_chunk (sn_mf s0) i = Some c \<or> (\<exists>x\<in>set xs. acknowledged env c x)"
    if "get_chunk (sn_mf s') i = Some c" "cs_status c = StatusDone" for i c
    using Local b(2) [OF that] that(2) by blast
  ultimately show ?case using l Local by simp
next
  case (Attempt xs s h a s')
  then have IH: "send_inv s" by simp
  note l = sender_attempt_effect [OF Attempt.hyps(2) IH]
  then have e: "attempt_effect env h a (sn_mf s) (sn_mf s')" by simp
  have "length (filter (\<lambda>x. h_chunk_index (fst x) = i) (xs @ [(h, a)])) + send_budget (sn_mf s') i \<le> send_budget (sn_mf s0) i" for i
  proof -
    have "length (filter (\<lambda>x. h_chunk_index (fst x) = i) xs) + send_budget (sn_mf s) i \<le> send_budget (sn_mf s0) i"
      using Attempt by blast
    then show ?thesis using attempt_budget [OF e, of i] by (auto split: if_splits)
  qed
  moreover have "get_chunk (sn_mf s0) i = Some c \<or> (\<exists>x\<in>set (xs @ [(h, a)]). acknowledged env c x)"
    if c: "get_chunk (sn_mf s') i = Some c" "cs_status c = StatusDone" for i c
  proof (cases "i = h_chunk_index h")
    case False
    then have "get_chunk (sn_mf s) i = Some c" using c(1) e by (auto simp: attempt_effect_def)
    then show ?thesis using Attempt c(2) by auto
  next
    case True
    obtain d ip n where d: "cs_geom d = (h_chunk_index h, h_offset h, h_part_size h)" "send_chunk ip h a = Inr ()"
      "h = send_header env (sn_mf s) d (hex_encode (sv_sha env (section_of (sv_content env) (cs_offset d) (cs_size d))))"
      "c = done_chunk n (h_part_size h) (h_chunk_sha256 h) d"
      using e c unfolding attempt_effect_def True by auto
    have "h_chunk_sha256 h = hex_encode (sv_sha env (section_of (sv_content env) (cs_offset d) (cs_size d)))"
      using d(3) by (metis send_header_simps(11))
    then have "acknowledged env c (h, a)" using d(1) send_chunk_Inr [OF d(2)]
      unfolding d(4) acknowledged_def by (simp add: cs_geom_def done_chunk_def)
    then show ?thesis by simp
  qed
  ultimately show ?case using l Attempt by simp
qed

section \<open>Properties\<close>

text \<open>
  C21: no chunk is sent by two workers at once. The sender chooses and marks a chunk in one section under
  its mutex; in every interleaving, from any well-formed manifest, two workers that send the same chunk
  are the same worker, its chunk is marked as being sent, and the in-flight counter of a channel is the
  number of workers that send on it.
\<close>

theorem send_exclusive:
  assumes "wf_plan m" "attempts_ok m" "sender_trace env (send_start env p m w) xs s"
  shows "(\<forall>k1 k2 c1 c2 ch1 ch2. k1 < length (sn_workers s) \<and> k2 < length (sn_workers s)
       \<and> sn_workers s ! k1 = SBusy c1 ch1 \<and> sn_workers s ! k2 = SBusy c2 ch2 \<and> cs_index c1 = cs_index c2 \<longrightarrow> k1 = k2)
    \<and> (\<forall>k c ch. k < length (sn_workers s) \<and> sn_workers s ! k = SBusy c ch \<longrightarrow>
         (\<exists>d. get_chunk (sn_mf s) (cs_index c) = Some d \<and> cs_status d = StatusSending))
    \<and> (\<forall>n. gomap_get (sn_in_flight s) n 0 = int (length (filter (sends_on n) (sn_workers s))))"
proof -
  have inv: "send_inv s" using trace_inv [OF assms(3) send_start_inv [OF assms(1,2)]] by simp
  have 1: "k1 = k2" if "k1 < length (sn_workers s)" "k2 < length (sn_workers s)"
      "sn_workers s ! k1 = SBusy c1 ch1" "sn_workers s ! k2 = SBusy c2 ch2" "cs_index c1 = cs_index c2" for k1 k2 c1 c2 ch1 ch2
  proof -
    have "sends (sn_workers s ! k1) (cs_index c1)" "sends (sn_workers s ! k2) (cs_index c1)" using that by simp_all
    then show ?thesis using inv that(1,2) unfolding send_inv_def by metis
  qed
  have 2: "\<exists>d. get_chunk (sn_mf s) (cs_index c) = Some d \<and> cs_status d = StatusSending"
    if "k < length (sn_workers s)" "sn_workers s ! k = SBusy c ch" for k c ch
    using worker_chunk [OF inv that] by metis
  have 3: "\<forall>n. gomap_get (sn_in_flight s) n 0 = int (length (filter (sends_on n) (sn_workers s)))"
    using inv by (simp add: send_inv_def flight_def)
  show ?thesis using 1 2 3 by blast
qed

text \<open>
  C23: a chunk is transmitted at most three times. In every run of the workers, whatever fails, the
  attempts for one chunk number at most three; so a run of a manifest with \<open>n\<close> chunks makes at most
  \<open>3 n\<close> connections and cannot go on for ever.
\<close>

theorem send_attempts_bounded:
  assumes "wf_plan m" "attempts_ok m" "sender_trace env (send_start env p m w) xs s"
  shows "length (filter (\<lambda>x. h_chunk_index (fst x) = i) xs) \<le> 3"
proof -
  have "length (filter (\<lambda>x. h_chunk_index (fst x) = i) xs) \<le> send_budget m i"
    using trace_inv [OF assms(3) send_start_inv [OF assms(1,2)]]
    by (auto simp: send_start_def Let_def intro: add_leD1)
  moreover have "send_budget m i \<le> 3"
  proof (cases "get_chunk m i")
    case (Some c)
    then have "0 \<le> cs_attempts c" using assms(2) by (simp add: attempts_ok_def)
    then show ?thesis using Some by (simp add: send_budget_def max_attempts_per_chunk_def nat_le_iff)
  qed (simp add: send_budget_def)
  ultimately show ?thesis by simp
qed

text \<open>
  C22: success means acknowledged. When the sender returns without an error, every chunk of its manifest
  was done when the run began, or was transmitted whole, with the SHA-256 of its section in the header,
  and acknowledged with \<open>done\<close> for its index in this run; and the manifest with every chunk done is on disk.
\<close>

theorem send_success_acknowledged:
  assumes "wf_plan m" "attempts_ok m" "sender_trace env (send_start env p m w) xs s"
    and "send_finish env now s = (Inr (), s')" and "dir_name (sv_path env) \<noteq> sv_path env"
  shows "(\<forall>c\<in>set (mf_chunks (sn_mf s)). cs_status c = StatusDone \<and>
      (c \<in> set (mf_chunks m) \<or> (\<exists>x\<in>set xs. acknowledged env c x)))
    \<and> (\<exists>b. sv_marshal env ((sn_mf s)\<lparr>mf_updated_at := now\<rparr>) = Inr b \<and> node_at (sn_world s') (sv_path env) = Some (File b))"
proof -
  note t = trace_inv [OF assms(3) send_start_inv [OF assms(1,2)]]
  have m0: "sn_mf (send_start env p m w) = m" by (simp add: send_start_def Let_def)
  obtain sv w' where f: "saver_flush env now (sn_mf s) (sn_saver s) (sn_world s) = (Inr (), sv, w')"
    "list_all (\<lambda>c. cs_status c = StatusDone) (mf_chunks (sn_mf s))" "s' = s\<lparr>sn_saver := sv, sn_world := w'\<rparr>"
    using assms(4) by (auto simp: send_finish_def split: if_splits option.splits prod.splits sum.splits)
  have "c \<in> set (mf_chunks m) \<or> (\<exists>x\<in>set xs. acknowledged env c x)" if "c \<in> set (mf_chunks (sn_mf s))" for c
  proof -
    have "get_chunk (sn_mf s) (cs_index c) = Some c"
      using t that by (intro get_chunk_distinct) (simp_all add: send_inv_def)
    moreover have "cs_status c = StatusDone" using f(2) that by (simp add: list_all_iff)
    ultimately show ?thesis using t m0 get_chunk_SomeD by metis
  qed
  moreover obtain u where "save_manifest (sv_marshal env) now (sv_path env) (sn_mf s) (sn_world s) = (Inr u, w')"
    using f(1) by (auto simp: saver_flush_def split: prod.splits sum.splits)
  then have "\<exists>b. sv_marshal env ((sn_mf s)\<lparr>mf_updated_at := now\<rparr>) = Inr b \<and> node_at w' (sv_path env) = Some (File b)"
    using save_atomic_spec [of "sv_path env" _ "sn_world s" "Inr u" w'] assms(5)
    by (auto simp: save_manifest_def save_atomic_def io_bind_Inr io_fail_def split: sum.splits)
  ultimately show ?thesis using f(2,3) by (auto simp: list_all_iff)
qed

section \<open>A run with one chunk\<close>

definition sd_opts :: send_options where
  "sd_opts = \<lparr>so_explicit_resume = False, so_chunk_size = 2, so_lab = False, so_lab_receive_path = '''', so_receive_rel_path = '''',
    so_publish_name = '''', so_folder_result = '''', so_allow_new_interfaces = False, so_auth_secret = ''''\<rparr>"

definition sd_mf :: manifest where
  "sd_mf = \<lparr>mf_schema_version = 1, mf_transfer_id = ''t1'', mf_type = ''p2p'', mf_file_name = ''a.bin'',
      mf_total_bytes = 2, mf_chunk_size = 2, mf_created_at = 5, mf_updated_at = 5,
      mf_source = \<lparr>src_type = ''p2p'', src_address = '''', src_url = '''', src_identity = '''', src_abs_path = '''', src_mod_time = 0\<rparr>,
      mf_target = \<lparr>tgt_type = ''p2p'', tgt_address = ''h:1'', tgt_path = ''''\<rparr>,
      mf_chunks = [zero_chunk\<lparr>cs_size := 2, cs_status := StatusPending\<rparr>]\<rparr>"

definition sd_env :: send_env where
  "sd_env = \<lparr>sv_opts = sd_opts, sv_base = ''a.bin'', sv_content = ''ab'', sv_target = ''h:1'', sv_local_ips = [''10.0.0.1''],
     sv_path = demo_path, sv_marshal = (\<lambda>m. Inr ''m''), sv_sha = (\<lambda>b. take 32 (b @ replicate 32 (CHR ''x''))), sv_hmac = (\<lambda>k m. m)\<rparr>"

definition sd_start :: sender where "sd_start = send_start sd_env None sd_mf (demo_world (\<lambda>n. False) [])"

definition sd_c :: chunk_state where "sd_c = sending_chunk 5 ''cable'' (zero_chunk\<lparr>cs_size := 2, cs_status := StatusPending\<rparr>)"

definition sd_ch :: send_channel where "sd_ch = \<lparr>sc_name = ''cable'', sc_ip = ''10.0.0.1''\<rparr>"

definition sd_send :: sender where "sd_send = send_dispatch sd_env 5 0 sd_start"

definition sd_attempt :: attempt where
  "sd_attempt = \<lparr>at_dial = Inr (), at_header = Inr (), at_copied = 2, at_copy = Inr (),
     at_ack = Inr \<lparr>ack_type = ''chunk_ack'', ack_transfer_id = ''t1'', ack_chunk_index = 0, ack_status = ''done'',
       ack_bytes_received = 2, ack_error = ''''\<rparr>, at_ctx = None\<rparr>"

definition sd_hash :: string where
  "sd_hash = hex_encode (sv_sha sd_env (section_of (sv_content sd_env) 0 2))"

definition sd_end :: sender where "sd_end = send_done sd_env 6 0 sd_hash 0 sd_c sd_ch sd_send"

lemma sd_facts:
  "wf_plan sd_mf" "sn_workers sd_start = [SIdle]" "sn_workers sd_send = [SBusy sd_c sd_ch]"
  "mf_transfer_id (sn_mf sd_send) = ''t1''" "length (mf_chunks (sn_mf sd_send)) = 1"
  "cs_offset sd_c = 0" "cs_size sd_c = 2" "cs_index sd_c = 0" "sn_workers sd_end = [SIdle]"
  by code_simp+

lemma sd_attempts: "attempts_ok sd_mf"
  by (auto simp: attempts_ok_def sd_mf_def get_chunk_def zero_chunk_def max_attempts_per_chunk_def)

lemma sd_chunk_sent: "send_chunk (sc_ip sd_ch) (send_header sd_env (sn_mf sd_send) sd_c sd_hash) sd_attempt = Inr ()"
proof -
  have "parse_ip (sc_ip sd_ch) \<noteq> None" by code_simp
  then show ?thesis by (simp add: send_chunk_def sd_attempt_def sd_facts)
qed

lemma sd_trace:
  "sender_trace sd_env sd_start [] sd_send"
  "sender_trace sd_env sd_start [(send_header sd_env (sn_mf sd_send) sd_c sd_hash, sd_attempt)] sd_end"
proof -
  have "sender_local sd_env sd_start sd_send" unfolding sd_send_def
    by (rule Dispatch) (simp_all add: sd_facts)
  with sender_trace.Start show 1: "sender_trace sd_env sd_start [] sd_send" by (rule sender_trace.Local)
  have "sender_attempt sd_env (send_header sd_env (sn_mf sd_send) sd_c sd_hash) sd_attempt sd_send sd_end" unfolding sd_end_def
    by (rule Done [where hash = sd_hash]) (simp_all add: sd_facts sd_hash_def hash_section_def sd_chunk_sent [unfolded sd_hash_def])
  from sender_trace.Attempt [OF 1 this] show "sender_trace sd_env sd_start [(send_header sd_env (sn_mf sd_send) sd_c sd_hash, sd_attempt)] sd_end"
    by simp
qed

theorem send_exclusive_witness:
  "\<exists>d. get_chunk (sn_mf sd_send) 0 = Some d \<and> cs_status d = StatusSending"
  using send_exclusive [OF sd_facts(1) sd_attempts sd_trace(1) [unfolded sd_start_def]] sd_facts(3,8)
  by (metis length_Cons lessI list.size(3) nth_Cons_0)

theorem send_attempts_bounded_witness:
  "length (filter (\<lambda>x. h_chunk_index (fst x) = 0) [(send_header sd_env (sn_mf sd_send) sd_c sd_hash, sd_attempt)]) \<le> 3"
  using send_attempts_bounded [OF sd_facts(1) sd_attempts sd_trace(2) [unfolded sd_start_def], of 0] by simp

theorem send_success_acknowledged_witness:
  "node_at (sn_world (snd (send_finish sd_env 7 sd_end))) demo_path = Some (File ''m'')"
proof -
  have f: "fst (send_finish sd_env 7 sd_end) = Inr ()" by code_simp
  have p: "dir_name (sv_path sd_env) \<noteq> sv_path sd_env" "sv_path sd_env = demo_path" by code_simp+
  have "send_finish sd_env 7 sd_end = (Inr (), snd (send_finish sd_env 7 sd_end))" using f by (metis prod.collapse)
  from send_success_acknowledged [OF sd_facts(1) sd_attempts sd_trace(2) [unfolded sd_start_def] this p(1)]
  show ?thesis by (auto simp: p(2)) (simp add: sd_env_def)
qed

end
