(* ===== verification/AbsPath.thy ===== *)
theory AbsPath
  imports Paths
begin

text \<open>
  Absolute paths in the form \<open>filepath.Abs\<close> returns them: a drive, then plain components. On this
  form \<open>Dir\<close>, \<open>Base\<close>, \<open>Join\<close> and \<open>Clean\<close> are the operations on the list of components, and the
  containment check is a prefix of lists; the components that handle paths rest on these facts.
\<close>

definition drive :: "string \<Rightarrow> bool" where
  "drive v \<longleftrightarrow> (\<exists>a. v = [a, CHR '':''] \<and> is_letter a)"

definition abs_of :: "string \<Rightarrow> string list \<Rightarrow> string" where
  "abs_of v cs = v @ bs # join_with bs cs"

definition resolved :: "string \<Rightarrow> bool" where
  "resolved p \<longleftrightarrow> (\<exists>v cs. drive v \<and> list_all plain cs \<and> p = abs_of v cs)"

lemma volume_abs_of [simp]: "drive v \<Longrightarrow> volume (abs_of v cs) = v"
  by (auto simp: drive_def abs_of_def volume_def)

lemma after_volume_abs_of [simp]: "drive v \<Longrightarrow> after_volume (abs_of v cs) = bs # join_with bs cs"
  using volume_abs_of [of v cs] by (auto simp: after_volume_def abs_of_def drive_def)

lemma is_abs_abs_of [simp]: "drive v \<Longrightarrow> is_abs (abs_of v cs)"
  by (auto simp: is_abs_def rooted_def is_sep_def drive_def [of v])

lemma rooted_abs_of [simp]: "drive v \<Longrightarrow> rooted (abs_of v cs)"
  using is_abs_abs_of by (simp add: is_abs_def)

lemma components_abs_of [simp]: "drive v \<Longrightarrow> list_all plain cs \<Longrightarrow> components (abs_of v cs) = cs"
proof (cases "cs = []")
  case True
  assume "drive v"
  then show ?thesis using True by (simp add: components_def to_backslash_def)
qed (simp add: components_of_rooted)

lemma clean_components_abs_of [simp]: "drive v \<Longrightarrow> list_all plain cs \<Longrightarrow> clean_components (abs_of v cs) = cs"
  by (simp add: clean_components_def resolve_id)

lemma clean_abs_of [simp]: "drive v \<Longrightarrow> list_all plain cs \<Longrightarrow> clean (abs_of v cs) = abs_of v cs"
  using clean_abs [of "abs_of v cs"] by (simp add: abs_of_def [of v cs, symmetric])

lemma abs_path_abs_of [simp]: "drive v \<Longrightarrow> list_all plain cs \<Longrightarrow> abs_path cwd (abs_of v cs) = abs_of v cs"
  by (simp add: abs_path_def)

lemma volume_drive: "is_abs p \<Longrightarrow> drive (volume p)"
  by (auto simp: is_abs_def volume_def drive_def split: list.splits if_splits)

lemma abs_path_resolved:
  assumes "is_abs p"
  shows "\<exists>v cs. drive v \<and> list_all plain cs \<and> abs_path cwd p = abs_of v cs"
  using assms clean_abs [OF assms] volume_drive [OF assms] clean_components_plain [of p]
  by (auto simp: abs_path_def abs_of_def is_abs_def)

lemma resolved_abs_path: "is_abs p \<Longrightarrow> resolved (abs_path cwd p)"
  using abs_path_resolved [of p cwd] unfolding resolved_def by blast

lemma join_abs_of [simp]:
  assumes "drive v" "list_all plain cs" "plain n"
  shows "join_path [abs_of v cs, n] = abs_of v (cs @ [n])"
proof -
  have "abs_of v cs \<noteq> ''''" by (simp add: abs_of_def)
  moreover have "volume (abs_of v cs @ bs # n) = v" "rooted (abs_of v cs @ bs # n)"
    using assms(1) by (simp_all add: volume_append rooted_def after_volume_append is_sep_def)
  ultimately have "join_path [abs_of v cs, n] = render v True (cs @ [n])"
    using assms by (simp add: join_path_plain resolve_id)
  then show ?thesis by (simp add: render_def abs_of_def)
qed

lemma plain_last: "plain c \<Longrightarrow> \<not> is_sep (last c) \<and> c \<noteq> ''''"
  by (auto simp: plain_def list_all_iff)

lemma dropWhile_comp:
  "plain n \<Longrightarrow> dropWhile (\<lambda>c. \<not> is_sep c) (rev (s @ bs # n)) = bs # rev s"
  "plain n \<Longrightarrow> takeWhile (\<lambda>c. \<not> is_sep c) (rev (s @ bs # n)) = rev n"
  by (auto simp: plain_def list_all_iff is_sep_def dropWhile_append takeWhile_append)

lemma components_trailing: "components (s @ [bs]) = components s"
proof -
  have "after_volume (s @ [bs]) = after_volume s @ [bs]" using after_volume_append [of s "[]"] by simp
  moreover have "split_on bs (x @ [bs]) = split_on bs x @ [[]]" for x using split_on_append [of bs x "[]"] by simp
  ultimately show ?thesis by (simp add: components_def to_backslash_def)
qed

lemma dir_abs_of [simp]:
  assumes "drive v" "list_all plain cs"
  shows "dir_name (abs_of v cs) = abs_of v (butlast cs)"
proof (cases cs rule: rev_cases)
  case Nil
  have a: "after_volume (abs_of v []) = [bs]" using assms(1) by simp
  have "dir_name (abs_of v []) = clean (abs_of v [])"
    unfolding dir_name_def a using assms(1) by (simp add: is_sep_def abs_of_def [of v "[]"] del: volume_abs_of)
      (use volume_abs_of [of v "[]"] in \<open>simp add: abs_of_def\<close>)
  then show ?thesis using assms(1) Nil by simp
next
  case (snoc ds n)
  then have n: "plain n" "list_all plain ds" using assms(2) by auto
  have "bs # join_with bs cs = (if ds = [] then '''' else bs # join_with bs ds) @ bs # n"
    using snoc by (simp add: join_with_snoc)
  then have d: "rev (dropWhile (\<lambda>c. \<not> is_sep c) (rev (after_volume (abs_of v cs))))
      = (if ds = [] then '''' else bs # join_with bs ds) @ [bs]"
    using assms(1) dropWhile_comp(1) [OF n(1)] by simp
  show ?thesis
  proof (cases "ds = []")
    case True
    then show ?thesis using d assms(1) snoc clean_abs_of [OF assms(1), of "[]"]
      by (simp add: dir_name_def abs_of_def [of v "[]"])
  next
    case False
    have e: "dir_name (abs_of v cs) = clean (abs_of v ds @ [bs])"
      using d False assms(1) by (simp add: dir_name_def abs_of_def [of v ds])
    have "volume (abs_of v ds @ [bs]) = v" "rooted (abs_of v ds @ [bs])"
      using volume_append [of "abs_of v ds" "[]"] after_volume_append [of "abs_of v ds" "[]"] assms(1)
      by (simp_all add: rooted_def is_sep_def)
    moreover have "components (abs_of v ds @ [bs]) = ds"
      using components_trailing [of "abs_of v ds"] assms(1) n(2) by simp
    ultimately have "dir_name (abs_of v cs) = render v True ds"
      using n(2) by (simp add: e clean_def clean_components_def resolve_id)
    then show ?thesis using snoc by (simp add: render_def abs_of_def)
  qed
qed

lemma trim_right_plain: "\<not> is_sep (last s) \<Longrightarrow> s \<noteq> '''' \<Longrightarrow> trim_right_by is_sep s = s"
  by (cases s rule: rev_cases) (auto simp: trim_right_by_def)

lemma base_abs_of [simp]:
  assumes "drive v" "list_all plain cs" "plain n"
  shows "base_name (abs_of v (cs @ [n])) = n"
proof -
  have l: "\<not> is_sep (last (abs_of v (cs @ [n])))" "abs_of v (cs @ [n]) \<noteq> ''''"
    using plain_last [OF assms(3)] by (simp_all add: abs_of_def join_with_snoc)
  have a: "after_volume (abs_of v (cs @ [n])) = (if cs = [] then '''' else bs # join_with bs cs) @ bs # n"
    using assms(1) by (simp add: join_with_snoc)
  have "takeWhile (\<lambda>c. \<not> is_sep c) (rev (after_volume (abs_of v (cs @ [n])))) = rev n"
    unfolding a by (rule dropWhile_comp(2) [OF assms(3)])
  then show ?thesis using l plain_last [OF assms(3)]
    by (simp add: base_name_def trim_right_plain Let_def)
qed

lemma base_plain [simp]: "plain n \<Longrightarrow> volume n = '''' \<Longrightarrow> base_name n = n"
proof -
  assume n: "plain n" and v: "volume n = ''''"
  have t: "takeWhile (\<lambda>c. \<not> is_sep c) (rev n) = rev n"
    using n by (simp add: plain_def list_all_iff takeWhile_eq_all_conv)
  have r: "after_volume (trim_right_by is_sep n) = n"
    using v plain_last [OF n] by (simp add: trim_right_plain after_volume_def)
  show ?thesis unfolding base_name_def r Let_def t using plain_last [OF n] by simp
qed

lemma abs_of_inject:
  assumes "drive v" "drive v'" "list_all plain cs" "list_all plain cs'"
  shows "abs_of v cs = abs_of v' cs' \<longleftrightarrow> v = v' \<and> cs = cs'"
  using assms by (metis volume_abs_of clean_components_abs_of)

lemma length_abs_of: "length (abs_of v cs) = length v + 1 + length (join_with bs cs)"
  by (simp add: abs_of_def)

lemma dir_shorter:
  assumes "drive v" "list_all plain cs" "cs \<noteq> []"
  shows "length (dir_name (abs_of v cs)) < length (abs_of v cs)"
  using assms by (cases cs rule: rev_cases) (auto simp: length_abs_of join_with_snoc plain_def)

section \<open>Containment on resolved paths\<close>

lemma is_under_abs_of:
  assumes "drive v" "drive v'" "list_all plain ps" "list_all plain rs"
  shows "is_under cwd (abs_of v ps) (abs_of v' rs) \<longleftrightarrow> equal_fold v v' \<and>
     (map to_lower ps = map to_lower rs \<or>
      rs \<noteq> [] \<and> (\<exists>rest. rest \<noteq> [] \<and> map to_lower ps = map to_lower rs @ rest))"
  using assms by (simp add: is_under_components Let_def)

lemma under_child:
  assumes "drive v" "list_all plain cs" "list_all plain ns" "cs \<noteq> []"
  shows "is_under cwd (abs_of v (cs @ ns)) (abs_of v cs)"
  using assms by (cases "ns = []") (auto simp: is_under_abs_of)

lemma under_trans:
  assumes "resolved p" "resolved q" "resolved r" "is_under cwd p q" "is_under cwd q r"
  shows "is_under cwd p r"
proof -
  obtain v1 v2 v3 c1 c2 c3 where e: "drive v1" "drive v2" "drive v3" "list_all plain c1" "list_all plain c2"
    "list_all plain c3" "p = abs_of v1 c1" "q = abs_of v2 c2" "r = abs_of v3 c3"
    using assms(1-3) unfolding resolved_def by blast
  show ?thesis using assms(4,5) unfolding e(7-9) is_under_abs_of [OF e(1,2,4,5)] is_under_abs_of [OF e(2,3,5,6)]
      is_under_abs_of [OF e(1,3,4,6)]
    by (auto simp: equal_fold_def)
qed

lemma under_dir:
  assumes "resolved p" "resolved r" "is_under cwd p r" "to_lower p \<noteq> to_lower r"
  shows "is_under cwd (dir_name p) r"
proof -
  obtain v1 v2 c1 c2 where e: "drive v1" "drive v2" "list_all plain c1" "list_all plain c2"
    "p = abs_of v1 c1" "r = abs_of v2 c2"
    using assms(1,2) unfolding resolved_def by blast
  have u: "equal_fold v1 v2" "map to_lower c1 = map to_lower c2 \<or>
      c2 \<noteq> [] \<and> (\<exists>rest. rest \<noteq> [] \<and> map to_lower c1 = map to_lower c2 @ rest)"
    using assms(3) unfolding e(5,6) is_under_abs_of [OF e(1,2,3,4)] by auto
  have "map to_lower c1 \<noteq> map to_lower c2"
    using assms(4) u(1) unfolding e(5,6) by (auto simp: abs_of_def to_lower_join equal_fold_def)
  with u obtain rest where r: "c2 \<noteq> []" "rest \<noteq> []" "map to_lower c1 = map to_lower c2 @ rest" by auto
  then have "map to_lower (butlast c1) = map to_lower c2 @ butlast rest"
    by (simp add: map_butlast butlast_append)
  moreover have "list_all plain (butlast c1)" using e(3) by (auto simp: list_all_iff dest: in_set_butlastD)
  ultimately show ?thesis using e u r by (auto simp: is_under_abs_of)
qed

section \<open>Joining relative paths\<close>

lemma volume_bs [simp]: "volume (bs # s) = ''''"
  by (cases s) (simp_all add: volume_def)

lemma parts_of_join:
  assumes "list_all plain ds" "ds \<noteq> []"
  shows "filter (\<lambda>c. c \<noteq> '''' \<and> c \<noteq> ''.'') (split_on bs (to_backslash (join_with bs ds))) = ds"
proof -
  have "components (bs # join_with bs ds) = ds"
    using assms by (intro components_of_rooted) (auto simp: after_volume_def)
  then show ?thesis by (simp add: components_def after_volume_def to_backslash_def)
qed

lemma components_append_list:
  assumes "list_all plain ds" "ds \<noteq> []"
  shows "components (s @ bs # join_with bs ds) = components s @ ds"
    and "components (s @ bs # bs # join_with bs ds) = components s @ ds"
proof -
  have t: "to_backslash (a @ bs # b) = to_backslash a @ bs # to_backslash b" "to_backslash (bs # b) = bs # to_backslash b" for a b
    by (simp_all add: to_backslash_def)
  show "components (s @ bs # join_with bs ds) = components s @ ds"
    unfolding components_def after_volume_append t split_on_append filter_append parts_of_join [OF assms] ..
  have "split_on bs (bs # x) = [] # split_on bs x" for x by simp
  then show "components (s @ bs # bs # join_with bs ds) = components s @ ds"
    unfolding components_def after_volume_append t split_on_append filter_append
    by (simp only: filter.simps parts_of_join [OF assms]) simp
qed

lemma join_abs_of_rel:
  assumes "drive v" "list_all plain rs" "list_all plain ds" "ds \<noteq> []" "x = join_with bs ds \<or> x = bs # join_with bs ds"
  shows "join_path [abs_of v rs, x] = abs_of v (rs @ ds)"
proof -
  have "join_with bs ds \<noteq> ''''"
    using assms(3,4) by (cases ds; cases "tl ds") (auto simp: plain_def)
  then have "x \<noteq> ''''" "abs_of v rs \<noteq> ''''" using assms(5) by (auto simp: abs_of_def)
  then have j: "join_path [abs_of v rs, x] = clean (abs_of v rs @ bs # x)" by (simp add: join_path_def)
  have "components (abs_of v rs @ bs # x) = rs @ ds"
    using assms components_append_list [OF assms(3,4), of "abs_of v rs"] by auto
  moreover have "volume (abs_of v rs @ bs # x) = v" "rooted (abs_of v rs @ bs # x)"
    using assms(1) by (simp_all add: volume_append rooted_def after_volume_append is_sep_def)
  ultimately have "clean (abs_of v rs @ bs # x) = render v True (rs @ ds)"
    using assms(2,3) by (simp add: clean_def clean_components_def resolve_id)
  then show ?thesis unfolding j by (simp add: render_def abs_of_def)
qed

section \<open>The end of a path\<close>

lemma last_split_on: "q \<noteq> [] \<Longrightarrow> last q \<noteq> d \<Longrightarrow> last (split_on d q) \<noteq> [] \<and> last (last (split_on d q)) = last q"
proof (induction q)
  case (Cons c q)
  show ?case
  proof (cases "q = []")
    case False
    then have "last (split_on d q) \<noteq> []" "last (last (split_on d q)) = last q" using Cons by auto
    then show ?thesis using False split_on_nonempty [of d q] by (cases "split_on d q") auto
  qed (use Cons.prems in auto)
qed simp

lemma resolve_append: "c \<noteq> ''..'' \<Longrightarrow> resolve r acc (cs @ [c]) = resolve r acc cs @ [c]"
  by (induction r acc cs rule: resolve.induct) auto

text \<open>A path that ends with a digit still does after \<open>Clean\<close>.\<close>

lemma clean_last:
  assumes "p \<noteq> []" and "is_digit (last p)"
  shows "last (clean p) = last p"
proof -
  let ?q = "to_backslash (after_volume p)"
  have l: "\<not> is_sep (last p)" "last p \<noteq> CHR ''.''" "last p \<noteq> CHR '':''"
    using assms(2) by (auto simp: is_sep_def bs_def is_digit_def)
  have ne: "after_volume p \<noteq> []" "last (after_volume p) = last p"
    using assms(1) l(3) by (auto simp: after_volume_def volume_def split: list.splits if_splits)
  then have q: "?q \<noteq> []" "last ?q = last p" using l(1)
    by (auto simp: to_backslash_def last_map is_sep_def)
  let ?s = "split_on bs ?q"
  have s: "last ?s \<noteq> []" "last (last ?s) = last p" "?s \<noteq> []"
    using last_split_on [OF q(1), of bs] q(2) l(1) split_on_nonempty by (auto simp: is_sep_def)
  then have k: "last ?s \<noteq> ''.''" "last ?s \<noteq> ''..''" using l(2) by auto
  have "components p = filter (\<lambda>c. c \<noteq> '''' \<and> c \<noteq> ''.'') (butlast ?s) @ [last ?s]"
  proof -
    have "filter (\<lambda>c. c \<noteq> '''' \<and> c \<noteq> ''.'') (butlast ?s @ [last ?s])
        = filter (\<lambda>c. c \<noteq> '''' \<and> c \<noteq> ''.'') (butlast ?s) @ [last ?s]"
      unfolding filter_append using s(1) k(1) by (simp del: append_butlast_last_id)
    then show ?thesis unfolding append_butlast_last_id [OF s(3)] components_def .
  qed
  then have "clean_components p = resolve (rooted p) [] (filter (\<lambda>c. c \<noteq> '''' \<and> c \<noteq> ''.'') (butlast ?s)) @ [last ?s]"
    using k(2) by (simp add: clean_components_def resolve_append)
  then show ?thesis using s(1,2) by (simp add: clean_def render_def Let_def join_with_snoc)
qed

end
