(* ===== verification/ReceiverPaths.thy ===== *)
theory ReceiverPaths
  imports AbsPath FileSys Proto Config
begin

text \<open>
  The path checks of the agent: \<open>cmd/multisend-agent/receiver.go\<close> (relative receive paths, publish
  names, target and final paths, \<open>validateReceiverPath\<close>), \<open>pull.go\<close> (the lab path, the resolution of
  links, the shared roots of remote sends) and \<open>history.go\<close> (\<open>pathWithin\<close>, the managed staging
  directories). \<open>filepath.EvalSymlinks\<close> is the parameter \<open>links\<close>: the answer of the operating system,
  which depends on where its links point.
\<close>

section \<open>Code\<close>

definition is_pull_header :: "header \<Rightarrow> bool" where
  "is_pull_header h \<longleftrightarrow> trim_space (h_receive_rel_path h) \<noteq> '''' \<or> trim_space (h_publish_name h) \<noteq> ''''
     \<or> trim_space (h_folder_result h) \<noteq> ''''"

definition validate_receive_rel_path :: "string \<Rightarrow> string result" where
  "validate_receive_rel_path rel =
     (let rel = trim_space rel in
      if rel = '''' \<or> rel = ''.'' then Inr ''.''
      else if is_abs rel then Inl ''path must be relative''
      else let c = clean rel in
        if c = ''.'' then Inr ''.''
        else if c = ''..'' \<or> has_prefix c (''..'' @ [bs]) then Inl ''path traversal is not allowed''
        else Inr c)"

definition resolve_existing_path :: "(string \<Rightarrow> string result) \<Rightarrow> string \<Rightarrow> string \<Rightarrow> string result" where
  "resolve_existing_path links cwd raw =
     (case links (abs_path cwd (trim_space raw)) of
        Inl e \<Rightarrow> Inl e | Inr r \<Rightarrow> Inr (abs_path cwd r))"

text \<open>
  The loop over the ancestors: the nearest one that exists, and the names below it. The fuel bounds
  the number of steps; \<open>existing_ancestor_ends\<close> shows that the length of the path is enough.
\<close>

fun existing_ancestor :: "nat \<Rightarrow> string \<Rightarrow> string list \<Rightarrow> (string \<times> string list) io" where
  "existing_ancestor 0 ancestor missing = io_fail ''out of fuel''"
| "existing_ancestor (Suc n) ancestor missing =
     io_bind (fs_lstat ancestor) (\<lambda>node.
       if node \<noteq> None then io_return (ancestor, missing)
       else let parent = dir_name ancestor in
         if parent = ancestor then io_fail ''no existing parent''
         else existing_ancestor n parent (missing @ [base_name ancestor]))"

definition resolve_path_with_existing_parent :: "(string \<Rightarrow> string result) \<Rightarrow> string \<Rightarrow> string \<Rightarrow> string io" where
  "resolve_path_with_existing_parent links cwd raw =
     (let a = abs_path cwd (trim_space raw) in
      io_bind (existing_ancestor (Suc (length a)) a []) (\<lambda>(ancestor, missing).
      io_bind (io_lift (links ancestor)) (\<lambda>r.
      io_return (abs_path cwd (foldl (\<lambda>r n. join_path [r, n]) r (rev missing))))))"

definition resolve_receive_rel_root :: "(string \<Rightarrow> string result) \<Rightarrow> string \<Rightarrow> string \<Rightarrow> string \<Rightarrow> string io" where
  "resolve_receive_rel_root links cwd receivePath rel =
     io_bind (io_lift (validate_receive_rel_path rel)) (\<lambda>c.
     io_bind (io_lift (resolve_existing_path links cwd receivePath)) (\<lambda>rootResolved.
     io_bind (resolve_path_with_existing_parent links cwd
        (if c \<noteq> ''.'' then join_path [receivePath, c] else receivePath)) (\<lambda>targetResolved.
     if \<not> is_under cwd targetResolved rootResolved then io_fail ''path must stay inside''
     else io_return targetResolved)))"

definition sanitize_publish_name :: "string \<Rightarrow> string" where
  "sanitize_publish_name name =
     (let name = trim_space name in
      if name = '''' then ''''
      else let b = base_name (replace_all ''/'' [bs] name) in
        if b = ''.'' \<or> b = [bs] then '''' else b)"

definition pull_publish_root :: "string \<Rightarrow> string" where
  "pull_publish_root sessionDir =
     (let parent = dir_name sessionDir in
      if equal_fold (base_name parent) ''_pull_sessions'' then dir_name parent else '''')"

definition receiver_target_info :: "string \<Rightarrow> string \<Rightarrow> header \<Rightarrow> target_info" where
  "receiver_target_info sessionDir name h =
     (if \<not> is_pull_header h then \<lparr>tgt_type = ''p2p'', tgt_address = '''', tgt_path = sessionDir\<rparr>
      else let publishName = sanitize_publish_name (h_publish_name h);
               publishName = (if publishName = '''' then base_name name else publishName);
               rt = pull_publish_root sessionDir;
               rt = (if rt = '''' then sessionDir else rt)
           in \<lparr>tgt_type = ''file'', tgt_address = normalize_pull_folder_result (h_folder_result h),
               tgt_path = join_path [rt, publishName]\<rparr>)"

definition receiver_final_path :: "string \<Rightarrow> manifest \<Rightarrow> string" where
  "receiver_final_path sessionDir mf =
     (if tgt_type (mf_target mf) = ''file'' \<and> trim_space (tgt_path (mf_target mf)) \<noteq> ''''
      then tgt_path (mf_target mf)
      else join_path [sessionDir, mf_file_name mf])"

definition validate_receiver_path :: "string \<Rightarrow> string \<Rightarrow> string \<Rightarrow> unit result" where
  "validate_receiver_path cwd rt target =
     (let rootAbs = abs_path cwd rt; targetAbs = abs_path cwd target in
      if is_under cwd targetAbs rootAbs then Inr ()
      else let pullRoot = pull_publish_root rootAbs in
        if pullRoot \<noteq> '''' \<and> is_under cwd targetAbs pullRoot
             \<and> \<not> is_under cwd targetAbs (join_path [pullRoot, ''_pull_sessions'']) then Inr ()
        else Inl ''path outside receive root'')"

definition validate_lab_receive_path :: "string \<Rightarrow> string \<Rightarrow> string \<Rightarrow> string result" where
  "validate_lab_receive_path cwd receivePath requested =
     (if trim_space requested = '''' then Inl ''lab_receive_path is required when lab=true''
      else let baseAbs = abs_path cwd receivePath;
               allowedAbs = abs_path cwd (join_path [baseAbs, ''_lab'', ''receive'']);
               reqInput = (if \<not> is_abs requested then join_path [baseAbs, requested] else requested);
               reqAbs = abs_path cwd reqInput;
               baseLower = to_lower allowedAbs; reqLower = to_lower reqAbs
           in if reqLower \<noteq> baseLower \<and> \<not> has_prefix reqLower (baseLower @ [bs])
              then Inl ''path must stay inside'' else Inr reqAbs)"

definition remote_send_roots :: "config \<Rightarrow> string list" where
  "remote_send_roots cfg =
     (case cfg_remote_send_roots cfg of
        None \<Rightarrow> [cfg_receive_path cfg]
      | Some rs \<Rightarrow> if rs = [] then [cfg_receive_path cfg] else rs)"

definition is_remote_send_path_allowed :: "(string \<Rightarrow> string result) \<Rightarrow> string \<Rightarrow> config \<Rightarrow> string \<Rightarrow> bool" where
  "is_remote_send_path_allowed links cwd cfg p =
     (case resolve_existing_path links cwd p of
        Inl _ \<Rightarrow> False
      | Inr r \<Rightarrow> list_ex (\<lambda>rt. case resolve_existing_path links cwd rt of
            Inl _ \<Rightarrow> False | Inr rootResolved \<Rightarrow> is_under cwd r rootResolved) (remote_send_roots cfg))"

definition path_within :: "string \<Rightarrow> string \<Rightarrow> string \<Rightarrow> bool" where
  "path_within cwd path rt =
     (let p = to_lower (clean (abs_path cwd path)); r = to_lower (clean (abs_path cwd rt)) in
      p = r \<or> has_prefix p (r @ [bs]))"

section \<open>Properties\<close>

text \<open>The loop over the ancestors of an absolute path ends at the root of the drive.\<close>

lemma existing_ancestor_fuel:
  "drive v \<Longrightarrow> list_all plain cs \<Longrightarrow> length (abs_of v cs) < n \<Longrightarrow>
   fst (existing_ancestor n (abs_of v cs) ms w) \<noteq> Inl ''out of fuel''"
proof (induction n arbitrary: cs ms w)
  case (Suc n)
  let ?p = "abs_of v cs"
  have b: "list_all plain (butlast cs)" using Suc.prems(2) by (auto simp: list_all_iff dest: in_set_butlastD)
  have d: "dir_name ?p = abs_of v (butlast cs)" using Suc.prems by simp
  have "fst (existing_ancestor n (dir_name ?p) ms' w') \<noteq> Inl ''out of fuel''" if "dir_name ?p \<noteq> ?p" for ms' w'
  proof -
    have "cs \<noteq> []" using that d by auto
    then have "length (abs_of v (butlast cs)) < n"
      using dir_shorter [of v cs] Suc.prems d by simp
    then show ?thesis unfolding d using Suc.IH [OF Suc.prems(1) b] by blast
  qed
  then show ?case
    by (auto simp: io_bind_def fs_lstat_def io_return_def io_fail_def Let_def split: prod.splits sum.splits)
qed simp

text \<open>
  the search for an existing ancestor ends. For a path that \<open>filepath.Abs\<close> returns, and whatever
  the file system answers, the loop of \<open>resolvePathWithExistingParent\<close> stops after at most as many
  steps as the path has characters: it finds an ancestor, reaches the root of the drive, or fails.
\<close>

theorem existing_ancestor_ends:
  assumes "resolved p"
  shows "fst (existing_ancestor (Suc (length p)) p [] w) \<noteq> Inl ''out of fuel''"
  using assms existing_ancestor_fuel unfolding resolved_def by (metis lessI)

theorem existing_ancestor_ends_witness:
  "fst (existing_ancestor (Suc (length demo_path)) demo_path [] (demo_world (\<lambda>n. False) [])) \<noteq> Inl ''out of fuel''"
proof -
  have "demo_path = abs_of ''C:'' [''d'', ''m'']" "drive ''C:''" "list_all plain [''d'', ''m'']"
    by (simp add: demo_path_def abs_of_def, simp add: drive_def, code_simp, code_simp)
  then have "resolved demo_path" unfolding resolved_def by blast
  then show ?thesis by (rule existing_ancestor_ends)
qed

lemma resolve_no_dotdot:
  "resolve False [] cs = ds \<Longrightarrow> ds = [] \<or> hd ds \<noteq> ''..'' \<Longrightarrow> ''..'' \<notin> set ds"
proof -
  have "\<exists>k rest. resolve False acc cs = replicate k ''..'' @ rest \<and> ''..'' \<notin> set rest"
    if "\<exists>k rest. rev acc = replicate k ''..'' @ rest \<and> ''..'' \<notin> set rest" for acc
    using that
  proof (induction False acc cs rule: resolve.induct)
    case (2 acc c cs)
    obtain k rest where a: "rev acc = replicate k ''..'' @ rest" "''..'' \<notin> set rest" using "2.prems" by blast
    have acc: "acc = rev rest @ replicate k ''..''" using a(1) by (metis rev_append rev_rev_ident rev_replicate)
    show ?case
    proof (cases "c = ''..''")
      case False
      have "rev (c # acc) = replicate k ''..'' @ (rest @ [c])" "''..'' \<notin> set (rest @ [c])" using a False by auto
      then show ?thesis using "2.hyps"(4) [OF False] False by (simp only: resolve.simps if_False) blast
    next
      case True
      show ?thesis
      proof (cases "acc \<noteq> [] \<and> hd acc \<noteq> ''..''")
        case t: True
        then have "rest \<noteq> []" using acc by (cases k) auto
        then have "rev (tl acc) = replicate k ''..'' @ butlast rest" "''..'' \<notin> set (butlast rest)"
          using a(2) by (simp_all add: butlast_rev [symmetric] a(1) butlast_append) (auto dest: in_set_butlastD)
        then show ?thesis using "2.hyps"(1) [OF True t] True t by (simp only: resolve.simps if_True simp_thms) blast
      next
        case f: False
        have "rest = []"
        proof (rule ccontr)
          assume "rest \<noteq> []"
          then have "acc \<noteq> []" "hd acc \<in> set rest" using acc by (auto simp: hd_append hd_rev)
          then show False using f a(2) by auto
        qed
        then have "rev (''..'' # acc) = replicate (Suc k) ''..'' @ []" using a(1) by (simp add: replicate_append_same)
        then have "\<exists>k rest. rev (''..'' # acc) = replicate k ''..'' @ rest \<and> ''..'' \<notin> set rest"
          by (intro exI [of _ "Suc k"] exI [of _ "[]"]) simp
        then show ?thesis using "2.hyps"(3) [OF True f] True f by (simp only: resolve.simps if_True if_False simp_thms)
      qed
    qed
  qed simp
  from this [of "[]"] obtain k rest where k: "resolve False [] cs = replicate k ''..'' @ rest" "''..'' \<notin> set rest"
    by (metis append_Nil replicate_0 rev.simps(1) empty_iff list.set(1))
  assume "resolve False [] cs = ds" "ds = [] \<or> hd ds \<noteq> ''..''"
  with k show "''..'' \<notin> set ds" by (cases k) auto
qed

lemma join_dotdot:
  assumes "ds \<noteq> []" "hd ds = ''..''"
  shows "join_with bs ds = ''..'' \<or> prefix (''..'' @ [bs]) (join_with bs ds)"
  using assms by (cases ds; cases "tl ds") auto

lemma validate_rel_spec:
  assumes "validate_receive_rel_path rel = Inr c" and "volume (trim_space rel) = ''''"
  shows "c = ''.'' \<or> (\<exists>ds. ds \<noteq> [] \<and> list_all plain ds \<and> (c = join_with bs ds \<or> c = bs # join_with bs ds))
    \<or> c = [bs]"
proof (cases "c = ''.''")
  case False
  let ?r = "trim_space rel" and ?ds = "clean_components (trim_space rel)"
  have c: "c = clean ?r" "c \<noteq> ''..''" "\<not> prefix (''..'' @ [bs]) c"
    using assms(1) False by (auto simp: validate_receive_rel_path_def Let_def has_prefix_def split: if_splits)
  show ?thesis
  proof (cases "rooted ?r")
    case True
    then have "c = bs # join_with bs ?ds" "list_all plain ?ds"
      using c(1) assms(2) clean_components_plain by (auto simp: clean_def render_def Let_def)
    then show ?thesis by (cases "?ds = []") auto
  next
    case f: False
    then have j: "c = join_with bs ?ds" "?ds \<noteq> []"
      using c(1) assms(2) False by (auto simp: clean_def render_def Let_def split: if_splits)
    then have "''..'' \<notin> set ?ds"
      using c join_dotdot [of ?ds] f resolve_no_dotdot [of "components ?r" ?ds] by (auto simp: clean_components_def)
    moreover have "set ?ds \<subseteq> insert ''..'' (set (components ?r))"
    proof -
      have "set (resolve r acc cs) \<subseteq> insert ''..'' (set acc \<union> set cs)" for r acc cs
      proof (induction r acc cs rule: resolve.induct)
        case (2 r acc c cs)
        then show ?case by (cases acc) (auto split: if_splits)
      qed auto
      from this [of "rooted ?r" "[]" "components ?r"] show ?thesis by (simp add: clean_components_def)
    qed
    ultimately have "list_all plain ?ds"
      using components_no_sep [of _ ?r] by (fastforce simp: list_all_iff plain_def)
    with j show ?thesis by blast
  qed
qed simp

text \<open>
  a relative receive path that passes the check stays inside. If \<open>validateReceiveRelPath\<close> accepts a
  path that names no drive, then joining it to an absolute receive path other than the root of a drive
  gives a path under that receive path, for every spelling with either slash, dots and double dots.
\<close>

theorem receive_rel_path_contained:
  assumes "validate_receive_rel_path rel = Inr c" and "volume (trim_space rel) = ''''"
    and "resolved rt" and "clean_components rt \<noteq> []"
  shows "is_under cwd (if c \<noteq> ''.'' then join_path [rt, c] else rt) rt"
proof -
  obtain v rs where r: "drive v" "list_all plain rs" "rt = abs_of v rs"
    using assms(3) unfolding resolved_def by blast
  then have ne: "rs \<noteq> []" using assms(4) by simp
  have self: "is_under cwd rt rt" using under_child [OF r(1,2) _ ne, of "[]"] r(3) by simp
  consider "c = ''.''" | "c = [bs]" | ds where "ds \<noteq> []" "list_all plain ds" "c = join_with bs ds \<or> c = bs # join_with bs ds"
    using validate_rel_spec [OF assms(1,2)] by blast
  then show ?thesis
  proof cases
    case 2
    have "components (rt @ [bs, bs]) = rs"
      using components_trailing [of "rt @ [bs]"] components_trailing [of rt] r by simp
    moreover have "volume (rt @ [bs, bs]) = v" "rooted (rt @ [bs, bs])"
      using r by (simp_all add: volume_append rooted_def after_volume_append is_sep_def)
    ultimately have "join_path [rt, [bs]] = rt" using r
      by (simp add: join_path_def clean_def clean_components_def resolve_id render_def Let_def abs_of_def)
    then show ?thesis using self 2 by simp
  next
    case 3
    then show ?thesis using self under_child [OF r(1,2) 3(2) ne] join_abs_of_rel [OF r(1,2) 3(2,1,3)] r(3) by simp
  qed (use self in simp)
qed

theorem receive_rel_path_contained_witness:
  "is_under '''' (join_path [demo_path, clean (''a/../b'')]) demo_path"
proof -
  have e: "demo_path = abs_of ''C:'' [''d'', ''m'']" by (simp add: demo_path_def abs_of_def)
  have d: "drive ''C:''" "list_all plain [''d'', ''m'']" by (simp add: drive_def, code_simp, code_simp)
  have "resolved demo_path" using e d unfolding resolved_def by blast
  moreover have "clean_components demo_path \<noteq> []" "validate_receive_rel_path ''a/../b'' = Inr (clean ''a/../b'')"
    "volume (trim_space ''a/../b'') = ''''" "clean ''a/../b'' \<noteq> ''.''" by code_simp+
  ultimately show ?thesis using receive_rel_path_contained [of "''a/../b''" "clean ''a/../b''" demo_path "''''"] by simp
qed

text \<open>
  the check is not sound for a path that names a drive. \<open>C:..\..\..\x\<close> passes \<open>validateReceiveRelPath\<close>,
  and joined to the receive path it leads outside it; the agent relies on the later \<open>isUnder\<close> test of
  \<open>resolveReceiveRelRoot\<close>.
\<close>

theorem drive_relative_path_escapes:
  "let rel = ''C:..'' @ bs # ''..'' @ bs # ''..'' @ bs # ''x'' in
   validate_receive_rel_path rel = Inr rel \<and> \<not> is_under '''' (join_path [demo_path, rel]) demo_path"
  by code_simp

lemma path_within_eq: "is_abs p \<Longrightarrow> is_abs r \<Longrightarrow> path_within cwd p r = is_under cwd p r"
  using abs_path_resolved [of p cwd] abs_path_resolved [of r cwd]
  by (auto simp: path_within_def is_under_def Let_def)

end
