(* ===== verification/Receiver.thy ===== *)
theory Receiver
  imports ReceiverPaths
begin

text \<open>
  The receiver of the agent, \<open>cmd/multisend-agent/receiver.go\<close>: one connection (\<open>handleConn\<close>), the
  manifest of a session, the session table with its merge status, and the finalisation that merges the
  chunks and publishes the file. State is the world of theory FileSys and the session table. SHA-256, the
  JSON codec, the ZIP reader and \<open>EvalSymlinks\<close> are fields of \<open>receiver_env\<close>. A connection is the bytes
  that arrive before it ends, and whether the acknowledgement can be written. The routines that run
  under \<open>manifestMu\<close> are atomic steps; a timer is the flag \<open>rss_timer\<close>, and its expiry the operation
  \<open>timer_fires\<close>.
\<close>

section \<open>Data\<close>

record receiver_session =
  rs_session_dir :: string
  rs_transfer_id :: string
  rs_file_name :: string
  rs_status :: string
  rs_message :: string
  rs_chunks_total :: int64
  rs_chunks_done :: int64
  rs_chunks_failed :: int64
  rs_manifest_path :: string
  rs_final_output_path :: string
  rs_merge_status :: string
  rs_merge_message :: string
  rs_cleanup_status :: string

record receiver_session_state =
  rss_session :: receiver_session
  rss_timer :: bool

record zip_entry =
  ze_name :: string
  ze_dir :: bool
  ze_data :: "(bytes \<times> bool) result"
    \<comment> \<open>the error of \<open>Open\<close>, or the bytes it delivers and whether it ends without an error\<close>

record receiver_env =
  rv_cwd :: string
  rv_receive_path :: string
  rv_secret :: bytes
  rv_hmac :: "bytes \<Rightarrow> bytes \<Rightarrow> bytes"
  rv_sha :: "bytes \<Rightarrow> bytes"
  rv_marshal :: "manifest \<Rightarrow> bytes result"
  rv_unmarshal :: "bytes \<Rightarrow> manifest result"
  rv_links :: "string \<Rightarrow> string result"
  rv_unzip :: "bytes \<Rightarrow> zip_entry list result"

record conn =
  cn_payload :: bytes
  cn_ack_ok :: bool

record receiver =
  rc_world :: world
  rc_sessions :: "(string, receiver_session_state) gomap"

definition zero_session :: receiver_session where
  "zero_session = \<lparr>rs_session_dir = '''', rs_transfer_id = '''', rs_file_name = '''', rs_status = '''',
     rs_message = '''', rs_chunks_total = 0, rs_chunks_done = 0, rs_chunks_failed = 0, rs_manifest_path = '''',
     rs_final_output_path = '''', rs_merge_status = '''', rs_merge_message = '''', rs_cleanup_status = ''''\<rparr>"

text \<open>Run a file operation of the receiver.\<close>

definition on_world :: "'a io \<Rightarrow> receiver \<Rightarrow> 'a result \<times> receiver" where
  "on_world f r = (let (x, w) = f (rc_world r) in (x, r\<lparr>rc_world := w\<rparr>))"

section \<open>The session table\<close>

definition update_receiver_session :: "string \<Rightarrow> (receiver_session \<Rightarrow> receiver_session) \<Rightarrow> receiver \<Rightarrow> receiver" where
  "update_receiver_session dir f r =
     (let st = (case map_of (rc_sessions r) dir of
                  Some st \<Rightarrow> st
                | None \<Rightarrow> \<lparr>rss_session = zero_session\<lparr>rs_session_dir := dir, rs_merge_status := ''pending''\<rparr>,
                           rss_timer = False\<rparr>)
      in r\<lparr>rc_sessions := AList.update dir (st\<lparr>rss_session := f (rss_session st)\<rparr>) (rc_sessions r)\<rparr>)"

definition ensure_receiver_session :: "string \<Rightarrow> string \<Rightarrow> header \<Rightarrow> receiver \<Rightarrow> receiver" where
  "ensure_receiver_session dir name h =
     update_receiver_session dir (\<lambda>s. s\<lparr>rs_session_dir := dir, rs_transfer_id := h_transfer_id h,
       rs_file_name := name,
       rs_status := (if rs_status s = '''' then ''receiving'' else rs_status s),
       rs_merge_status := (if rs_merge_status s = '''' then ''pending'' else rs_merge_status s)\<rparr>)"

definition maybe_schedule_finalize :: "string \<Rightarrow> receiver \<Rightarrow> receiver" where
  "maybe_schedule_finalize dir r =
     (case map_of (rc_sessions r) dir of
        None \<Rightarrow> r
      | Some st \<Rightarrow>
          if rs_merge_status (rss_session st) = ''running'' \<or> rs_merge_status (rss_session st) = ''done'' then r
          else r\<lparr>rc_sessions := AList.update dir
            (st\<lparr>rss_session := (rss_session st)\<lparr>rs_merge_status := ''pending'', rs_merge_message := ''''\<rparr>,
                rss_timer := True\<rparr>) (rc_sessions r)\<rparr>)"

definition fail_receiver_finalize :: "string \<Rightarrow> string \<Rightarrow> receiver \<Rightarrow> receiver" where
  "fail_receiver_finalize dir msg =
     update_receiver_session dir (\<lambda>s. s\<lparr>rs_merge_status := ''failed'', rs_merge_message := msg,
       rs_cleanup_status := ''failed''\<rparr>)"

definition mark_receiver_done :: "string \<Rightarrow> manifest \<Rightarrow> string \<Rightarrow> string \<Rightarrow> receiver \<Rightarrow> receiver" where
  "mark_receiver_done dir mf finalPath msg =
     update_receiver_session dir (\<lambda>s. s\<lparr>rs_merge_status := ''done'', rs_merge_message := msg,
       rs_cleanup_status := ''done'', rs_status := ''done'', rs_message := '''',
       rs_manifest_path := join_path [dir, ''manifest.json''], rs_final_output_path := finalPath,
       rs_chunks_total := int (length (mf_chunks mf)),
       rs_chunks_done := count_status StatusDone mf,
       rs_chunks_failed := count_status StatusFailed mf\<rparr>)"

section \<open>Receiving a chunk\<close>

text \<open>\<open>io.CopyN\<close> into the file and the hash; a short stream is an error after what there was is written.\<close>

definition discard_temp :: "string \<Rightarrow> unit io" where
  "discard_temp tmp = io_bind (io_ignore fs_step) (\<lambda>_. fs_remove tmp)"

definition copy_to_temp :: "bytes \<Rightarrow> header \<Rightarrow> string \<Rightarrow> unit io" where
  "copy_to_temp data h tmp =
     io_bind (fs_append tmp data) (\<lambda>_.
       if int (length data) < h_part_size h then io_fail ''EOF'' else io_return ())"

definition store_chunk :: "receiver_env \<Rightarrow> bytes \<Rightarrow> header \<Rightarrow> string \<Rightarrow> (string \<times> int64) io" where
  "store_chunk env data h tmp =
     io_bind (io_on_error (copy_to_temp data h tmp) (discard_temp tmp)) (\<lambda>_.
     if h_chunk_sha256 h \<noteq> '''' \<and> \<not> equal_fold (hex_encode (rv_sha env data)) (h_chunk_sha256 h)
     then io_bind (io_ignore (discard_temp tmp)) (\<lambda>_. io_fail ''chunk integrity check failed'')
     else
       io_bind (io_on_error fs_step (discard_temp tmp)) (\<lambda>_.
       io_bind (io_on_error fs_step (fs_remove tmp)) (\<lambda>_.
       io_return (tmp, int (length data)))))"

definition receive_chunk_to_temp :: "receiver_env \<Rightarrow> bytes \<Rightarrow> string \<Rightarrow> header \<Rightarrow> (string \<times> int64) io" where
  "receive_chunk_to_temp env payload dir h =
     io_bind (fs_create_temp dir ''.incoming-'' ''.tmp'') (store_chunk env (take (nat (h_part_size h)) payload) h)"

definition receiver_chunk_matches :: "receiver_env \<Rightarrow> string \<Rightarrow> header \<Rightarrow> bool io" where
  "receiver_chunk_matches env path h =
     io_bind (io_try (fs_stat path)) (\<lambda>st.
       case st of
         Inl _ \<Rightarrow> io_return False
       | Inr (regular, sz) \<Rightarrow>
           if \<not> regular \<or> sz \<noteq> h_part_size h then io_return False
           else if h_chunk_sha256 h = '''' then io_return True
           else io_bind (io_try (fs_read path)) (\<lambda>b.
             io_bind (io_try fs_step) (\<lambda>closed.
             io_return (case b of Inl _ \<Rightarrow> False
               | Inr d \<Rightarrow> (case closed of Inl _ \<Rightarrow> False | Inr _ \<Rightarrow>
                   equal_fold (hex_encode (rv_sha env d)) (h_chunk_sha256 h))))))"

definition new_receiver_manifest :: "gotime \<Rightarrow> string \<Rightarrow> string \<Rightarrow> header \<Rightarrow> manifest" where
  "new_receiver_manifest now dir name h =
     \<lparr>mf_schema_version = 1, mf_transfer_id = h_transfer_id h, mf_type = ''p2p'', mf_file_name = name,
      mf_total_bytes = h_total_bytes h, mf_chunk_size = h_part_size h, mf_created_at = now, mf_updated_at = now,
      mf_source = \<lparr>src_type = ''p2p'', src_address = '''', src_url = '''', src_identity = '''',
        src_abs_path = '''', src_mod_time = 0\<rparr>,
      mf_target = receiver_target_info dir name h, mf_chunks = []\<rparr>"

text \<open>The pure part of \<open>updateReceiverManifestFile\<close>: the manifest with the chunk recorded, or the refusal.\<close>

definition record_chunk :: "gotime \<Rightarrow> header \<Rightarrow> int64 \<Rightarrow> manifest \<Rightarrow> manifest result" where
  "record_chunk now h written mf =
     (case get_chunk mf (h_chunk_index h) of
        Some c \<Rightarrow>
          if cs_offset c \<noteq> h_offset h \<or> cs_size c \<noteq> h_part_size h then Inl ''receiver manifest chunk mismatch''
          else Inr (mark_done now (h_chunk_index h) written '''' mf)
      | None \<Rightarrow> Inr (mf\<lparr>mf_chunks := mf_chunks mf @ [zero_chunk\<lparr>cs_index := h_chunk_index h,
          cs_offset := h_offset h, cs_size := h_part_size h, cs_status := StatusDone,
          cs_bytes_done := written\<rparr>]\<rparr>))"

definition open_manifest :: "receiver_env \<Rightarrow> gotime \<Rightarrow> string \<Rightarrow> string \<Rightarrow> header \<Rightarrow> manifest io" where
  "open_manifest env now dir name h =
     io_bind (io_try (load_file (rv_unmarshal env) (join_path [dir, ''manifest.json'']))) (\<lambda>lr.
       case lr of
         Inl e \<Rightarrow> if e \<noteq> ''not exist'' then io_fail (''load receiver manifest: '' @ e)
                  else io_return (new_receiver_manifest now dir name h)
       | Inr mf \<Rightarrow>
           if mf_transfer_id mf \<noteq> h_transfer_id h \<or> mf_file_name mf \<noteq> name
              \<or> mf_total_bytes mf \<noteq> h_total_bytes h \<or> mf_target mf \<noteq> receiver_target_info dir name h
           then io_fail ''receiver manifest identity mismatch''
           else io_return mf)"

definition update_manifest_io :: "receiver_env \<Rightarrow> gotime \<Rightarrow> string \<Rightarrow> string \<Rightarrow> header \<Rightarrow> int64 \<Rightarrow> manifest io" where
  "update_manifest_io env now dir name h written =
     io_bind (open_manifest env now dir name h) (\<lambda>mf.
     io_bind (io_lift (record_chunk now h written mf)) (\<lambda>mf.
     io_bind (save_manifest (rv_marshal env) now (join_path [dir, ''manifest.json'']) mf) (\<lambda>_.
     io_return mf)))"

definition update_receiver_manifest_file ::
    "receiver_env \<Rightarrow> gotime \<Rightarrow> string \<Rightarrow> string \<Rightarrow> header \<Rightarrow> int64 \<Rightarrow> receiver \<Rightarrow> unit result \<times> receiver" where
  "update_receiver_manifest_file env now dir name h written r =
     (case on_world (update_manifest_io env now dir name h written) r of
        (Inl e, r) \<Rightarrow> (Inl e, r)
      | (Inr mf, r) \<Rightarrow>
          (Inr (), update_receiver_session dir (\<lambda>s. s\<lparr>rs_session_dir := dir, rs_transfer_id := h_transfer_id h,
             rs_file_name := name, rs_manifest_path := join_path [dir, ''manifest.json''],
             rs_status := ''receiving'', rs_chunks_total := int (length (mf_chunks mf)),
             rs_chunks_done := count_status StatusDone mf, rs_chunks_failed := count_status StatusFailed mf,
             rs_merge_status := ''pending''\<rparr>) r))"

definition update_receiver_manifest ::
    "receiver_env \<Rightarrow> gotime \<Rightarrow> string \<Rightarrow> string \<Rightarrow> header \<Rightarrow> int64 \<Rightarrow> receiver \<Rightarrow> unit result \<times> receiver" where
  "update_receiver_manifest env now dir name h written r =
     (if map_of (rc_sessions r) dir = None then (Inl ''receiver session is not initialized'', r)
      else update_receiver_manifest_file env now dir name h written r)"

text \<open>Put the received file in its place, unless a good one is there.\<close>

definition place_chunk :: "receiver_env \<Rightarrow> string \<Rightarrow> string \<Rightarrow> header \<Rightarrow> unit io" where
  "place_chunk env target tmp h =
     io_bind (receiver_chunk_matches env target h) (\<lambda>matches.
       if matches then io_return () else io_bind (fs_remove_if_exists target) (\<lambda>_. fs_rename tmp target))"

definition publish_receiver_chunk ::
    "receiver_env \<Rightarrow> gotime \<Rightarrow> string \<Rightarrow> string \<Rightarrow> string \<Rightarrow> string \<Rightarrow> header \<Rightarrow> int64 \<Rightarrow> receiver \<Rightarrow>
     unit result \<times> receiver" where
  "publish_receiver_chunk env now dir name target tmp h written r =
     (if map_of (rc_sessions r) dir = None then (Inl ''receiver session is not initialized'', r)
      else case on_world (place_chunk env target tmp h) r of
        (Inl e, r) \<Rightarrow> (Inl e, r)
      | (Inr _, r) \<Rightarrow> update_receiver_manifest_file env now dir name h written r)"

section \<open>One connection\<close>

definition safe_transfer_id :: "string \<Rightarrow> string" where
  "safe_transfer_id t = (let s = filter id_char t in if s = '''' then ''unknown'' else s)"

definition chunk_file :: "string \<Rightarrow> string \<Rightarrow> int64 \<Rightarrow> string" where
  "chunk_file dir name index = join_path [dir, name @ ''.chunk'' @ itoa06 (index + 1)]"

text \<open>The receive root of a header, and the session directory below it.\<close>

definition receive_root :: "receiver_env \<Rightarrow> header \<Rightarrow> string io" where
  "receive_root env h =
     (if h_lab h then io_lift (validate_lab_receive_path (rv_cwd env) (rv_receive_path env) (h_lab_path h))
      else if is_pull_header h
      then resolve_receive_rel_root (rv_links env) (rv_cwd env) (rv_receive_path env) (h_receive_rel_path h)
      else io_return (rv_receive_path env))"

definition session_dir_of :: "receiver_env \<Rightarrow> header \<Rightarrow> string \<Rightarrow> string" where
  "session_dir_of env h rootPath =
     (let rootAbs = abs_path (rv_cwd env) rootPath;
          base = (if is_pull_header h then join_path [rootAbs, ''_pull_sessions''] else rootAbs)
      in join_path [base, base_name (h_file_name h) @ CHR ''_'' # safe_transfer_id (h_transfer_id h)])"

definition open_session :: "receiver_env \<Rightarrow> header \<Rightarrow> string io" where
  "open_session env h =
     io_bind (receive_root env h) (\<lambda>rootPath.
     let dir = session_dir_of env h rootPath in
     if \<not> is_under (rv_cwd env) (abs_path (rv_cwd env) dir) (abs_path (rv_cwd env) rootPath)
     then io_fail ''path traversal''
     else io_bind (fs_mkdir_all dir) (\<lambda>_. io_return dir))"

definition nack :: "header \<Rightarrow> string \<Rightarrow> string \<Rightarrow> chunk_ack" where
  "nack h status e = \<lparr>ack_type = ''chunk_ack'', ack_transfer_id = h_transfer_id h,
     ack_chunk_index = h_chunk_index h, ack_status = status, ack_bytes_received = 0, ack_error = e\<rparr>"

definition done_ack :: "header \<Rightarrow> int64 \<Rightarrow> chunk_ack" where
  "done_ack h n = \<lparr>ack_type = ''chunk_ack'', ack_transfer_id = h_transfer_id h,
     ack_chunk_index = h_chunk_index h, ack_status = ''done'', ack_bytes_received = n, ack_error = ''''\<rparr>"

text \<open>The chunk is already there: record it again and acknowledge it.\<close>

definition accept_existing ::
    "receiver_env \<Rightarrow> gotime \<Rightarrow> conn \<Rightarrow> string \<Rightarrow> string \<Rightarrow> header \<Rightarrow> receiver \<Rightarrow> chunk_ack option \<times> receiver" where
  "accept_existing env now c dir name h r =
     (case update_receiver_manifest env now dir name h (h_part_size h) r of
        (Inl _, r) \<Rightarrow> (None, r)
      | (Inr _, r) \<Rightarrow> (Some (done_ack h (h_part_size h)), maybe_schedule_finalize dir r))"

text \<open>The chunk is new: receive it, publish it, acknowledge it; the temporary file is removed at the end.\<close>

definition accept_new ::
    "receiver_env \<Rightarrow> gotime \<Rightarrow> conn \<Rightarrow> string \<Rightarrow> string \<Rightarrow> string \<Rightarrow> header \<Rightarrow> receiver \<Rightarrow> chunk_ack option \<times> receiver" where
  "accept_new env now c dir name target h r =
     (case on_world (receive_chunk_to_temp env (cn_payload c) dir h) r of
        (Inl e, r) \<Rightarrow>
          (if e = ''chunk integrity check failed'' then Some (nack h ''hash_mismatch'' e) else None, r)
      | (Inr (tmp, written), r) \<Rightarrow>
          (let (res, r) = publish_receiver_chunk env now dir name target tmp h written r;
               (ack, r) = (case res of
                   Inl _ \<Rightarrow> (None, r)
                 | Inr _ \<Rightarrow> (Some (done_ack h written),
                     if cn_ack_ok c then maybe_schedule_finalize dir r else r))
           in (ack, snd (on_world (fs_remove tmp) r))))"

text \<open>
  \<open>handleConn\<close> after the header is read: the acknowledgement it writes, if any. It reaches the sender
  when \<open>cn_ack_ok\<close>.
\<close>

definition handle_conn :: "receiver_env \<Rightarrow> gotime \<Rightarrow> header \<Rightarrow> conn \<Rightarrow> receiver \<Rightarrow> chunk_ack option \<times> receiver" where
  "handle_conn env now h c r =
     (case validate_header h of
        Inl e \<Rightarrow> (Some (nack h ''failed'' e), r)
      | Inr _ \<Rightarrow>
          if \<not> verify_header (rv_hmac env) (rv_secret env) h
          then (Some (nack h ''unauthorized'' ''authentication required''), r)
          else case on_world (open_session env h) r of
            (Inl _, r) \<Rightarrow> (None, r)
          | (Inr dir, r) \<Rightarrow>
              (let name = base_name (h_file_name h);
                   r = ensure_receiver_session dir name h r;
                   target = chunk_file dir name (h_chunk_index h) in
               if \<not> is_under (rv_cwd env) (abs_path (rv_cwd env) target) (abs_path (rv_cwd env) dir) then (None, r)
               else case on_world (receiver_chunk_matches env target h) r of
                 (Inr True, r) \<Rightarrow> accept_existing env now c dir name h r
               | (_, r) \<Rightarrow> accept_new env now c dir name target h r))"

section \<open>Finalisation\<close>

definition validate_manifest_complete :: "manifest \<Rightarrow> unit result" where
  "validate_manifest_complete mf =
     (if mf_total_bytes mf \<le> 0 then Inl ''invalid total bytes''
      else if count_status StatusDone mf \<noteq> int (length (mf_chunks mf)) then Inl ''chunks_done must equal chunks_total''
      else if count_status StatusFailed mf \<noteq> 0 then Inl ''chunks_failed must be zero''
      else Inr ())"

definition validate_final_size :: "string \<Rightarrow> int64 \<Rightarrow> unit io" where
  "validate_final_size p n =
     io_bind (fs_stat p) (\<lambda>(regular, sz). if sz \<noteq> n then io_fail ''final size mismatch'' else io_return ())"

text \<open>Every part is checked before it is opened; the output is closed at the end (its error is ignored).\<close>

fun merge_chunk_list :: "receiver_env \<Rightarrow> string \<Rightarrow> string \<Rightarrow> string \<Rightarrow> chunk_state list \<Rightarrow> unit io" where
  "merge_chunk_list env dir name out [] = io_return ()"
| "merge_chunk_list env dir name out (c # cs) =
     io_bind (io_lift (validate_receiver_path (rv_cwd env) dir (chunk_file dir name (cs_index c)))) (\<lambda>_.
     io_bind (copy_parts (\<lambda>c. chunk_file dir name (cs_index c)) out [c]) (\<lambda>_.
     merge_chunk_list env dir name out cs))"

definition merge_receiver_chunks :: "receiver_env \<Rightarrow> string \<Rightarrow> string \<Rightarrow> manifest \<Rightarrow> unit io" where
  "merge_receiver_chunks env finalPath dir mf =
     io_bind (io_lift (validate_receiver_path (rv_cwd env) dir finalPath)) (\<lambda>_.
     io_bind (fs_create finalPath) (\<lambda>_.
     io_defer (merge_chunk_list env dir (mf_file_name mf) finalPath (sort_by_index (mf_chunks mf))) fs_step))"

fun remove_chunk_files :: "string list \<Rightarrow> unit io" where
  "remove_chunk_files [] = io_return ()"
| "remove_chunk_files (f # fs) =
     (if has_suffix f ''.tmp'' then remove_chunk_files fs
      else io_bind (fs_remove_if_exists f) (\<lambda>_. remove_chunk_files fs))"

definition cleanup_receiver_chunks :: "string \<Rightarrow> unit io" where
  "cleanup_receiver_chunks dir =
     io_bind (fs_glob (join_path [dir, ''*.chunk*''])) remove_chunk_files"

fun extract_entries :: "string \<Rightarrow> string \<Rightarrow> zip_entry list \<Rightarrow> unit io" where
  "extract_entries cwd dest [] = io_return ()"
| "extract_entries cwd dest (f # fs) =
     (let target = abs_path cwd (join_path [dest, ze_name f]) in
      if \<not> is_under cwd target dest then io_fail ''zip entry outside destination''
      else if ze_dir f then io_bind (fs_mkdir_all target) (\<lambda>_. extract_entries cwd dest fs)
      else
        io_bind (fs_mkdir_all (dir_name target)) (\<lambda>_.
        io_bind (io_lift (ze_data f)) (\<lambda>(b, whole).
        io_bind (fs_create_excl target) (\<lambda>_.
        io_bind (io_try (io_bind (fs_append target b) (\<lambda>_.
          if whole then io_return () else io_fail ''unexpected EOF''))) (\<lambda>copyErr.
        io_bind (io_try fs_step) (\<lambda>closeErr.
        io_bind (io_lift (case copyErr of Inl e \<Rightarrow> Inl e | Inr _ \<Rightarrow> closeErr)) (\<lambda>_.
        extract_entries cwd dest fs)))))))"

definition extract_zip_safe :: "receiver_env \<Rightarrow> string \<Rightarrow> string \<Rightarrow> unit io" where
  "extract_zip_safe env zipPath destDir =
     (let dest = abs_path (rv_cwd env) destDir in
      io_bind (io_try (fs_stat dest)) (\<lambda>st.
        case st of
          Inr _ \<Rightarrow> io_fail ''destination already exists''
        | Inl e \<Rightarrow> if e \<noteq> ''not exist'' then io_fail e else
            io_bind (fs_read zipPath) (\<lambda>b.
            io_bind (io_lift (rv_unzip env b)) (extract_entries (rv_cwd env) dest))))"

text \<open>Remove a stale final file, or find that the session has been finalised before.\<close>

definition check_existing_final :: "string \<Rightarrow> int64 \<Rightarrow> bool io" where
  "check_existing_final finalPath n =
     io_bind (io_try (fs_stat finalPath)) (\<lambda>st.
       case st of
         Inl _ \<Rightarrow> io_return False
       | Inr (regular, sz) \<Rightarrow>
           if sz = n then io_return True
           else io_bind (fs_remove finalPath) (\<lambda>_. io_return False))"

definition merge_and_publish :: "receiver_env \<Rightarrow> string \<Rightarrow> manifest \<Rightarrow> string \<Rightarrow> string io" where
  "merge_and_publish env dir mf finalPath =
     (let tmp = finalPath @ ''.tmp'' in
      io_bind (io_on_error (merge_receiver_chunks env tmp dir mf) (fs_remove tmp)) (\<lambda>_.
      io_bind (io_on_error (fs_rename tmp finalPath) (fs_remove tmp)) (\<lambda>_.
      io_bind (validate_final_size finalPath (mf_total_bytes mf)) (\<lambda>_.
      io_bind (if tgt_address (mf_target mf) = ''extract'' then
          (let extractDir = (if trim_suffix finalPath ''.zip'' = finalPath then finalPath @ ''.extracted''
                             else trim_suffix finalPath ''.zip'')
           in io_bind (extract_zip_safe env finalPath extractDir) (\<lambda>_.
              io_bind (io_ignore (fs_remove finalPath)) (\<lambda>_. io_return extractDir)))
        else io_return finalPath) (\<lambda>output.
      io_bind (cleanup_receiver_chunks dir) (\<lambda>_. io_return output))))))"

definition finalize_io :: "receiver_env \<Rightarrow> string \<Rightarrow> (manifest \<times> string \<times> string) io" where
  "finalize_io env dir =
     io_bind (load_file (rv_unmarshal env) (join_path [dir, ''manifest.json''])) (\<lambda>mf.
     io_bind (io_lift (validate_manifest_complete mf)) (\<lambda>_.
     let finalPath = receiver_final_path dir mf in
     io_bind (io_lift (validate_receiver_path (rv_cwd env) dir finalPath)) (\<lambda>_.
     io_bind (check_existing_final finalPath (mf_total_bytes mf)) (\<lambda>there.
     if there then io_return (mf, finalPath, ''already finalized'')
     else io_bind (merge_and_publish env dir mf finalPath) (\<lambda>output.
          io_return (mf, output, ''merged and cleaned''))))))"

definition finalize_receiver_session :: "receiver_env \<Rightarrow> string \<Rightarrow> receiver \<Rightarrow> receiver" where
  "finalize_receiver_session env dir r =
     (case map_of (rc_sessions r) dir of
        None \<Rightarrow> r
      | Some st \<Rightarrow>
          if rs_merge_status (rss_session st) = ''running'' \<or> rs_merge_status (rss_session st) = ''done'' then r
          else
            (let r = update_receiver_session dir (\<lambda>s. s\<lparr>rs_merge_status := ''running'', rs_merge_message := '''',
                   rs_cleanup_status := ''pending''\<rparr>) r
             in case on_world (finalize_io env dir) r of
                  (Inl e, r) \<Rightarrow> fail_receiver_finalize dir e r
                | (Inr (mf, output, msg), r) \<Rightarrow> mark_receiver_done dir mf output msg r))"

definition timer_fires :: "receiver_env \<Rightarrow> string \<Rightarrow> receiver \<Rightarrow> receiver" where
  "timer_fires env dir r =
     (case map_of (rc_sessions r) dir of
        None \<Rightarrow> r
      | Some st \<Rightarrow>
          if rss_timer st then
            finalize_receiver_session env dir
              (r\<lparr>rc_sessions := AList.update dir (st\<lparr>rss_timer := False\<rparr>) (rc_sessions r)\<rparr>)
          else r)"

section \<open>Extraction\<close>

lemma join_resolved:
  assumes "resolved dest"
  shows "resolved (abs_path cwd (join_path [dest, x]))"
proof -
  obtain v cs where d: "drive v" "list_all plain cs" "dest = abs_of v cs"
    using assms unfolding resolved_def by blast
  show ?thesis
  proof (cases "x = ''''")
    case True
    then have "join_path [dest, x] = dest" using d by (simp add: join_path_def abs_of_def [of v cs, symmetric])
    then show ?thesis using assms d by simp
  next
    case False
    then have "join_path [dest, x] = clean (dest @ bs # x)" using d by (simp add: join_path_def abs_of_def)
    moreover have "is_abs (dest @ bs # x)" using d
      by (auto simp: is_abs_def volume_append rooted_def after_volume_append is_sep_def drive_def [of v])
    then have "resolved (clean (dest @ bs # x))"
      using resolved_abs_path [of "dest @ bs # x" cwd] by (simp add: abs_path_def)
    ultimately have "resolved (join_path [dest, x])" by simp
    then show ?thesis by (auto simp: resolved_def [of "join_path [dest, x]"]) (auto simp: resolved_def)
  qed
qed

text \<open>A change that only adds nodes, and only at the paths of a set.\<close>

definition adds_in :: "string set \<Rightarrow> 'a io \<Rightarrow> bool" where
  "adds_in ps f \<longleftrightarrow> (\<forall>w p. p \<notin> ps \<or> node_at w p \<noteq> None \<longrightarrow> node_at (snd (f w)) p = node_at w p)"

lemma adds_in_bind: "adds_in ps f \<Longrightarrow> (\<And>x. adds_in ps (g x)) \<Longrightarrow> adds_in ps (io_bind f g)"
  unfolding adds_in_def io_bind_def by (auto split: prod.splits sum.splits) (metis snd_conv)+

lemma adds_in_touches: "touches {} f \<Longrightarrow> adds_in ps f"
  by (auto simp: adds_in_def touches_def)

lemma adds_in_mkdir: "p \<in> ps \<Longrightarrow> adds_in ps (fs_mkdir_all p)"
  by (auto simp: adds_in_def fs_mkdir_all_def split: option.splits node.splits)

text \<open>Create exclusively, write, close: one addition.\<close>

lemma adds_in_write:
  assumes "p \<in> ps" and rest: "adds_in ps rest"
  shows "adds_in ps (io_bind (fs_create_excl p) (\<lambda>_.
        io_bind (io_try (io_bind (fs_append p b) (\<lambda>_. if whole then io_return () else io_fail e))) (\<lambda>copyErr.
        io_bind (io_try fs_step) (\<lambda>closeErr.
        io_bind (io_lift (case copyErr of Inl e \<Rightarrow> Inl e | Inr _ \<Rightarrow> closeErr)) (\<lambda>_. rest)))))"
    (is "adds_in ps (io_bind _ (\<lambda>_. ?g))")
  unfolding adds_in_def
proof (intro allI impI)
  fix w q assume q: "q \<notin> ps \<or> node_at w q \<noteq> None"
  obtain r w1 where c: "fs_create_excl p w = (r, w1)" by force
  show "node_at (snd (io_bind (fs_create_excl p) (\<lambda>_. ?g) w)) q = node_at w q"
  proof (cases r)
    case (Inl e)
    then show ?thesis using c by (auto simp: io_bind_def fs_create_excl_def split: if_splits)
  next
    case (Inr u)
    then have "node_at w p = None" "\<forall>q. q \<noteq> p \<longrightarrow> node_at w1 q = node_at w q"
      using c by (auto simp: fs_create_excl_def split: if_splits)
    then have "q \<noteq> p" using q assms(1) by auto
    then have 1: "q \<noteq> p" "node_at w1 q = node_at w q" using Inr c
      by (auto simp: fs_create_excl_def split: if_splits)
    let ?A = "io_try (io_bind (fs_append p b) (\<lambda>_. if whole then io_return () else io_fail e))"
    have A: "touches {p} ?A" by (intro touches_intros touches_calls) (auto intro: touches_mono [of "{}"])
    obtain ra w2 where 2: "?A w1 = (Inr ra, w2)" by (metis io_try_iff(2) obj_sumE prod.exhaust)
    obtain rc w3 where 3: "io_try fs_step w2 = (Inr rc, w3)" by (metis io_try_iff(2) obj_sumE prod.exhaust)
    have w3: "node_at w3 q = node_at w q"
      using touchesD [OF A 2] touchesD [OF touches_try [OF touches_calls(5)] 3] 1 by simp
    have e: "io_bind (fs_create_excl p) (\<lambda>_. ?g) w
        = io_bind (io_lift (case ra of Inl e \<Rightarrow> Inl e | Inr _ \<Rightarrow> rc)) (\<lambda>_. rest) w3"
      by (simp add: io_bind_def [of "fs_create_excl p"] c Inr io_bind_def [of ?A] 2 io_bind_def [of "io_try fs_step"] 3)
    show ?thesis unfolding e
      using w3 q rest by (auto simp: io_bind_def io_lift_def adds_in_def split: sum.splits)
  qed
qed

lemma dir_lower:
  assumes "resolved p" "resolved q" "to_lower p = to_lower q"
  shows "to_lower (dir_name p) = to_lower (dir_name q)"
proof -
  obtain v1 v2 c1 c2 where e: "drive v1" "drive v2" "list_all plain c1" "list_all plain c2"
    "p = abs_of v1 c1" "q = abs_of v2 c2"
    using assms(1,2) unfolding resolved_def by blast
  have l: "list_all (\<lambda>c. bs \<notin> set c) (map to_lower cs)" "list_all (\<lambda>c. c \<noteq> []) (map to_lower cs)"
    if "list_all plain cs" for cs
    using that by (auto simp: list_all_iff plain_not_bs plain_def)
  have "to_lower v1 = to_lower v2 \<and> join_with bs (map to_lower c1) = join_with bs (map to_lower c2)"
    using assms(3) e(1,2) unfolding e(5,6) by (auto simp: abs_of_def to_lower_join drive_def)
  then have "to_lower v1 = to_lower v2" "map to_lower c1 = map to_lower c2"
    using join_with_inject [OF l(1) [OF e(3)] l(1) [OF e(4)] l(2) [OF e(3)] l(2) [OF e(4)]] by auto
  moreover have "dir_name p = abs_of v1 (butlast c1)" "dir_name q = abs_of v2 (butlast c2)" using e by simp_all
  ultimately show ?thesis by (simp add: abs_of_def to_lower_join map_butlast)
qed

text \<open>Where an extraction may add: at and below the destination, and the directory that holds it.\<close>

definition extract_area :: "string \<Rightarrow> string \<Rightarrow> string set" where
  "extract_area cwd dest = {p. is_under cwd p dest \<or> to_lower p = to_lower (dir_name dest)}"

lemma extract_entries_adds:
  assumes "resolved dest"
  shows "adds_in (extract_area cwd dest) (extract_entries cwd dest fs)"
proof (induction fs)
  case Nil
  show ?case by (simp add: adds_in_touches)
next
  case (Cons f fs)
  let ?t = "abs_path cwd (join_path [dest, ze_name f])" and ?S = "extract_area cwd dest"
  have t: "resolved ?t" using assms by (rule join_resolved)
  show ?case
  proof (cases "is_under cwd ?t dest")
    case False
    then show ?thesis by (simp add: adds_in_touches)
  next
    case True
    then have S: "?t \<in> ?S" "dir_name ?t \<in> ?S"
      using dir_lower [OF t assms] under_dir [OF t assms True] by (auto simp: extract_area_def)
    note w = adds_in_write [OF S(1) Cons, of _ _ "''unexpected EOF''"]
    have "adds_in ?S (case x of (b, whole) \<Rightarrow>
        io_bind (fs_create_excl ?t) (\<lambda>_.
        io_bind (io_try (io_bind (fs_append ?t b) (\<lambda>_.
          if whole then io_return () else io_fail ''unexpected EOF''))) (\<lambda>copyErr.
        io_bind (io_try fs_step) (\<lambda>closeErr.
        io_bind (io_lift (case copyErr of Inl e \<Rightarrow> Inl e | Inr _ \<Rightarrow> closeErr)) (\<lambda>_.
        extract_entries cwd dest fs)))))" for x
      using w by (cases x) simp
    then have "adds_in ?S (io_bind (fs_mkdir_all (dir_name ?t)) (\<lambda>_.
        io_bind (io_lift (ze_data f)) (\<lambda>x. case x of (b, whole) \<Rightarrow>
        io_bind (fs_create_excl ?t) (\<lambda>_.
        io_bind (io_try (io_bind (fs_append ?t b) (\<lambda>_.
          if whole then io_return () else io_fail ''unexpected EOF''))) (\<lambda>copyErr.
        io_bind (io_try fs_step) (\<lambda>closeErr.
        io_bind (io_lift (case copyErr of Inl e \<Rightarrow> Inl e | Inr _ \<Rightarrow> closeErr)) (\<lambda>_.
        extract_entries cwd dest fs)))))))"
      using S by (intro adds_in_bind adds_in_mkdir) (auto intro: adds_in_touches)
    moreover have "adds_in ?S (io_bind (fs_mkdir_all ?t) (\<lambda>_. extract_entries cwd dest fs))"
      using S Cons by (intro adds_in_bind adds_in_mkdir) auto
    ultimately show ?thesis using True by (simp add: Let_def)
  qed
qed

text \<open>
  C34: unpacking a received archive cannot escape or overwrite. Whatever the names of the entries and
  whatever call fails, extraction changes no path outside the destination directory (the directory that
  holds it apart), and inside it every file or directory that was there is unchanged: it only adds.
\<close>

theorem zip_extraction_contained:
  assumes "extract_zip_safe env zipPath destDir w = (r, w')" and "is_abs destDir"
    and "\<not> is_under (rv_cwd env) p (abs_path (rv_cwd env) destDir)
      \<and> to_lower p \<noteq> to_lower (dir_name (abs_path (rv_cwd env) destDir)) \<or> node_at w p \<noteq> None"
  shows "node_at w' p = node_at w p"
proof -
  let ?d = "abs_path (rv_cwd env) destDir" and ?S = "extract_area (rv_cwd env) (abs_path (rv_cwd env) destDir)"
  have e: "adds_in ?S (extract_entries (rv_cwd env) ?d fs)" for fs
    using resolved_abs_path [OF assms(2)] by (rule extract_entries_adds)
  have t: "touches {} (io_try (fs_stat ?d))" by (intro touches_try) simp
  have "adds_in ?S (extract_zip_safe env zipPath destDir)"
    unfolding extract_zip_safe_def Let_def using e t
    by (intro adds_in_bind) (auto split: sum.splits intro!: adds_in_bind intro: adds_in_touches)
  moreover have "w' = snd (extract_zip_safe env zipPath destDir w)" using assms(1) by simp
  ultimately show ?thesis using assms(3) unfolding adds_in_def extract_area_def by blast
qed

text \<open>
  Concrete parameters for the witnesses: no secret, a hash that pads to the right length, a codec for the
  manifests of one transfer, no links, and archives whose text is the name of their only entry.
\<close>

definition demo_root :: string where
  "demo_root = ''C:'' @ bs # ''r''"

definition demo_sha :: "bytes \<Rightarrow> bytes" where
  "demo_sha b = take 32 (b @ replicate 32 (CHR ''x''))"

definition demo_env :: "(manifest \<Rightarrow> bytes result) \<Rightarrow> (bytes \<Rightarrow> manifest result) \<Rightarrow> receiver_env" where
  "demo_env enc dec = \<lparr>rv_cwd = demo_root, rv_receive_path = demo_root, rv_secret = '''', rv_hmac = (\<lambda>k m. m),
     rv_sha = demo_sha, rv_marshal = enc, rv_unmarshal = dec, rv_links = Inr,
     rv_unzip = (\<lambda>b. Inr [\<lparr>ze_name = b, ze_dir = False, ze_data = Inr (''evil'', True)\<rparr>])\<rparr>"

theorem zip_extraction_contained_witness:
  "node_at (snd (extract_zip_safe (demo_env (\<lambda>m. Inl '''') (\<lambda>b. Inl '''')) demo_path demo_root
     (demo_world (\<lambda>n. False) [(demo_path, File ''../s''), (''C:'' @ bs # ''s'', File ''kept'')]))) (''C:'' @ bs # ''s'')
   = Some (File ''kept'')"
proof -
  let ?w = "demo_world (\<lambda>n. False) [(demo_path, File ''../s''), (''C:'' @ bs # ''s'', File ''kept'')]"
  have "is_abs demo_root" "node_at ?w (''C:'' @ bs # ''s'') = Some (File ''kept'')" by code_simp+
  then show ?thesis
    using zip_extraction_contained [where env = "demo_env (\<lambda>m. Inl '''') (\<lambda>b. Inl '''')" and zipPath = demo_path
        and destDir = demo_root and w = ?w and p = "''C:'' @ bs # ''s''", OF prod.collapse [symmetric]] by simp
qed

end
