(* ===== verification/ReceiverSession.thy ===== *)
theory ReceiverSession
  imports Receiver
begin

text \<open>
  One transfer seen from the receiver: a session directory into which the chunks of one source arrive,
  in any order, repeated, cut short, and with every file operation free to fail, while the timer may
  fire at any moment. The invariant \<open>session_inv\<close> says that every chunk file holds its slice of the source,
  that the manifest records only chunks of the plan, and that a file of full length at the final path is
  the source; the properties at the end say what a status or an acknowledgement then means.
\<close>

section \<open>Data\<close>

record transfer =
  tr_id :: string
  tr_name :: string
  tr_source :: bytes
  tr_plan :: "geom list"

definition tr_dir :: "receiver_env \<Rightarrow> transfer \<Rightarrow> string" where
  "tr_dir env T = join_path [abs_path (rv_cwd env) (rv_receive_path env), tr_name T @ CHR ''_'' # safe_transfer_id (tr_id T)]"

abbreviation manifest_path :: "string \<Rightarrow> string" where
  "manifest_path dir \<equiv> join_path [dir, ''manifest.json'']"

definition no_meta :: "string \<Rightarrow> bool" where
  "no_meta s \<longleftrightarrow> CHR ''*'' \<notin> set s \<and> CHR ''?'' \<notin> set s \<and> CHR ''['' \<notin> set s"

text \<open>A name that collides with nothing else in the session directory.\<close>

definition good_name :: "string \<Rightarrow> bool" where
  "good_name n \<longleftrightarrow> plain n \<and> \<not> suffix ''.tmp'' n \<and> n \<noteq> ''manifest.json'' \<and> \<not> sublist ''.chunk'' n"

definition transfer_ok :: "receiver_env \<Rightarrow> transfer \<Rightarrow> bool" where
  "transfer_ok env T \<longleftrightarrow> tiling 0 0 (int (length (tr_source T))) (tr_plan T) \<and> tr_source T \<noteq> ''''
     \<and> good_name (tr_name T) \<and> is_abs (rv_receive_path env) \<and> no_meta (tr_dir env T)
     \<and> (\<forall>m b. rv_marshal env m = Inr b \<longrightarrow> rv_unmarshal env b = Inr m)"

definition header_geom :: "header \<Rightarrow> geom" where
  "header_geom h = (h_chunk_index h, h_offset h, h_part_size h)"

text \<open>A header and a payload of the transfer: the payload is the slice, or what of it arrives.\<close>

definition of_transfer :: "transfer \<Rightarrow> header \<Rightarrow> conn \<Rightarrow> bool" where
  "of_transfer T h c \<longleftrightarrow> h_transfer_id h = tr_id T \<and> base_name (h_file_name h) = tr_name T
     \<and> h_total_bytes h = int (length (tr_source T)) \<and> header_geom h \<in> set (tr_plan T)
     \<and> \<not> h_lab h \<and> \<not> is_pull_header h \<and> prefix (cn_payload c) (file_slice (tr_source T) (header_geom h))"

abbreviation chunk_path :: "receiver_env \<Rightarrow> transfer \<Rightarrow> geom \<Rightarrow> string" where
  "chunk_path env T g \<equiv> chunk_file (tr_dir env T) (tr_name T) (fst g)"

abbreviation final_path :: "receiver_env \<Rightarrow> transfer \<Rightarrow> string" where
  "final_path env T \<equiv> join_path [tr_dir env T, tr_name T]"

text \<open>The manifest of the session.\<close>

definition mf_ok :: "receiver_env \<Rightarrow> transfer \<Rightarrow> manifest \<Rightarrow> bool" where
  "mf_ok env T m \<longleftrightarrow> mf_transfer_id m = tr_id T \<and> mf_file_name m = tr_name T
     \<and> mf_total_bytes m = int (length (tr_source T))
     \<and> mf_target m = \<lparr>tgt_type = ''p2p'', tgt_address = '''', tgt_path = tr_dir env T\<rparr>
     \<and> distinct (map cs_index (mf_chunks m))
     \<and> cs_geom ` set (mf_chunks m) \<subseteq> set (tr_plan T)
     \<and> list_all (\<lambda>c. cs_status c = StatusDone) (mf_chunks m)"

text \<open>The chunks that the manifest on disk records: those of the decoded file.\<close>

definition recorded :: "receiver_env \<Rightarrow> transfer \<Rightarrow> world \<Rightarrow> geom set" where
  "recorded env T w =
     (case node_at w (manifest_path (tr_dir env T)) of
        Some (File b) \<Rightarrow> (case rv_unmarshal env b of Inr m \<Rightarrow> cs_geom ` set (mf_chunks m) | Inl _ \<Rightarrow> {})
      | _ \<Rightarrow> {})"

definition manifest_inv :: "receiver_env \<Rightarrow> transfer \<Rightarrow> world \<Rightarrow> bool" where
  "manifest_inv env T w \<longleftrightarrow>
     node_at w (manifest_path (tr_dir env T)) = None \<or>
     (\<exists>b m. node_at w (manifest_path (tr_dir env T)) = Some (File b) \<and> rv_unmarshal env b = Inr m \<and> mf_ok env T m)"

definition chunks_inv :: "receiver_env \<Rightarrow> transfer \<Rightarrow> world \<Rightarrow> bool" where
  "chunks_inv env T w \<longleftrightarrow> (\<forall>g\<in>set (tr_plan T). node_at w (chunk_path env T g) = None
     \<or> node_at w (chunk_path env T g) = Some (File (file_slice (tr_source T) g)))"

definition final_inv :: "receiver_env \<Rightarrow> transfer \<Rightarrow> world \<Rightarrow> bool" where
  "final_inv env T w \<longleftrightarrow> (\<forall>b. node_at w (final_path env T) = Some (File b) \<longrightarrow> length b = length (tr_source T) \<longrightarrow>
     b = tr_source T \<and> recorded env T w = set (tr_plan T))"

definition session_inv :: "receiver_env \<Rightarrow> transfer \<Rightarrow> world \<Rightarrow> bool" where
  "session_inv env T w \<longleftrightarrow> manifest_inv env T w \<and> chunks_inv env T w \<and> final_inv env T w"

text \<open>The chunks that are safe: recorded, and their file in place.\<close>

definition held :: "receiver_env \<Rightarrow> transfer \<Rightarrow> world \<Rightarrow> geom set" where
  "held env T w = {g \<in> recorded env T w. node_at w (chunk_path env T g) = Some (File (file_slice (tr_source T) g))}"

section \<open>The paths of a session\<close>

lemma plain_append: "plain n \<Longrightarrow> list_all (\<lambda>c. \<not> is_sep c) s \<Longrightarrow> s = '''' \<or> last s \<noteq> CHR ''.'' \<Longrightarrow> plain (n @ s)"
  by (cases s rule: rev_cases) (auto simp: plain_def)

definition chunk_name :: "transfer \<Rightarrow> geom \<Rightarrow> string" where
  "chunk_name T g = tr_name T @ ''.chunk'' @ itoa06 (fst g + 1)"

lemma digit_not_sep: "is_digit c \<or> c = CHR ''-'' \<Longrightarrow> \<not> is_sep c \<and> c \<noteq> CHR ''.''"
  by (auto simp: is_digit_def is_sep_def bs_def)

lemma itoa06_nonempty [simp]: "itoa06 v \<noteq> ''''"
  by (simp add: itoa06_def Let_def)

lemma plain_chunk_name: "plain (tr_name T) \<Longrightarrow> plain (chunk_name T g)"
proof -
  assume n: "plain (tr_name T)"
  have "\<not> is_sep c \<and> c \<noteq> CHR ''.''" if "c \<in> set (itoa06 (fst g + 1))" for c
    using itoa06_chars [OF that] digit_not_sep by blast
  moreover have "last (itoa06 (fst g + 1)) \<in> set (itoa06 (fst g + 1))" by simp
  ultimately have "list_all (\<lambda>c. \<not> is_sep c) (''.chunk'' @ itoa06 (fst g + 1))" "last (itoa06 (fst g + 1)) \<noteq> CHR ''.''"
    by (auto simp: list_all_iff is_sep_def bs_def)
  then show ?thesis using plain_append [OF n, of "''.chunk'' @ itoa06 (fst g + 1)"] by (simp add: chunk_name_def)
qed

lemma plain_names [simp]: "plain ''manifest.json''" "plain ''manifest.json.tmp''" "plain ''*.chunk*''"
  by code_simp+

lemma plain_temp: "plain (''.incoming-'' @ itoa (int n) @ ''.tmp'')"
proof -
  have "list_all (\<lambda>c. \<not> is_sep c) (itoa (int n))"
    using itoa_chars [of _ "int n"] digit_not_sep by (auto simp: list_all_iff)
  moreover have "list_all (\<lambda>c. \<not> is_sep c) ''.tmp''" "plain ''.incoming-''" by code_simp+
  ultimately show ?thesis
    using plain_append [of "''.incoming-''" "itoa (int n) @ ''.tmp''"] by simp
qed

lemma safe_id_chars: "list_all (\<lambda>c. \<not> is_sep c) (safe_transfer_id t) \<and> safe_transfer_id t \<noteq> '''' \<and> last (safe_transfer_id t) \<noteq> CHR ''.''"
proof -
  have "safe_transfer_id t = ''unknown'' \<or> (safe_transfer_id t \<noteq> '''' \<and> set (safe_transfer_id t) \<subseteq> {c. id_char c})"
    by (auto simp: safe_transfer_id_def Let_def)
  moreover have "\<not> is_sep c \<and> c \<noteq> CHR ''.''" if "id_char c" for c
    using that by (auto simp: id_char_def is_sep_def bs_def Let_def)
  moreover have "list_all (\<lambda>c. \<not> is_sep c) ''unknown'' \<and> last ''unknown'' \<noteq> CHR ''.''" by code_simp
  ultimately show ?thesis by (auto simp: list_all_iff) (metis last_in_set mem_Collect_eq subsetD)
qed

lemma tr_dir_form:
  assumes "transfer_ok env T"
  shows "\<exists>v ds. drive v \<and> list_all plain ds \<and> ds \<noteq> [] \<and> tr_dir env T = abs_of v ds"
proof -
  obtain v rs where r: "drive v" "list_all plain rs" "abs_path (rv_cwd env) (rv_receive_path env) = abs_of v rs"
    using assms abs_path_resolved unfolding transfer_ok_def by blast
  have "plain (tr_name T @ CHR ''_'' # safe_transfer_id (tr_id T))"
    using assms safe_id_chars [of "tr_id T"]
    by (intro plain_append) (auto simp: transfer_ok_def good_name_def is_sep_def bs_def)
  then show ?thesis using r by (intro exI [of _ v] exI [of _ "rs @ [tr_name T @ CHR ''_'' # safe_transfer_id (tr_id T)]"])
      (simp add: tr_dir_def)
qed

lemma in_dir:
  assumes "transfer_ok env T" "plain a"
  shows "plain b \<Longrightarrow> join_path [tr_dir env T, a] = join_path [tr_dir env T, b] \<longleftrightarrow> a = b"
    and "join_path [tr_dir env T, a] \<noteq> tr_dir env T"
    and "plain (a @ s) \<Longrightarrow> join_path [tr_dir env T, a] @ s = join_path [tr_dir env T, a @ s]"
    and "dir_name (join_path [tr_dir env T, a]) = tr_dir env T"
    and "join_path [tr_dir env T, a] = tr_dir env T @ bs # a"
proof -
  obtain v ds where d: "drive v" "list_all plain ds" "ds \<noteq> []" "tr_dir env T = abs_of v ds"
    using tr_dir_form [OF assms(1)] by blast
  have j: "join_path [tr_dir env T, x] = abs_of v (ds @ [x])" if "plain x" for x
    using d that by simp
  show "plain b \<Longrightarrow> join_path [tr_dir env T, a] = join_path [tr_dir env T, b] \<longleftrightarrow> a = b"
    using d assms(2) by (simp add: j abs_of_inject)
  show "join_path [tr_dir env T, a] \<noteq> tr_dir env T"
    using d(1,2) assms(2) abs_of_inject [of v v "ds @ [a]" ds] by (simp add: j d(4))
  show "plain (a @ s) \<Longrightarrow> join_path [tr_dir env T, a] @ s = join_path [tr_dir env T, a @ s]"
    using assms(2) d(3) by (simp add: j abs_of_def join_with_snoc)
  show "dir_name (join_path [tr_dir env T, a]) = tr_dir env T"
    using d(1,2) assms(2) by (simp add: j d(4))
  have "abs_of v (ds @ [a]) = abs_of v ds @ bs # a" using d(3) by (simp add: abs_of_def join_with_snoc)
  then show "join_path [tr_dir env T, a] = tr_dir env T @ bs # a" using j [OF assms(2)] d(4) by (metis (no_types))
qed

lemma temp_in_dir:
  assumes "transfer_ok env T"
  shows "temp_name (tr_dir env T) ''.incoming-'' ''.tmp'' n = join_path [tr_dir env T, ''.incoming-'' @ itoa (int n) @ ''.tmp'']"
proof -
  obtain v ds where d: "drive v" "list_all plain ds" "ds \<noteq> []" "tr_dir env T = abs_of v ds"
    using tr_dir_form [OF assms] by blast
  have "last (tr_dir env T) = last (join_with bs ds)" "join_with bs ds \<noteq> ''''" "\<not> is_sep (last (join_with bs ds))"
    using d(2,3,4) plain_last by (cases ds rule: rev_cases; auto simp: abs_of_def join_with_snoc)+
  then show ?thesis using in_dir(5) [OF assms plain_temp, of n] by (simp add: temp_name_def)
qed

lemma chunk_path_form: "chunk_path env T g = join_path [tr_dir env T, chunk_name T g]"
  by (simp add: chunk_file_def chunk_name_def)

lemma good_plain: "transfer_ok env T \<Longrightarrow> plain (tr_name T)"
  by (simp add: transfer_ok_def good_name_def)

lemma chunk_name_neq:
  "chunk_name T g \<noteq> tr_name T" "\<not> suffix ''.tmp'' (chunk_name T g)" "\<not> suffix ''.json'' (chunk_name T g)"
proof -
  show "chunk_name T g \<noteq> tr_name T" by (simp add: chunk_name_def)
  have "last (chunk_name T g) \<in> set (itoa06 (fst g + 1))" by (simp add: chunk_name_def)
  then have l: "is_digit (last (chunk_name T g)) \<or> last (chunk_name T g) = CHR ''-''" by (rule itoa06_chars)
  have "\<not> suffix (s @ [c]) (chunk_name T g)" if "\<not> is_digit c" "c \<noteq> CHR ''-''" for s c
    using l that by (auto simp: suffix_def)
  from this [of "CHR ''p''" "''.tm''"] this [of "CHR ''n''" "''.jso''"]
  show "\<not> suffix ''.tmp'' (chunk_name T g)" "\<not> suffix ''.json'' (chunk_name T g)"
    by (simp_all add: is_digit_def)
qed

text \<open>The paths that the invariant speaks of, and the ones that an operation may touch besides.\<close>

definition scratch_paths :: "receiver_env \<Rightarrow> transfer \<Rightarrow> string set" where
  "scratch_paths env T = {tr_dir env T, join_path [tr_dir env T, ''manifest.json.tmp''], final_path env T @ ''.tmp''}
     \<union> range (temp_name (tr_dir env T) ''.incoming-'' ''.tmp'')"

lemma plain_tmp: "plain n \<Longrightarrow> plain (n @ ''.tmp'')"
  using plain_append [of n "''.tmp''"] by (simp add: is_sep_def bs_def)

lemma scratch_apart:
  assumes "transfer_ok env T"
  shows "manifest_path (tr_dir env T) \<notin> scratch_paths env T" "chunk_path env T g \<notin> scratch_paths env T"
    "final_path env T \<notin> scratch_paths env T"
proof -
  note n = good_plain [OF assms]
  have f: "final_path env T @ ''.tmp'' = join_path [tr_dir env T, tr_name T @ ''.tmp'']"
    using in_dir(3) [OF assms n plain_tmp [OF n]] .
  have *: "join_path [tr_dir env T, a] \<notin> scratch_paths env T"
    if a: "plain a" "a \<noteq> ''manifest.json.tmp''" "\<not> suffix ''.tmp'' a" for a
  proof -
    have "a \<noteq> tr_name T @ ''.tmp''" "a \<noteq> ''.incoming-'' @ itoa (int k) @ ''.tmp''" for k
      using a(3) by (auto simp: suffix_def)
    then show ?thesis
      using a in_dir(1) [OF assms a(1)] in_dir(2) [OF assms a(1)] plain_tmp [OF n] plain_temp
      by (auto simp: scratch_paths_def f temp_in_dir [OF assms])
  qed
  show "manifest_path (tr_dir env T) \<notin> scratch_paths env T"
    by (rule *) (simp_all add: suffix_def)
  show "chunk_path env T g \<notin> scratch_paths env T"
  proof -
    have "suffix ''.tmp'' ''manifest.json.tmp''" by (simp add: suffix_def)
    then have "chunk_name T g \<noteq> ''manifest.json.tmp''" using chunk_name_neq(2) by metis
    then show ?thesis unfolding chunk_path_form by (intro * plain_chunk_name [OF n] chunk_name_neq)
  qed
  show "final_path env T \<notin> scratch_paths env T"
    using assms n by (intro *) (auto simp: transfer_ok_def good_name_def suffix_def)
qed

lemma main_apart:
  assumes "transfer_ok env T"
  shows "manifest_path (tr_dir env T) \<noteq> chunk_path env T g" "manifest_path (tr_dir env T) \<noteq> final_path env T"
    "chunk_path env T g \<noteq> final_path env T"
proof -
  note n = good_plain [OF assms]
  have "chunk_name T g \<noteq> ''manifest.json''" using chunk_name_neq(3) by (metis suffix_def append_Cons append_Nil)
  then show "manifest_path (tr_dir env T) \<noteq> chunk_path env T g"
    unfolding chunk_path_form using in_dir(1) [OF assms plain_names(1) plain_chunk_name [OF n]] by metis
  show "manifest_path (tr_dir env T) \<noteq> final_path env T"
    using in_dir(1) [OF assms plain_names(1) n] assms by (auto simp: transfer_ok_def good_name_def)
  show "chunk_path env T g \<noteq> final_path env T"
    unfolding chunk_path_form using in_dir(1) [OF assms plain_chunk_name [OF n] n] chunk_name_neq by blast
qed

lemma plan_indices:
  assumes "transfer_ok env T" "g \<in> set (tr_plan T)"
  shows "0 \<le> fst g"
proof -
  have "map fst (tr_plan T) = map (\<lambda>k. 0 + int k) [0..<length (tr_plan T)]"
    using assms(1) tiling_indices unfolding transfer_ok_def by blast
  then have "fst g \<in> (\<lambda>k. 0 + int k) ` set [0..<length (tr_plan T)]" using assms(2) by (metis image_eqI list.set_map)
  then show ?thesis by auto
qed

lemma chunk_path_inject:
  assumes "transfer_ok env T" "g \<in> set (tr_plan T)" "g' \<in> set (tr_plan T)"
  shows "chunk_path env T g = chunk_path env T g' \<longleftrightarrow> g = g'"
proof
  note n = good_plain [OF assms(1)]
  assume "chunk_path env T g = chunk_path env T g'"
  then have "chunk_name T g = chunk_name T g'"
    unfolding chunk_path_form using in_dir(1) [OF assms(1) plain_chunk_name [OF n] plain_chunk_name [OF n]] by blast
  then have "fst g = fst g'" using plan_indices [OF assms(1)] assms(2,3)
    by (simp add: chunk_name_def itoa06_inject)
  moreover have "inj_on fst (set (tr_plan T))"
    using assms(1) tiling_distinct unfolding transfer_ok_def by (blast intro: distinct_map [THEN iffD1, THEN conjunct2])
  ultimately show "g = g'" using assms(2,3) by (auto dest: inj_onD)
qed simp

section \<open>Recording a chunk\<close>

definition same_but :: "string set \<Rightarrow> world \<Rightarrow> world \<Rightarrow> bool" where
  "same_but ps w w' \<longleftrightarrow> (\<forall>p. p \<notin> ps \<longrightarrow> node_at w' p = node_at w p)"

lemma same_but_touches: "touches ps f \<Longrightarrow> f w = (r, w') \<Longrightarrow> same_but ps w w'"
  unfolding same_but_def using touchesD by blast

lemma same_but_trans:
  assumes "same_but ps w w'" "same_but qs w' w''" "ps \<union> qs \<subseteq> rs"
  shows "same_but rs w w''"
proof -
  have "p \<notin> ps \<and> p \<notin> qs" if "p \<notin> rs" for p using assms(3) that by blast
  then show ?thesis using assms(1,2) by (simp add: same_but_def)
qed

lemma same_but_mono: "same_but ps w w' \<Longrightarrow> ps \<subseteq> qs \<Longrightarrow> same_but qs w w'"
  by (auto simp: same_but_def)

text \<open>Nothing that the invariant speaks of changes.\<close>

lemma inv_frame:
  assumes "transfer_ok env T" "same_but (scratch_paths env T) w w'"
  shows "session_inv env T w' = session_inv env T w" "held env T w' = held env T w"
    "recorded env T w' = recorded env T w" "node_at w' (final_path env T) = node_at w (final_path env T)"
proof -
  have e: "node_at w' (manifest_path (tr_dir env T)) = node_at w (manifest_path (tr_dir env T))"
    "node_at w' (chunk_path env T g) = node_at w (chunk_path env T g)"
    "node_at w' (final_path env T) = node_at w (final_path env T)" for g
    using assms(2) scratch_apart [OF assms(1)] by (auto simp: same_but_def)
  then have r: "recorded env T w' = recorded env T w" by (simp add: recorded_def)
  show "session_inv env T w' = session_inv env T w" "held env T w' = held env T w" "recorded env T w' = recorded env T w"
    "node_at w' (final_path env T) = node_at w (final_path env T)"
    using r e by (simp_all add: session_inv_def manifest_inv_def chunks_inv_def final_inv_def held_def)
qed

lemma normalize_done: "list_all (\<lambda>c. cs_status c = StatusDone) (mf_chunks m) \<Longrightarrow> normalize_for_resume k m = m"
  unfolding normalize_for_resume_def map_chunks_def
  by (subst map_idI) (auto simp: resume_load_chunk_def list_all_iff)

lemma load_file_Inr:
  "load_file un p w = (Inr m, w') \<Longrightarrow> \<exists>b m0. node_at w p = Some (File b) \<and> un b = Inr m0 \<and>
     m = normalize_for_resume 3 m0 \<and> w' = tick w"
proof -
  assume "load_file un p w = (Inr m, w')"
  then obtain b w1 where b: "fs_read p w = (Inr b, w1)" "load_manifest (un b) = Inr m" "w' = w1"
    by (auto simp: load_file_def io_bind_Inr io_lift_def)
  then show ?thesis using fs_read_Inr [OF b(1)] by (cases "un b") (auto simp: load_manifest_def)
qed

lemma load_file_touches: "touches {} (load_file un p)"
  unfolding load_file_def by (intro touches_bind) auto


lemma manifest_inv_cases:
  assumes "manifest_inv env T w"
  obtains "node_at w (manifest_path (tr_dir env T)) = None" "recorded env T w = {}"
  | b m where "node_at w (manifest_path (tr_dir env T)) = Some (File b)" "rv_unmarshal env b = Inr m" "mf_ok env T m"
      "recorded env T w = cs_geom ` set (mf_chunks m)"
  using assms unfolding manifest_inv_def by (auto simp: recorded_def)

lemma open_manifest_ok:
  assumes "open_manifest env now (tr_dir env T) (tr_name T) h w = (Inr mf, w')" "manifest_inv env T w"
    and "of_transfer T h c"
  shows "mf_ok env T mf \<and> cs_geom ` set (mf_chunks mf) = recorded env T w"
proof -
  let ?M = "manifest_path (tr_dir env T)"
  obtain lr w1 where l: "load_file (rv_unmarshal env) ?M w = (lr, w1)"
    "(case lr of Inl e \<Rightarrow> if e \<noteq> ''not exist'' then io_fail (''load receiver manifest: '' @ e)
        else io_return (new_receiver_manifest now (tr_dir env T) (tr_name T) h)
      | Inr m \<Rightarrow> if mf_transfer_id m \<noteq> h_transfer_id h \<or> mf_file_name m \<noteq> tr_name T
           \<or> mf_total_bytes m \<noteq> h_total_bytes h \<or> mf_target m \<noteq> receiver_target_info (tr_dir env T) (tr_name T) h
           then io_fail ''receiver manifest identity mismatch'' else io_return m) w1 = (Inr mf, w')"
    using assms(1) by (auto simp: open_manifest_def io_bind_Inr io_try_iff)
  show ?thesis
  proof (cases lr)
    case (Inl e)
    then have e: "e = ''not exist''" "mf = new_receiver_manifest now (tr_dir env T) (tr_name T) h"
      using l(2) by (auto simp: io_fail_def io_return_def split: if_splits)
    show ?thesis using assms(2)
    proof (cases rule: manifest_inv_cases)
      case 1
      then show ?thesis using e assms(3)
        by (simp add: new_receiver_manifest_def mf_ok_def of_transfer_def receiver_target_info_def)
    next
      case (2 b m)
      then show ?thesis using l(1) Inl e(1)
        by (auto simp: load_file_def io_bind_def fs_read_def io_lift_def load_manifest_def split: if_splits)
    qed
  next
    case (Inr m)
    then obtain b m0 where b: "node_at w ?M = Some (File b)" "rv_unmarshal env b = Inr m0" "m = normalize_for_resume 3 m0"
      using load_file_Inr l(1) by blast
    have "m = mf" using l(2) Inr by (auto simp: io_fail_def io_return_def split: if_splits)
    moreover from assms(2) have "mf_ok env T m0 \<and> recorded env T w = cs_geom ` set (mf_chunks m0)"
      by (cases rule: manifest_inv_cases) (use b in auto)
    ultimately show ?thesis using normalize_done [of m0 3] b(3) by (simp add: mf_ok_def)
  qed
qed

lemma record_chunk_ok:
  assumes "record_chunk now h n mf = Inr mf'" "mf_ok env T mf" "header_geom h \<in> set (tr_plan T)"
  shows "mf_ok env T mf' \<and> cs_geom ` set (mf_chunks mf') = insert (header_geom h) (cs_geom ` set (mf_chunks mf))"
proof (cases "get_chunk mf (h_chunk_index h)")
  case None
  then have "\<forall>c\<in>set (mf_chunks mf). cs_index c \<noteq> h_chunk_index h" by (simp add: get_chunk_def find_None_all)
  moreover have "mf' = mf\<lparr>mf_chunks := mf_chunks mf @ [zero_chunk\<lparr>cs_index := h_chunk_index h,
      cs_offset := h_offset h, cs_size := h_part_size h, cs_status := StatusDone, cs_bytes_done := n\<rparr>]\<rparr>"
    using assms(1) None by (simp add: record_chunk_def)
  ultimately show ?thesis using assms(2,3) by (auto simp: mf_ok_def cs_geom_def header_geom_def zero_chunk_def)
next
  case (Some c)
  then have c: "c \<in> set (mf_chunks mf)" "cs_index c = h_chunk_index h" by (auto simp: get_chunk_def dest!: find_SomeD)
  then have g: "cs_geom c = header_geom h" "mf' = mark_done now (h_chunk_index h) n '''' mf"
    using assms(1) Some by (auto simp: record_chunk_def cs_geom_def header_geom_def split: if_splits)
  have m: "map cs_index (mf_chunks mf') = map cs_index (mf_chunks mf)" "map cs_geom (mf_chunks mf') = map cs_geom (mf_chunks mf)"
    unfolding g(2) mark_done_def upd_chunk_def by (simp_all add: map_upd_first done_chunk_def cs_geom_def)
  have "list_all (\<lambda>c. cs_status c = StatusDone) (mf_chunks mf')"
    using assms(2) unfolding g(2) mark_done_def upd_chunk_def mf_ok_def list_all_iff
    by (auto dest!: set_upd_first simp: done_chunk_def)
  moreover have "cs_geom ` set (mf_chunks mf') = cs_geom ` set (mf_chunks mf)" using m(2) by (metis list.set_map)
  moreover have "mf_transfer_id mf' = mf_transfer_id mf" "mf_file_name mf' = mf_file_name mf"
    "mf_total_bytes mf' = mf_total_bytes mf" "mf_target mf' = mf_target mf"
    unfolding g(2) mark_done_def upd_chunk_def by simp_all
  moreover have "header_geom h \<in> cs_geom ` set (mf_chunks mf)" using c(1) g(1) by (metis imageI)
  ultimately show ?thesis using assms(2) m(1) by (simp add: mf_ok_def insert_absorb)
qed

lemma save_manifest_cases:
  assumes "save_manifest enc now p m w = (r, w')" "dir_name p \<noteq> p"
  shows "same_but {p, p @ ''.tmp'', dir_name p} w w' \<and>
     (node_at w' p = node_at w p \<and> (\<exists>e. r = Inl e) \<or> (\<exists>b. enc (m\<lparr>mf_updated_at := now\<rparr>) = Inr b \<and> node_at w' p = Some (File b)))"
proof (cases "enc (m\<lparr>mf_updated_at := now\<rparr>)")
  case (Inl e)
  then have "io_bind (fs_mkdir_all (dir_name p)) (\<lambda>_. io_fail e) w = (r, w')"
    using assms(1) by (simp add: save_manifest_def save_atomic_def)
  then have "(\<exists>e. r = Inl e) \<and> same_but {dir_name p} w w'"
    using same_but_touches [OF touches_calls(8)] by (auto simp: io_bind_def io_fail_def split: prod.splits sum.splits)
  then show ?thesis using assms(2) by (auto simp: same_but_def)
next
  case (Inr b)
  have s: "save_atomic p (Some (Inr b)) w = (r, w')" using assms(1) Inr by (simp add: save_manifest_def)
  show ?thesis using save_atomic_spec [OF s assms(2)] Inr by (cases r) (auto simp: same_but_def)
qed

lemma mf_ok_time: "mf_ok env T (m\<lparr>mf_updated_at := now\<rparr>) = mf_ok env T m"
  by (simp add: mf_ok_def)

lemma open_manifest_touches: "touches {} (open_manifest env now dir name h)"
  unfolding open_manifest_def
  by (intro touches_bind touches_try load_file_touches) (auto split: sum.splits)

text \<open>Recording a chunk keeps the invariant, whatever fails, and loses no record.\<close>

lemma update_manifest_spec:
  assumes ok: "transfer_ok env T" and tr: "of_transfer T h c" and inv: "session_inv env T w"
    and upd: "update_manifest_io env now (tr_dir env T) (tr_name T) h n w = (r, w')"
  shows "session_inv env T w' \<and> same_but (insert (manifest_path (tr_dir env T)) (scratch_paths env T)) w w'
    \<and> recorded env T w \<subseteq> recorded env T w' \<and> (\<forall>m. r = Inr m \<longrightarrow> header_geom h \<in> recorded env T w')"
proof -
  let ?M = "manifest_path (tr_dir env T)" and ?S = "scratch_paths env T"
  have dir: "dir_name ?M = tr_dir env T" "?M \<noteq> tr_dir env T" using in_dir(2,4) [OF ok plain_names(1)] by auto
  have tmp: "?M @ ''.tmp'' = join_path [tr_dir env T, ''manifest.json.tmp'']"
    using in_dir(3) [OF ok plain_names(1), of "''.tmp''"] by simp
  have sub: "{?M, ?M @ ''.tmp'', dir_name ?M} \<subseteq> insert ?M ?S" by (auto simp: dir tmp scratch_paths_def)
  obtain r1 w1 where 1: "open_manifest env now (tr_dir env T) (tr_name T) h w = (r1, w1)" by force
  have s1: "same_but {} w w1" using same_but_touches [OF open_manifest_touches 1] .
  then have i1: "session_inv env T w1" "recorded env T w1 = recorded env T w"
    using inv_frame(1,3) [OF ok same_but_mono [OF s1]] inv by auto
  have early: ?thesis if "w' = w1" "\<exists>e. r = Inl e"
    using that i1 s1 by (auto intro: same_but_mono)
  show ?thesis
  proof (cases r1)
    case (Inl e)
    then have "w' = w1" "r = Inl e" using upd 1 by (simp_all add: update_manifest_io_def io_bind_def)
    then show ?thesis by (intro early) simp_all
  next
    case mf: (Inr mf)
    note o = open_manifest_ok [OF 1 [unfolded mf] _ tr]
    show ?thesis
    proof (cases "record_chunk now h n mf")
      case (Inl e)
      then have "w' = w1" "r = Inl e" using upd 1 mf by (simp_all add: update_manifest_io_def io_bind_def io_lift_def)
      then show ?thesis by (intro early) simp_all
    next
      case mf': (Inr mf')
      have inv': "manifest_inv env T w" "final_inv env T w" "chunks_inv env T w"
        using inv by (auto simp: session_inv_def)
      have m: "mf_ok env T mf'" "cs_geom ` set (mf_chunks mf') = insert (header_geom h) (recorded env T w)"
        using record_chunk_ok [OF mf'] o [OF inv'(1)] tr by (auto simp: of_transfer_def)
      obtain r2 w2 where 2: "save_manifest (rv_marshal env) now ?M mf' w1 = (r2, w2)" by force
      have w2: "w' = w2" "(\<exists>m. r = Inr m) \<longrightarrow> r2 = Inr ()"
        using upd 1 2 mf mf' by (auto simp: update_manifest_io_def io_bind_def io_lift_def io_return_def split: sum.splits)
      note c = save_manifest_cases [OF 2, unfolded dir, OF dir(2) [symmetric]]
      have s2: "same_but (insert ?M ?S) w w'"
        using same_but_trans [OF s1 conjunct1 [OF c]] sub dir w2 by auto
      have other: "node_at w' (chunk_path env T g) = node_at w (chunk_path env T g)"
        "node_at w' (final_path env T) = node_at w (final_path env T)" for g
        using s2 scratch_apart [OF ok] main_apart [OF ok] main_apart(1,2) [OF ok, symmetric]
        by (simp_all add: same_but_def)
      have M: "node_at w1 ?M = node_at w ?M" using s1 by (simp add: same_but_def)
      consider "node_at w' ?M = node_at w ?M" "\<exists>e. r2 = Inl e"
        | b where "rv_marshal env (mf'\<lparr>mf_updated_at := now\<rparr>) = Inr b" "node_at w' ?M = Some (File b)"
        using c w2 M by auto
      then show ?thesis
      proof cases
        case 1
        then have "recorded env T w' = recorded env T w" "manifest_inv env T w' = manifest_inv env T w"
          by (simp_all add: recorded_def manifest_inv_def)
        then show ?thesis using 1 inv' other s2 w2 by (auto simp: session_inv_def chunks_inv_def final_inv_def)
      next
        case (2 b)
        then have u: "rv_unmarshal env b = Inr (mf'\<lparr>mf_updated_at := now\<rparr>)"
          using ok by (auto simp: transfer_ok_def)
        then have rec: "recorded env T w' = insert (header_geom h) (recorded env T w)"
          using 2 m(2) by (simp add: recorded_def)
        have mi: "manifest_inv env T w'" using 2 u m(1) mf_ok_time unfolding manifest_inv_def by blast
        have "insert (header_geom h) (recorded env T w) \<subseteq> set (tr_plan T)" using m by (auto simp: mf_ok_def)
        then have "final_inv env T w'" using inv'(2) rec other(2) by (auto simp: final_inv_def)
        then show ?thesis using mi inv'(3) other(1) rec s2 by (auto simp: session_inv_def chunks_inv_def)
      qed
    qed
  qed
qed

section \<open>Receiving and publishing a chunk\<close>

lemma touches_none: "touches {} f \<Longrightarrow> touches ps f"
  by (rule touches_mono) auto

lemma store_chunk_touches: "touches {tmp} (store_chunk env data h tmp)"
proof -
  have n: "touches {tmp} fs_step" by (rule touches_none) simp
  have d: "touches {tmp} (discard_temp tmp)"
    unfolding discard_temp_def by (intro touches_bind touches_ignore n touches_calls(6))
  have "touches {tmp} (if b then io_fail e else io_return ())" for b e
    by (cases b) (auto intro: touches_none)
  then have c: "touches {tmp} (copy_to_temp data h tmp)"
    unfolding copy_to_temp_def by (intro touches_bind touches_calls(4))
  have f: "touches {tmp} (io_bind (io_ignore (discard_temp tmp)) (\<lambda>_. io_fail e))" for e
    by (intro touches_bind touches_ignore d) (rule touches_none, simp)
  have g: "touches {tmp} (io_bind (io_on_error fs_step (discard_temp tmp)) (\<lambda>_.
      io_bind (io_on_error fs_step (fs_remove tmp)) (\<lambda>_. io_return x)))" for x
    by (intro touches_bind touches_on_error d n touches_calls(6)) (rule touches_none, simp)
  show ?thesis unfolding store_chunk_def
    by (rule touches_bind [OF touches_on_error [OF c d]]) (simp add: f g)
qed

lemma io_on_error_Inr: "io_on_error f g w = (Inr x, w') \<longleftrightarrow> f w = (Inr x, w')"
  by (auto simp: io_on_error_def split: prod.splits sum.splits)

lemma fs_step_InrD: "fs_step w = (Inr u, w') \<Longrightarrow> w' = tick w"
  by (auto simp: fs_step_def split: if_splits)

text \<open>A chunk that is stored has its full length and the announced hash.\<close>

lemma store_chunk_Inr:
  assumes "store_chunk env data h tmp w = (Inr (p, n), w')" and "node_at w tmp = Some (File '''')"
  shows "p = tmp \<and> n = int (length data) \<and> h_part_size h \<le> n \<and> node_at w' tmp = Some (File data)
     \<and> (h_chunk_sha256 h \<noteq> '''' \<longrightarrow> equal_fold (hex_encode (rv_sha env data)) (h_chunk_sha256 h))"
proof -
  have "\<not> int (length data) < h_part_size h"
    "h_chunk_sha256 h \<noteq> '''' \<longrightarrow> equal_fold (hex_encode (rv_sha env data)) (h_chunk_sha256 h)"
    "\<exists>u w1. fs_append tmp data w = (Inr u, w1) \<and> node_at w' tmp = node_at w1 tmp \<and> p = tmp \<and> n = int (length data)"
    using assms(1)
    by (auto simp: store_chunk_def copy_to_temp_def io_bind_Inr io_on_error_Inr io_fail_def io_return_def dest!: fs_step_InrD
        split: if_splits)
  then show ?thesis using fs_append_Inr assms(2) by fastforce
qed

lemma receive_chunk_spec:
  assumes "receive_chunk_to_temp env payload dir h w = (r, w')"
  shows "same_but (range (temp_name dir ''.incoming-'' ''.tmp'')) w w' \<and>
    (\<forall>p n. r = Inr (p, n) \<longrightarrow> p \<in> range (temp_name dir ''.incoming-'' ''.tmp'')
       \<and> node_at w' p = Some (File (take (nat (h_part_size h)) payload))
       \<and> n = int (length (take (nat (h_part_size h)) payload)) \<and> h_part_size h \<le> n
       \<and> (h_chunk_sha256 h \<noteq> '''' \<longrightarrow>
            equal_fold (hex_encode (rv_sha env (take (nat (h_part_size h)) payload))) (h_chunk_sha256 h)))"
proof -
  let ?data = "take (nat (h_part_size h)) payload" and ?R = "range (temp_name dir ''.incoming-'' ''.tmp'')"
  obtain r1 w1 where 1: "fs_create_temp dir ''.incoming-'' ''.tmp'' w = (r1, w1)" by force
  show ?thesis
  proof (cases r1)
    case (Inl e)
    then show ?thesis using assms 1 fs_create_temp_Inl by (auto simp: receive_chunk_to_temp_def io_bind_def same_but_def)
  next
    case (Inr tmp)
    note t = fs_create_temp_Inr [OF 1 [unfolded Inr]]
    have 2: "store_chunk env ?data h tmp w1 = (r, w')" using assms 1 Inr by (simp add: receive_chunk_to_temp_def io_bind_def)
    have "same_but {tmp} w w1" using t by (simp add: same_but_def)
    have R: "tmp \<in> ?R" using t by blast
    have s: "same_but ?R w w'"
      using \<open>same_but {tmp} w w1\<close> same_but_touches [OF store_chunk_touches 2] by (rule same_but_trans) (use R in auto)
    have e: "node_at w1 tmp = Some (File '''')" using t by blast
    show ?thesis
    proof (intro conjI allI impI s)
      fix p n assume "r = Inr (p, n)"
      note z = store_chunk_Inr [OF 2 [unfolded this] e]
      show "p \<in> ?R" "node_at w' p = Some (File ?data)" "n = int (length ?data)" "h_part_size h \<le> n"
        using z R by simp_all
      show "h_chunk_sha256 h \<noteq> '''' \<Longrightarrow> equal_fold (hex_encode (rv_sha env ?data)) (h_chunk_sha256 h)"
        using z by blast
    qed
  qed
qed

lemma matches_touches: "touches {} (receiver_chunk_matches env p h)"
  unfolding receiver_chunk_matches_def
  by (intro touches_bind touches_try) (auto split: sum.splits intro!: touches_bind touches_try)

lemma matches_Inr:
  assumes "receiver_chunk_matches env p h w = (Inr True, w')"
  shows "\<exists>b. node_at w p = Some (File b) \<and> int (length b) = h_part_size h
     \<and> (h_chunk_sha256 h \<noteq> '''' \<longrightarrow> equal_fold (hex_encode (rv_sha env b)) (h_chunk_sha256 h))"
proof -
  obtain st w1 where 1: "fs_stat p w = (st, w1)" by force
  show ?thesis
  proof (cases "\<exists>sz. st = Inr (True, sz) \<and> sz = h_part_size h")
    case True
    then have s: "st = Inr (True, h_part_size h)" by blast
    then obtain b where b: "node_at w p = Some (File b)" "int (length b) = h_part_size h" "w1 = tick w"
      using 1 by (auto simp: fs_stat_def split: if_splits option.splits node.splits)
    show ?thesis
    proof (cases "h_chunk_sha256 h = ''''")
      case False
      obtain rb w2 where 2: "fs_read p w1 = (rb, w2)" by force
      have "\<exists>d. rb = Inr d \<and> equal_fold (hex_encode (rv_sha env d)) (h_chunk_sha256 h)"
        using assms 1 2 s False
        by (cases rb; cases "fs_step w2"; cases "fst (fs_step w2)")
          (auto simp: receiver_chunk_matches_def io_bind_def io_try_def io_return_def)
      then show ?thesis using 2 b by (auto dest!: fs_read_Inr)
    qed (use b in auto)
  next
    case False
    then show ?thesis using assms 1
      by (auto simp: receiver_chunk_matches_def io_bind_def io_try_def io_return_def split: sum.splits prod.splits)
  qed
qed

text \<open>What one connection for the chunk \<open>g\<close> does to the files of the session.\<close>

definition chunk_effect :: "receiver_env \<Rightarrow> transfer \<Rightarrow> geom \<Rightarrow> world \<Rightarrow> world \<Rightarrow> bool" where
  "chunk_effect env T g w w' \<longleftrightarrow> session_inv env T w' \<and> node_at w' (final_path env T) = node_at w (final_path env T)
     \<and> held env T w - {g} \<subseteq> held env T w'"

lemma chunk_effect_refl: "session_inv env T w \<Longrightarrow> chunk_effect env T g w w"
  by (auto simp: chunk_effect_def)

lemma chunk_effect_trans: "chunk_effect env T g w w' \<Longrightarrow> chunk_effect env T g w' w'' \<Longrightarrow> chunk_effect env T g w w''"
  by (auto simp: chunk_effect_def)

lemma chunk_effect_frame:
  assumes "transfer_ok env T" "session_inv env T w" "same_but (scratch_paths env T) w w'"
  shows "chunk_effect env T g w w' \<and> held env T w' = held env T w"
  using inv_frame [OF assms(1,3)] assms(2) by (auto simp: chunk_effect_def)

lemma slice_size:
  assumes "transfer_ok env T" "g \<in> set (tr_plan T)"
  shows "int (length (file_slice (tr_source T) g)) = snd (snd g)"
  using assms tiling_slices_length [of 0 0 "int (length (tr_source T))" "tr_plan T" "tr_source T"]
  by (auto simp: transfer_ok_def list_all_iff)

lemma whole_slice:
  assumes "transfer_ok env T" "of_transfer T h c"
    and "h_part_size h \<le> int (length (take (nat (h_part_size h)) (cn_payload c)))"
  shows "take (nat (h_part_size h)) (cn_payload c) = file_slice (tr_source T) (header_geom h)"
proof -
  let ?s = "file_slice (tr_source T) (header_geom h)"
  have l: "int (length ?s) = h_part_size h"
    using slice_size [OF assms(1)] assms(2) by (simp add: of_transfer_def header_geom_def)
  obtain z where z: "?s = cn_payload c @ z" using assms(2) by (auto simp: of_transfer_def prefix_def)
  have "nat (h_part_size h) = length ?s" using l by linarith
  moreover have "int (length z) \<le> 0"
  proof -
    have "int (length (cn_payload c)) + int (length z) = h_part_size h" using l z by simp
    moreover have "h_part_size h \<le> int (length (cn_payload c))" using assms(3) by simp
    ultimately show ?thesis by linarith
  qed
  ultimately show ?thesis using z by simp
qed

lemma update_effect:
  assumes ok: "transfer_ok env T" and tr: "of_transfer T h c" and inv: "session_inv env T w"
    and upd: "update_manifest_io env now (tr_dir env T) (tr_name T) h n w = (r, w')"
  shows "chunk_effect env T (header_geom h) w w' \<and>
     ((\<exists>m. r = Inr m) \<and> node_at w (chunk_path env T (header_geom h)) = Some (File (file_slice (tr_source T) (header_geom h)))
        \<longrightarrow> header_geom h \<in> held env T w')"
proof -
  note u = update_manifest_spec [OF assms]
  have "node_at w' (chunk_path env T g) = node_at w (chunk_path env T g)"
    "node_at w' (final_path env T) = node_at w (final_path env T)" for g
    using u scratch_apart [OF ok] main_apart(1,2) [OF ok, symmetric] by (simp_all add: same_but_def)
  then show ?thesis using u by (auto simp: chunk_effect_def held_def)
qed

lemma remove_if_exists_node:
  "fs_remove_if_exists p w = (r, w') \<Longrightarrow>
    node_at w' p = None \<or> (\<exists>e. r = Inl e) \<and> node_at w' p = node_at w p"
  by (auto simp: fs_remove_if_exists_def io_bind_def io_try_def fs_remove_def io_fail_def io_return_def Let_def
      split: if_splits option.splits node.splits)

lemma place_chunk_effect:
  assumes ok: "transfer_ok env T" and tr: "of_transfer T h c" and inv: "session_inv env T w"
    and tmp: "tmp \<in> scratch_paths env T" "node_at w tmp = Some (File (file_slice (tr_source T) (header_geom h)))"
    and put: "place_chunk env (chunk_path env T (header_geom h)) tmp h w = (r, w')"
  shows "chunk_effect env T (header_geom h) w w' \<and> ((\<exists>u. r = Inr u) \<longrightarrow>
     node_at w' (chunk_path env T (header_geom h)) = Some (File (file_slice (tr_source T) (header_geom h))))"
proof -
  let ?g = "header_geom h" and ?t = "chunk_path env T (header_geom h)" and ?S = "scratch_paths env T"
  let ?sl = "file_slice (tr_source T) (header_geom h)"
  have g: "?g \<in> set (tr_plan T)" using tr by (simp add: of_transfer_def)
  have t0: "node_at w ?t = None \<or> node_at w ?t = Some (File ?sl)" using inv g by (simp add: session_inv_def chunks_inv_def)
  obtain rm w1 where 1: "receiver_chunk_matches env ?t h w = (rm, w1)" by force
  have s1: "node_at w1 p = node_at w p" for p using touchesD [OF matches_touches 1] by simp
  have tt: "tmp \<noteq> ?t" using tmp(1) scratch_apart(2) [OF ok] by metis
  have main: "same_but (insert ?t ?S) w w' \<and> (node_at w' ?t = None \<or> node_at w' ?t = Some (File ?sl)) \<and>
      ((\<exists>u. r = Inr u) \<longrightarrow> node_at w' ?t = Some (File ?sl))"
  proof (cases "rm = Inr False")
    case False
    then have w: "w' = w1" "(\<exists>u. r = Inr u) \<longrightarrow> rm = Inr True"
      using put 1 by (auto simp: place_chunk_def io_bind_def io_return_def split: sum.splits)
    moreover have "node_at w ?t = Some (File ?sl)" if "rm = Inr True"
      using matches_Inr [of env ?t h w w1] 1 that t0 by auto
    ultimately show ?thesis using s1 t0 by (auto simp: same_but_def)
  next
    case True
    obtain rr w2 where 2: "fs_remove_if_exists ?t w1 = (rr, w2)" by force
    have s2: "same_but {?t} w1 w2" using same_but_touches [OF touches_more(3) 2] .
    show ?thesis
    proof (cases rr)
      case (Inl e)
      then have "w' = w2" "r = Inl e" using put 1 2 True by (simp_all add: place_chunk_def io_bind_def)
      then show ?thesis using s1 s2 t0 remove_if_exists_node [OF 2] by (auto simp: same_but_def)
    next
      case (Inr u)
      then have 3: "fs_rename tmp ?t w2 = (r, w')" using put 1 2 True by (simp add: place_chunk_def io_bind_def)
      have t2: "node_at w2 ?t = None" using remove_if_exists_node [OF 2] Inr by auto
      have p2: "node_at w2 tmp = Some (File ?sl)" using s2 s1 tmp(2) tt by (simp add: same_but_def)
      have s3: "same_but {tmp, ?t} w2 w'" using same_but_touches [OF touches_calls(7) 3] .
      show ?thesis
      proof (cases r)
        case (Inl e)
        then show ?thesis using fs_rename_Inl 3 t2 s1 s2 s3 tmp(1) by (auto simp: same_but_def)
      next
        case (Inr v)
        note z = fs_rename_Inr [OF 3 [unfolded Inr]]
        have "node_at w' p = node_at w p" if "p \<notin> insert ?t ?S" for p
        proof -
          have "p \<noteq> tmp" "p \<noteq> ?t" using that tmp(1) by blast+
          then show ?thesis using z s1 s2 by (simp add: same_but_def)
        qed
        then show ?thesis using z p2 by (simp add: same_but_def)
      qed
    qed
  qed
  have o: "node_at w' (manifest_path (tr_dir env T)) = node_at w (manifest_path (tr_dir env T))"
    "node_at w' (final_path env T) = node_at w (final_path env T)"
    using main scratch_apart [OF ok] main_apart [OF ok] main_apart(3) [OF ok, symmetric] by (simp_all add: same_but_def)
  have c: "node_at w' (chunk_path env T k) = node_at w (chunk_path env T k)" if "k \<in> set (tr_plan T)" "k \<noteq> ?g" for k
    using main scratch_apart(2) [OF ok] chunk_path_inject [OF ok that(1) g] that(2) by (simp add: same_but_def)
  have rec: "recorded env T w' = recorded env T w" using o by (simp add: recorded_def)
  have "manifest_inv env T w" using inv by (simp add: session_inv_def)
  then have sub: "recorded env T w \<subseteq> set (tr_plan T)"
    by (cases rule: manifest_inv_cases) (auto simp: mf_ok_def)
  have ci: "chunks_inv env T w'" unfolding chunks_inv_def
  proof
    fix k assume k: "k \<in> set (tr_plan T)"
    show "node_at w' (chunk_path env T k) = None \<or> node_at w' (chunk_path env T k) = Some (File (file_slice (tr_source T) k))"
      using main c [OF k] inv k by (cases "k = ?g") (auto simp: session_inv_def chunks_inv_def)
  qed
  have "session_inv env T w'"
    using inv o rec ci by (simp add: session_inv_def manifest_inv_def final_inv_def)
  moreover have "held env T w - {?g} \<subseteq> held env T w'"
    using sub rec c by (auto simp: held_def)
  ultimately show ?thesis using o main by (simp add: chunk_effect_def)
qed

section \<open>One connection of the transfer\<close>

lemma on_world_simps:
  "on_world f r = (x, r') \<longleftrightarrow> f (rc_world r) = (x, rc_world r') \<and> r' = r\<lparr>rc_world := rc_world r'\<rparr>"
  by (auto simp: on_world_def Let_def split: prod.splits)

lemma sessions_ops [simp]:
  "rc_world (update_receiver_session dir f r) = rc_world r"
  "rc_world (ensure_receiver_session dir name h r) = rc_world r"
  "rc_world (maybe_schedule_finalize dir r) = rc_world r"
  by (auto simp: update_receiver_session_def ensure_receiver_session_def maybe_schedule_finalize_def Let_def
      split: option.splits)

definition merge_status :: "string \<Rightarrow> receiver \<Rightarrow> string" where
  "merge_status dir r = (case map_of (rc_sessions r) dir of None \<Rightarrow> '''' | Some st \<Rightarrow> rs_merge_status (rss_session st))"

lemma merge_status_ops:
  "merge_status dir (maybe_schedule_finalize dir r) = ''done'' \<Longrightarrow> merge_status dir r = ''done''"
  "merge_status dir (ensure_receiver_session dir name h r) = ''done'' \<Longrightarrow> merge_status dir r = ''done''"
  by (auto simp: merge_status_def maybe_schedule_finalize_def ensure_receiver_session_def update_receiver_session_def
      zero_session_def Let_def update_conv' split: option.splits if_splits)

lemma merge_status_world [simp]: "merge_status dir (r\<lparr>rc_world := w\<rparr>) = merge_status dir r"
  by (simp add: merge_status_def)

text \<open>The manifest is updated under the lock: what that does to the files and to the status.\<close>

lemma update_file_effect:
  assumes ok: "transfer_ok env T" and tr: "of_transfer T h c" and inv: "session_inv env T (rc_world r)"
    and upd: "update_receiver_manifest_file env now (tr_dir env T) (tr_name T) h n r = (res, r')"
  shows "chunk_effect env T (header_geom h) (rc_world r) (rc_world r')
     \<and> (merge_status (tr_dir env T) r' = ''done'' \<longrightarrow> merge_status (tr_dir env T) r = ''done'')
     \<and> ((\<exists>u. res = Inr u) \<and> node_at (rc_world r) (chunk_path env T (header_geom h)) = Some (File (file_slice (tr_source T) (header_geom h)))
        \<longrightarrow> header_geom h \<in> held env T (rc_world r'))"
proof -
  obtain x r1 where 1: "on_world (update_manifest_io env now (tr_dir env T) (tr_name T) h n) r = (x, r1)" by force
  then have u: "update_manifest_io env now (tr_dir env T) (tr_name T) h n (rc_world r) = (x, rc_world r1)"
    "r1 = r\<lparr>rc_world := rc_world r1\<rparr>" by (simp_all add: on_world_simps)
  note e = update_effect [OF ok tr inv u(1)]
  have w: "rc_world r' = rc_world r1" "(\<exists>u. res = Inr u) \<longrightarrow> (\<exists>m. x = Inr m)"
    using upd 1 by (auto simp: update_receiver_manifest_file_def split: sum.splits)
  have m: "merge_status (tr_dir env T) r1 = merge_status (tr_dir env T) r" using u(2) merge_status_world by metis
  have "merge_status (tr_dir env T) r' = ''done'' \<longrightarrow> merge_status (tr_dir env T) r = ''done''"
    using upd 1 m
    by (auto simp: update_receiver_manifest_file_def merge_status_def update_receiver_session_def Let_def update_conv'
        split: sum.splits)
  then show ?thesis using e w by auto
qed

lemma conn_dirs:
  assumes "transfer_ok env T" "of_transfer T h c"
  shows "receive_root env h = io_return (rv_receive_path env)" "session_dir_of env h (rv_receive_path env) = tr_dir env T"
    "base_name (h_file_name h) = tr_name T" "chunk_file (tr_dir env T) (tr_name T) (h_chunk_index h) = chunk_path env T (header_geom h)"
  using assms(2) by (auto simp: of_transfer_def receive_root_def session_dir_of_def tr_dir_def header_geom_def Let_def)

lemma open_session_effect:
  assumes "transfer_ok env T" "of_transfer T h c" "open_session env h w = (r, w')"
  shows "same_but {tr_dir env T} w w'" "\<And>d. r = Inr d \<Longrightarrow> d = tr_dir env T"
proof -
  have e: "open_session env h w = (if \<not> is_under (rv_cwd env) (abs_path (rv_cwd env) (tr_dir env T)) (abs_path (rv_cwd env) (rv_receive_path env))
      then io_fail ''path traversal'' else io_bind (fs_mkdir_all (tr_dir env T)) (\<lambda>_. io_return (tr_dir env T))) w"
    by (simp add: open_session_def conn_dirs [OF assms(1,2)] io_bind_def [of "io_return _"] io_return_def Let_def)
  have "touches {tr_dir env T} (io_bind (fs_mkdir_all (tr_dir env T)) (\<lambda>_. io_return (tr_dir env T)))"
    by (intro touches_bind touches_calls(8)) (rule touches_none, simp)
  then show "same_but {tr_dir env T} w w'"
    using assms(3) same_but_touches [of "{tr_dir env T}" _ w r w'] unfolding e
    by (cases "is_under (rv_cwd env) (abs_path (rv_cwd env) (tr_dir env T)) (abs_path (rv_cwd env) (rv_receive_path env))")
      (auto simp: io_fail_def, simp add: same_but_def)
  show "\<And>d. r = Inr d \<Longrightarrow> d = tr_dir env T"
    using assms(3) unfolding e by (auto simp: io_fail_def io_bind_def io_return_def split: if_splits prod.splits sum.splits)
qed

text \<open>The effect of a connection on files and status together.\<close>

definition conn_effect :: "receiver_env \<Rightarrow> transfer \<Rightarrow> geom \<Rightarrow> receiver \<Rightarrow> receiver \<Rightarrow> bool" where
  "conn_effect env T g r r' \<longleftrightarrow> chunk_effect env T g (rc_world r) (rc_world r')
     \<and> (merge_status (tr_dir env T) r' = ''done'' \<longrightarrow> merge_status (tr_dir env T) r = ''done'')"

lemma conn_effect_trans: "conn_effect env T g r r' \<Longrightarrow> conn_effect env T g r' r'' \<Longrightarrow> conn_effect env T g r r''"
  unfolding conn_effect_def using chunk_effect_trans by blast

lemma conn_effect_inv: "conn_effect env T g r r' \<Longrightarrow> session_inv env T (rc_world r')"
  by (simp add: conn_effect_def chunk_effect_def)

lemma conn_effect_frame:
  assumes "transfer_ok env T" "session_inv env T (rc_world r)" "on_world f r = (x, r')"
    and "same_but (scratch_paths env T) (rc_world r) (rc_world r')"
  shows "conn_effect env T g r r' \<and> held env T (rc_world r') = held env T (rc_world r)"
proof -
  have "merge_status (tr_dir env T) r' = merge_status (tr_dir env T) r"
    using assms(3) merge_status_world by (metis on_world_simps)
  then show ?thesis using chunk_effect_frame [OF assms(1,2,4), of g] by (simp add: conn_effect_def)
qed

lemma conn_effect_status:
  assumes "session_inv env T (rc_world r)" "rc_world r' = rc_world r"
    and "merge_status (tr_dir env T) r' = ''done'' \<Longrightarrow> merge_status (tr_dir env T) r = ''done''"
  shows "conn_effect env T g r r'"
  using assms by (auto simp: conn_effect_def chunk_effect_refl)

lemma accept_existing_effect:
  assumes ok: "transfer_ok env T" and tr: "of_transfer T h c" and inv: "session_inv env T (rc_world r)"
    and there: "node_at (rc_world r) (chunk_path env T (header_geom h)) = Some (File (file_slice (tr_source T) (header_geom h)))"
    and run: "accept_existing env now c (tr_dir env T) (tr_name T) h r = (ack, r')"
  shows "conn_effect env T (header_geom h) r r' \<and> (ack \<noteq> None \<longrightarrow> header_geom h \<in> held env T (rc_world r'))"
proof (cases "map_of (rc_sessions r) (tr_dir env T) = None")
  case True
  then show ?thesis using run inv
    by (auto simp: accept_existing_def update_receiver_manifest_def intro: conn_effect_status)
next
  case False
  obtain res r1 where 1: "update_receiver_manifest_file env now (tr_dir env T) (tr_name T) h (h_part_size h) r = (res, r1)"
    by force
  note u = update_file_effect [OF ok tr inv 1]
  have e1: "conn_effect env T (header_geom h) r r1" using u by (simp add: conn_effect_def)
  show ?thesis
  proof (cases res)
    case (Inl e)
    then show ?thesis using run 1 False e1 by (auto simp: accept_existing_def update_receiver_manifest_def)
  next
    case (Inr x)
    then have r': "r' = maybe_schedule_finalize (tr_dir env T) r1"
      using run 1 False by (auto simp: accept_existing_def update_receiver_manifest_def)
    have "conn_effect env T (header_geom h) r1 r'" unfolding r'
      by (rule conn_effect_status [OF conn_effect_inv [OF e1]]) (simp, erule merge_status_ops(1))
    note e2 = conn_effect_trans [OF e1 this]
    have "header_geom h \<in> held env T (rc_world r1)" using u Inr there by blast
    then show ?thesis using e2 r' by simp
  qed
qed

lemma publish_effect:
  assumes ok: "transfer_ok env T" and tr: "of_transfer T h c" and inv: "session_inv env T (rc_world r)"
    and tmp: "tmp \<in> scratch_paths env T" "node_at (rc_world r) tmp = Some (File (file_slice (tr_source T) (header_geom h)))"
    and run: "publish_receiver_chunk env now (tr_dir env T) (tr_name T) (chunk_path env T (header_geom h)) tmp h n r = (res, r')"
  shows "conn_effect env T (header_geom h) r r' \<and> ((\<exists>u. res = Inr u) \<longrightarrow> header_geom h \<in> held env T (rc_world r'))"
proof (cases "map_of (rc_sessions r) (tr_dir env T) = None")
  case True
  then show ?thesis using run inv by (auto simp: publish_receiver_chunk_def intro: conn_effect_status)
next
  case False
  let ?p = "place_chunk env (chunk_path env T (header_geom h)) tmp h"
  obtain x r1 where 1: "on_world ?p r = (x, r1)" by force
  then have p: "?p (rc_world r) = (x, rc_world r1)" "r1 = r\<lparr>rc_world := rc_world r1\<rparr>" by (simp_all add: on_world_simps)
  note e = place_chunk_effect [OF ok tr inv tmp p(1)]
  have e1: "conn_effect env T (header_geom h) r r1" using e p(2) merge_status_world by (metis conn_effect_def)
  show ?thesis
  proof (cases x)
    case (Inl e)
    then show ?thesis using run 1 False e1 by (auto simp: publish_receiver_chunk_def)
  next
    case (Inr u)
    then have 2: "update_receiver_manifest_file env now (tr_dir env T) (tr_name T) h n r1 = (res, r')"
      using run 1 False by (simp add: publish_receiver_chunk_def)
    note u = update_file_effect [OF ok tr conn_effect_inv [OF e1] 2]
    have "conn_effect env T (header_geom h) r1 r'" using u by (simp add: conn_effect_def)
    then show ?thesis using conn_effect_trans [OF e1] u e Inr by auto
  qed
qed

lemma accept_new_effect:
  assumes ok: "transfer_ok env T" and tr: "of_transfer T h c" and inv: "session_inv env T (rc_world r)"
    and run: "accept_new env now c (tr_dir env T) (tr_name T) (chunk_path env T (header_geom h)) h r = (ack, r')"
  shows "conn_effect env T (header_geom h) r r'
    \<and> ((\<exists>a. ack = Some a \<and> ack_status a = ''done'') \<longrightarrow> header_geom h \<in> held env T (rc_world r'))"
proof -
  let ?g = "header_geom h" and ?S = "scratch_paths env T"
  obtain x r1 where 1: "on_world (receive_chunk_to_temp env (cn_payload c) (tr_dir env T) h) r = (x, r1)" by force
  then have f: "receive_chunk_to_temp env (cn_payload c) (tr_dir env T) h (rc_world r) = (x, rc_world r1)"
    by (simp add: on_world_simps)
  note s = receive_chunk_spec [OF f]
  have "same_but ?S (rc_world r) (rc_world r1)"
    using s by (auto intro: same_but_mono simp: scratch_paths_def)
  note e1 = conn_effect_frame [OF ok inv 1 this, of ?g]
  show ?thesis
  proof (cases x)
    case (Inl e)
    then have "r' = r1" "\<not> (\<exists>a. ack = Some a \<and> ack_status a = ''done'')"
      using run 1 by (auto simp: accept_new_def nack_def split: if_splits)
    then show ?thesis using e1 by blast
  next
    case (Inr y)
    obtain tmp n where y: "y = (tmp, n)" by force
    have t: "tmp \<in> range (temp_name (tr_dir env T) ''.incoming-'' ''.tmp'')"
      "node_at (rc_world r1) tmp = Some (File (take (nat (h_part_size h)) (cn_payload c)))"
      "h_part_size h \<le> int (length (take (nat (h_part_size h)) (cn_payload c)))"
      using s Inr y by blast+
    have S: "tmp \<in> ?S" using t(1) by (simp add: scratch_paths_def)
    note sl = t(2) [unfolded whole_slice [OF ok tr t(3)]]
    obtain res r2 where 2: "publish_receiver_chunk env now (tr_dir env T) (tr_name T) (chunk_path env T ?g) tmp h n r1 = (res, r2)"
      by force
    note e2 = publish_effect [OF ok tr conn_effect_inv [OF conjunct1 [OF e1]] S sl 2]
    define r3 where "r3 = (if (\<exists>u. res = Inr u) \<and> cn_ack_ok c then maybe_schedule_finalize (tr_dir env T) r2 else r2)"
    have "conn_effect env T ?g r2 r3" unfolding r3_def
      by (rule conn_effect_status [OF conn_effect_inv [OF conjunct1 [OF e2]]])
        (auto intro: merge_status_ops split: if_splits)
    then have e3: "conn_effect env T ?g r r3" using conn_effect_trans e1 e2 by blast
    have w3: "rc_world r3 = rc_world r2" by (simp add: r3_def)
    obtain z r4 where 4: "on_world (fs_remove tmp) r3 = (z, r4)" by force
    have "same_but {tmp} (rc_world r3) (rc_world r4)"
      using 4 by (intro same_but_touches [OF touches_calls(6)]) (simp add: on_world_simps)
    then have "same_but ?S (rc_world r3) (rc_world r4)" by (rule same_but_mono) (use S in simp)
    note e4 = conn_effect_frame [OF ok conn_effect_inv [OF e3] 4 this]
    have "r' = r4" "ack \<noteq> None \<longrightarrow> (\<exists>u. res = Inr u)"
      using run 1 2 4 Inr y by (auto simp: accept_new_def r3_def Let_def split: sum.splits)
    then show ?thesis using conn_effect_trans [OF e3] e2 e4 w3 by auto
  qed
qed

lemma handle_conn_effect:
  assumes ok: "transfer_ok env T" and tr: "of_transfer T h c" and inv: "session_inv env T (rc_world r)"
    and run: "handle_conn env now h c r = (ack, r')"
  shows "conn_effect env T (header_geom h) r r'
    \<and> ((\<exists>a. ack = Some a \<and> ack_status a = ''done'') \<longrightarrow> header_geom h \<in> held env T (rc_world r'))"
proof (cases "validate_header h \<noteq> Inr () \<or> \<not> verify_header (rv_hmac env) (rv_secret env) h")
  case True
  then have "r' = r" "\<not> (\<exists>a. ack = Some a \<and> ack_status a = ''done'')"
    using run by (auto simp: handle_conn_def nack_def split: sum.splits)
  then show ?thesis using inv by (auto intro: conn_effect_status)
next
  case False
  let ?g = "header_geom h" and ?S = "scratch_paths env T"
  obtain x r1 where 1: "on_world (open_session env h) r = (x, r1)" by force
  then have o: "open_session env h (rc_world r) = (x, rc_world r1)" by (simp add: on_world_simps)
  have "same_but ?S (rc_world r) (rc_world r1)"
    using open_session_effect(1) [OF ok tr o] by (rule same_but_mono) (simp add: scratch_paths_def)
  note e1 = conjunct1 [OF conn_effect_frame [OF ok inv 1 this, of ?g]]
  show ?thesis
  proof (cases x)
    case (Inl e)
    then show ?thesis using run 1 False e1 by (auto simp: handle_conn_def split: sum.splits)
  next
    case (Inr d)
    then have d: "d = tr_dir env T" using open_session_effect(2) [OF ok tr o] by blast
    define r2 where "r2 = ensure_receiver_session (tr_dir env T) (tr_name T) h r1"
    have "conn_effect env T ?g r1 r2" unfolding r2_def
      by (rule conn_effect_status [OF conn_effect_inv [OF e1]]) (auto intro: merge_status_ops)
    then have e2: "conn_effect env T ?g r r2" using conn_effect_trans e1 by blast
    obtain m r3 where 3: "on_world (receiver_chunk_matches env (chunk_path env T ?g) h) r2 = (m, r3)" by force
    then have f: "receiver_chunk_matches env (chunk_path env T ?g) h (rc_world r2) = (m, rc_world r3)"
      by (simp add: on_world_simps)
    have s3: "same_but {} (rc_world r2) (rc_world r3)" using same_but_touches [OF matches_touches f] .
    have "same_but ?S (rc_world r2) (rc_world r3)" using s3 by (rule same_but_mono) simp
    note f3 = conjunct1 [OF conn_effect_frame [OF ok conn_effect_inv [OF e2] 3 this, of ?g]]
    have e3: "conn_effect env T ?g r r3" using conn_effect_trans [OF e2 f3] .
    note inv3 = conn_effect_inv [OF e3]
    have v: "validate_header h = Inr ()" "verify_header (rv_hmac env) (rv_secret env) h" using False by auto
    consider "(ack, r') = (None, r2)" | "m = Inr True" "accept_existing env now c (tr_dir env T) (tr_name T) h r3 = (ack, r')"
      | "accept_new env now c (tr_dir env T) (tr_name T) (chunk_path env T ?g) h r3 = (ack, r')"
    proof (cases "is_under (rv_cwd env) (abs_path (rv_cwd env) (chunk_path env T ?g)) (abs_path (rv_cwd env) (tr_dir env T))")
      case f: False
      then have "(ack, r') = (None, r2)"
        using run 1 Inr d v by (simp add: handle_conn_def r2_def conn_dirs(3,4) [OF ok tr])
      then show ?thesis using that(1) by blast
    next
      case t: True
      have "(case (m, r3) of (Inr True, r) \<Rightarrow> accept_existing env now c (tr_dir env T) (tr_name T) h r
          | (_, r) \<Rightarrow> accept_new env now c (tr_dir env T) (tr_name T)
              (chunk_file (tr_dir env T) (tr_name T) (h_chunk_index h)) h r) = (ack, r')"
        using run 1 Inr d v t 3 [unfolded r2_def]
        by (simp add: handle_conn_def conn_dirs(3) [OF ok tr] header_geom_def Let_def)
      then show ?thesis unfolding conn_dirs(4) [OF ok tr] using that(2,3) by (cases m) (auto split: bool.splits)
    qed
    then show ?thesis
    proof cases
      case 1
      then show ?thesis using e2 by auto
    next
      case 2
      have g: "?g \<in> set (tr_plan T)" using tr by (simp add: of_transfer_def)
      have "node_at (rc_world r3) (chunk_path env T ?g) = node_at (rc_world r2) (chunk_path env T ?g)"
        using s3 by (simp add: same_but_def)
      then have "node_at (rc_world r3) (chunk_path env T ?g) = Some (File (file_slice (tr_source T) ?g))"
        using matches_Inr [of env "chunk_path env T ?g" h "rc_world r2" "rc_world r3"] f 2(1) inv3 g
        by (auto simp: session_inv_def chunks_inv_def)
      from accept_existing_effect [OF ok tr inv3 this 2(2)] show ?thesis
        using conn_effect_trans [OF e3] by auto
    next
      case 3
      from accept_new_effect [OF ok tr inv3 this] show ?thesis using conn_effect_trans [OF e3] by blast
    qed
  qed
qed

end
