(* ===== verification/ReceiverFinal.thy ===== *)
theory ReceiverFinal
  imports ReceiverSession
begin

text \<open>
  The finalisation of a session: what the merge, the publication and the cleaning do to the files, and
  the properties of whole sequences of connections and timer expiries.
\<close>

section \<open>Cleaning up\<close>

lemma glob_literal:
  "no_meta l \<Longrightarrow> glob_match (l @ ps) s \<Longrightarrow> \<exists>t. s = l @ t \<and> glob_match ps t"
proof (induction l arbitrary: s)
  case (Cons c l)
  then have c: "c \<noteq> CHR ''*''" "c \<noteq> CHR ''?''" "c \<noteq> CHR ''[''" "no_meta l" by (auto simp: no_meta_def)
  then obtain s' where "s = c # s'" "glob_match (l @ ps) s'"
    using Cons.prems(2) by (cases s) (auto simp: glob_match.simps(2))
  then show ?case using Cons.IH [OF c(4)] by auto
qed simp

lemma glob_star: "glob_match (CHR ''*'' # ps) s \<Longrightarrow> \<exists>a b. s = a @ b \<and> glob_match ps b"
proof (induction s)
  case Nil
  then show ?case by (simp add: glob_match.simps(2))
next
  case (Cons c s)
  have "glob_match ps (c # s) \<or> glob_match (CHR ''*'' # ps) s"
    using Cons.prems glob_match.simps(2) [of "CHR ''*''" ps "c # s"] by auto
  then consider "glob_match ps (c # s)" | "glob_match (CHR ''*'' # ps) s" by blast
  then show ?case
  proof cases
    case 1
    then show ?thesis by (metis append_Nil)
  next
    case 2
    then obtain a b where "s = a @ b" "glob_match ps b" using Cons.IH by blast
    then show ?thesis by (metis append_Cons)
  qed
qed

lemma chunk_glob:
  assumes "transfer_ok env T" "glob_match (join_path [tr_dir env T, ''*.chunk*'']) p"
  shows "\<exists>t. p = tr_dir env T @ bs # t \<and> sublist ''.chunk'' t"
proof -
  have m: "no_meta (tr_dir env T @ [bs])" using assms(1) by (auto simp: transfer_ok_def no_meta_def bs_def)
  have j: "join_path [tr_dir env T, ''*.chunk*''] = (tr_dir env T @ [bs]) @ ''*.chunk*''"
    using in_dir(5) [OF assms(1) plain_names(3)] by simp
  obtain t where t: "p = tr_dir env T @ bs # t" "glob_match (CHR ''*'' # ''.chunk*'') t"
    using glob_literal [OF m assms(2) [unfolded j]] by auto
  obtain a b where b: "t = a @ b" "glob_match (''.chunk'' @ ''*'') b" using glob_star [OF t(2)] by auto
  have "no_meta ''.chunk''" by code_simp
  from glob_literal [OF this b(2)] obtain c where "b = ''.chunk'' @ c" by blast
  then show ?thesis using t(1) b(1) unfolding sublist_def by blast
qed

lemma fs_remove_node: "fs_remove_if_exists q w = (r, w') \<Longrightarrow> node_at w' p = node_at w p \<or> p = q \<and> node_at w' p = None"
  using remove_if_exists_node [of q w r w'] touchesD [OF touches_more(3), of q w r w' p] by blast

lemma remove_chunk_files_node:
  "remove_chunk_files fs w = (r, w') \<Longrightarrow> node_at w' p = node_at w p \<or> p \<in> set fs \<and> node_at w' p = None"
proof (induction fs arbitrary: w)
  case Nil
  then show ?case by (simp add: io_return_def)
next
  case (Cons f fs)
  show ?case
  proof (cases "has_suffix f ''.tmp''")
    case False
    obtain x w1 where 1: "fs_remove_if_exists f w = (x, w1)" by force
    show ?thesis
    proof (cases x)
      case (Inl e)
      then show ?thesis using Cons.prems False 1 fs_remove_node [OF 1, of p] by (auto simp: io_bind_def)
    next
      case (Inr u)
      then have "remove_chunk_files fs w1 = (r, w')" using Cons.prems False 1 by (simp add: io_bind_def)
      from Cons.IH [OF this] fs_remove_node [OF 1, of p] show ?thesis by (elim disjE) auto
    qed
  qed (use Cons in fastforce)
qed

lemma cleanup_node:
  assumes "cleanup_receiver_chunks dir w = (r, w')"
  shows "node_at w' p = node_at w p \<or> glob_match (join_path [dir, ''*.chunk*'']) p \<and> node_at w' p = None"
proof -
  obtain x w1 where 1: "fs_glob (join_path [dir, ''*.chunk*'']) w = (x, w1)" by force
  have s: "node_at w1 p = node_at w p" using touchesD [OF touches_calls(9) 1] by simp
  show ?thesis
  proof (cases x)
    case (Inl e)
    then show ?thesis using assms 1 s by (auto simp: cleanup_receiver_chunks_def io_bind_def)
  next
    case (Inr fs)
    then have "remove_chunk_files fs w1 = (r, w')" "set fs \<subseteq> {p. glob_match (join_path [dir, ''*.chunk*'']) p}"
      using assms 1 by (auto simp: cleanup_receiver_chunks_def io_bind_def fs_glob_def split: if_splits)
    then show ?thesis using remove_chunk_files_node [of fs w1 r w' p] s by auto
  qed
qed

lemma cleanup_session:
  assumes "transfer_ok env T" "cleanup_receiver_chunks (tr_dir env T) w = (r, w')"
  shows "node_at w' (manifest_path (tr_dir env T)) = node_at w (manifest_path (tr_dir env T))"
    "node_at w' (final_path env T) = node_at w (final_path env T)"
    "node_at w' (chunk_path env T g) = node_at w (chunk_path env T g) \<or> node_at w' (chunk_path env T g) = None"
proof -
  have n: "\<not> sublist ''.chunk'' ''manifest.json''" by code_simp
  have t: "\<not> glob_match (join_path [tr_dir env T, ''*.chunk*'']) (join_path [tr_dir env T, a])"
    if "plain a" "\<not> sublist ''.chunk'' a" for a
    using chunk_glob [OF assms(1)] that in_dir(5) [OF assms(1) that(1)] by auto
  show "node_at w' (manifest_path (tr_dir env T)) = node_at w (manifest_path (tr_dir env T))"
    using cleanup_node [OF assms(2), of "manifest_path (tr_dir env T)"] t [OF plain_names(1) n] by simp
  show "node_at w' (final_path env T) = node_at w (final_path env T)"
    using cleanup_node [OF assms(2), of "final_path env T"] t [OF good_plain [OF assms(1)]] assms(1)
    by (simp add: transfer_ok_def good_name_def)
  show "node_at w' (chunk_path env T g) = node_at w (chunk_path env T g) \<or> node_at w' (chunk_path env T g) = None"
    using cleanup_node [OF assms(2), of "chunk_path env T g"] by (elim disjE conjE) simp_all
qed

section \<open>Merging\<close>

lemma chunk_file_last: "is_digit (last (chunk_file dir name i))"
proof -
  let ?n = "name @ ''.chunk'' @ itoa06 (i + 1)"
  have d: "is_digit (last (itoa06 v))" for v
    using nat_digits_all_digits [of "nat \<bar>v\<bar>"]
    by (auto simp: itoa06_def Let_def list_all_iff dest: bspec [OF _ last_in_set])
  have "is_digit (last (clean (p @ ?n)))" for p
    using d [of "i + 1"] clean_last [of "p @ ?n"] by simp
  from this [of "''''"] this [of "dir @ [bs]"] show ?thesis
    by (auto simp: chunk_file_def join_path_def)
qed

interpretation recv_parts: part_files "\<lambda>c. chunk_file dir name (cs_index c)" "out @ ''.tmp''"
proof
  fix c
  have "last (out @ ''.tmp'') = CHR ''p''" by simp
  then show "chunk_file dir name (cs_index c) \<noteq> out @ ''.tmp''"
    using chunk_file_last [of dir name "cs_index c"] by (auto simp: is_digit_def)
qed

lemma merge_chunk_list_copy:
  "merge_chunk_list env dir name out cs w = (Inr u, w') \<Longrightarrow>
     copy_parts (\<lambda>c. chunk_file dir name (cs_index c)) out cs w = (Inr u, w')"
proof (induction cs arbitrary: w)
  case (Cons c cs)
  then obtain w1 where "copy_parts (\<lambda>c. chunk_file dir name (cs_index c)) out [c] w = (Inr (), w1)"
    "copy_parts (\<lambda>c. chunk_file dir name (cs_index c)) out cs w1 = (Inr u, w')"
    by (auto simp: io_bind_Inr io_lift_def simp del: copy_parts.simps)
  then show ?case by (auto simp: io_bind_Inr io_return_def io_fail_def split: if_splits)
qed simp

lemma merge_chunk_list_touches: "touches {out @ ''.tmp''} (merge_chunk_list env dir name (out @ ''.tmp'') cs)"
proof (induction cs)
  case (Cons c cs)
  then show ?case
    by (auto simp del: copy_parts.simps intro!: touches_bind recv_parts.copy_touches intro: touches_none)
qed (simp add: touches_none)

lemma merge_touches: "touches {out @ ''.tmp''} (merge_receiver_chunks env (out @ ''.tmp'') dir mf)"
  unfolding merge_receiver_chunks_def
  by (intro touches_bind touches_defer merge_chunk_list_touches touches_calls(3)) (rule touches_none, simp)+

lemma io_defer_Inr: "io_defer f g w = (Inr x, w') \<longleftrightarrow> (\<exists>w1. f w = (Inr x, w1) \<and> w' = snd (g w1))"
  by (auto simp: io_defer_def Let_def split: prod.splits)

lemma merge_spec:
  assumes "merge_receiver_chunks env (out @ ''.tmp'') dir mf w = (Inr u, w')"
  shows "\<exists>bs. list_all2 (part_in w (\<lambda>c. chunk_file dir (mf_file_name mf) (cs_index c))) (sort_by_index (mf_chunks mf)) bs
     \<and> node_at w' (out @ ''.tmp'') = Some (File (concat bs))"
proof -
  let ?p = "\<lambda>c. chunk_file dir (mf_file_name mf) (cs_index c)" and ?o = "out @ ''.tmp''"
  obtain w1 w2 where 1: "fs_create ?o w = (Inr (), w1)"
    "merge_chunk_list env dir (mf_file_name mf) ?o (sort_by_index (mf_chunks mf)) w1 = (Inr u, w2)" "w' = snd (fs_step w2)"
    using assms by (auto simp: merge_receiver_chunks_def io_bind_Inr io_lift_def io_defer_Inr)
  note c = fs_create_Inr [OF 1(1)]
  obtain bs where bs: "list_all2 (part_in w1 ?p) (sort_by_index (mf_chunks mf)) bs" "node_at w2 ?o = Some (File (concat bs))"
    using recv_parts.copy_spec [OF merge_chunk_list_copy [OF 1(2)] conjunct1 [OF c]] by auto
  have "part_in w1 ?p = part_in w ?p"
    using c recv_parts.apart by (auto simp: fun_eq_iff intro!: part_in_cong)
  moreover have "node_at w' ?o = node_at w2 ?o"
    using 1(3) touches_calls(5) by (simp add: touches_def)
  ultimately show ?thesis using bs by auto
qed

text \<open>Chunks of the plan whose sizes sum up to the file are all of them.\<close>

lemma plan_complete:
  assumes t: "tiling 0 0 n plan" and gs: "distinct gs" "set gs \<subseteq> set plan" "sum_list (map (snd \<circ> snd) gs) = n"
  shows "set gs = set plan"
proof (rule ccontr)
  assume "set gs \<noteq> set plan"
  then obtain x where x: "x \<in> set plan" "x \<notin> set gs" using gs(2) by blast
  have p: "0 < snd (snd g)" if "g \<in> set plan" for g using tiling_pos [OF t that] .
  have d: "distinct plan" using tiling_distinct [OF t] by (simp add: distinct_map)
  have sz: "snd \<circ> snd = (\<lambda>g::geom. case g of (_, _, sz) \<Rightarrow> sz)" by auto
  have "sum_list (map (snd \<circ> snd) plan) = n"
    using tiling_sum [OF t] by (simp add: sz)
  then have "n = (\<Sum>g\<in>set plan. snd (snd g))" using d by (simp add: sum_list_distinct_conv_sum_set)
  moreover have "(\<Sum>g\<in>insert x (set gs). snd (snd g)) \<le> (\<Sum>g\<in>set plan. snd (snd g))"
    using x(1) gs(2) p by (intro sum_mono2) (auto intro: order_less_imp_le)
  moreover have "(\<Sum>g\<in>insert x (set gs). snd (snd g)) = snd (snd x) + n"
    using x(2) gs(1,3) by (simp add: sum_list_distinct_conv_sum_set)
  ultimately show False using p [OF x(1)] by simp
qed

lemma sorted_plan:
  assumes t: "tiling 0 0 n plan" and cs: "distinct (map cs_index cs)" "cs_geom ` set cs = set plan"
  shows "map cs_geom (sort_by_index cs) = plan"
proof -
  let ?gs = "map cs_geom (sort_by_index cs)"
  have i: "map fst ?gs = map cs_index (sort_by_index cs)" by (simp add: cs_geom_def)
  have s: "set ?gs = set plan" using cs(2) by (simp add: sort_by_index_props)
  have "mset (map cs_index (sort_by_index cs)) = mset (map cs_index cs)" by (simp add: sort_by_index_props)
  then have "distinct (map fst ?gs)" unfolding i using cs(1) by (metis mset_eq_imp_distinct_iff)
  moreover have "sorted (map fst ?gs)" unfolding i by (simp add: sort_by_index_props)
  moreover have "sorted (map fst plan)" "distinct (map fst plan)"
    using tiling_distinct [OF t] tiling_indices [OF t] by (simp_all add: sorted_iff_nth_mono)
  moreover have "set (map fst ?gs) = set (map fst plan)" using s by (metis list.set_map)
  ultimately have "map fst ?gs = map fst plan" by (simp add: sorted_distinct_set_unique)
  moreover have "inj_on fst (set ?gs \<union> set plan)" using tiling_distinct [OF t] s by (simp add: distinct_map)
  ultimately show ?thesis by (rule map_inj_on)
qed

text \<open>What a merge of the recorded chunks yields.\<close>

lemma merged_bytes:
  assumes ok: "transfer_ok env T" and inv: "chunks_inv env T w" and mf: "mf_ok env T m"
    and parts: "list_all2 (part_in w (\<lambda>c. chunk_file (tr_dir env T) (mf_file_name m) (cs_index c))) (sort_by_index (mf_chunks m)) ps"
    and full: "cs_geom ` set (mf_chunks m) = set (tr_plan T) \<or> length (concat ps) = length (tr_source T)"
  shows "concat ps = tr_source T \<and> cs_geom ` set (mf_chunks m) = set (tr_plan T)"
proof -
  let ?cs = "sort_by_index (mf_chunks m)" and ?n = "int (length (tr_source T))"
  have t: "tiling 0 0 ?n (tr_plan T)" using ok by (simp add: transfer_ok_def)
  have m: "mf_file_name m = tr_name T" "distinct (map cs_index (mf_chunks m))" "cs_geom ` set (mf_chunks m) \<subseteq> set (tr_plan T)"
    using mf by (simp_all add: mf_ok_def)
  have b: "b = file_slice (tr_source T) (cs_geom c) \<and> int (length b) = snd (snd (cs_geom c))"
    if "part_in w (\<lambda>c. chunk_file (tr_dir env T) (mf_file_name m) (cs_index c)) c b" "c \<in> set ?cs" for c b
  proof -
    have "cs_geom c \<in> set (tr_plan T)" using m(3) that(2) by (auto simp: sort_by_index_props)
    then have "node_at w (chunk_path env T (cs_geom c)) = None
        \<or> node_at w (chunk_path env T (cs_geom c)) = Some (File (file_slice (tr_source T) (cs_geom c)))"
      using inv by (simp add: chunks_inv_def)
    then show ?thesis using that(1) m(1) by (auto simp: part_in_def cs_geom_def)
  qed
  have ps: "ps = map (\<lambda>c. file_slice (tr_source T) (cs_geom c)) ?cs"
    "map (int \<circ> length) ps = map (snd \<circ> snd \<circ> cs_geom) ?cs"
    using parts b by (auto simp: list_all2_conv_all_nth intro!: nth_equalityI)
  have p: "cs_geom ` set (mf_chunks m) = set (tr_plan T)"
  proof (cases "length (concat ps) = length (tr_source T)")
    case True
    have "sum_list (map (snd \<circ> snd) (map cs_geom ?cs)) = int (sum_list (map length ps))"
    proof -
      have "sum_list (map (int \<circ> length) ps) = int (sum_list (map length ps))" by (induction ps) auto
      then show ?thesis using ps(2) by (simp add: comp_assoc)
    qed
    moreover have "distinct (map cs_geom (mf_chunks m))"
      using m(2) by (simp add: distinct_map inj_on_def) (metis cs_geom_def fst_conv)
    then have "distinct (map cs_geom ?cs)"
      using mset_eq_imp_distinct_iff [of "map cs_geom ?cs" "map cs_geom (mf_chunks m)"] by (simp add: sort_by_index_props)
    moreover have "set (map cs_geom ?cs) \<subseteq> set (tr_plan T)" using m(3) by (auto simp: sort_by_index_props)
    moreover have "sum_list (map length ps) = length (tr_source T)" using True by (simp add: length_concat)
    ultimately have "set (map cs_geom ?cs) = set (tr_plan T)" using plan_complete [OF t, of "map cs_geom ?cs"] by simp
    then show ?thesis by (simp add: sort_by_index_props)
  qed (use full in simp)
  have "concat ps = concat (map (file_slice (tr_source T)) (map cs_geom ?cs))" using ps(1) by (simp add: comp_def)
  also have "\<dots> = tr_source T" unfolding sorted_plan [OF t m(2) p] using tiling_concat [OF t, of "tr_source T"] by simp
  finally show ?thesis using p by simp
qed

section \<open>Publishing\<close>

abbreviation published :: "receiver_env \<Rightarrow> transfer \<Rightarrow> world \<Rightarrow> bool" where
  "published env T w \<equiv> node_at w (final_path env T) = Some (File (tr_source T))"

text \<open>What a finalisation may do to the files of the session.\<close>

definition fin_effect :: "receiver_env \<Rightarrow> transfer \<Rightarrow> world \<Rightarrow> world \<Rightarrow> bool" where
  "fin_effect env T w w' \<longleftrightarrow> session_inv env T w' \<and> (published env T w \<longrightarrow> published env T w')
     \<and> (held env T w \<subseteq> held env T w' \<or> published env T w')"

lemma fin_effect_trans: "fin_effect env T w w' \<Longrightarrow> fin_effect env T w' w'' \<Longrightarrow> fin_effect env T w w''"
  by (auto simp: fin_effect_def)

lemma fin_effect_frame:
  "transfer_ok env T \<Longrightarrow> session_inv env T w \<Longrightarrow> same_but (scratch_paths env T) w w' \<Longrightarrow> fin_effect env T w w'"
  using inv_frame [of env T w w'] by (simp add: fin_effect_def)

lemma fin_effect_same: "session_inv env T w \<Longrightarrow> transfer_ok env T \<Longrightarrow> (\<And>p. node_at w' p = node_at w p) \<Longrightarrow> fin_effect env T w w'"
  by (rule fin_effect_frame) (simp_all add: same_but_def)

text \<open>Only the final path changes.\<close>

lemma fin_effect_final:
  assumes ok: "transfer_ok env T" and inv: "session_inv env T w"
    and s: "same_but (insert (final_path env T) (scratch_paths env T)) w w'"
    and f: "\<And>b. node_at w' (final_path env T) = Some (File b) \<Longrightarrow> length b = length (tr_source T) \<Longrightarrow>
        b = tr_source T \<and> recorded env T w = set (tr_plan T)"
    and k: "published env T w \<Longrightarrow> published env T w'"
  shows "fin_effect env T w w'" "recorded env T w' = recorded env T w"
proof -
  have e: "node_at w' (manifest_path (tr_dir env T)) = node_at w (manifest_path (tr_dir env T))"
    "node_at w' (chunk_path env T g) = node_at w (chunk_path env T g)" for g
    using s scratch_apart [OF ok] main_apart [OF ok] by (auto simp: same_but_def)
  then show r: "recorded env T w' = recorded env T w" by (simp add: recorded_def)
  have "final_inv env T w'" using f unfolding final_inv_def r by blast
  then have "session_inv env T w'"
    using inv e by (simp add: session_inv_def manifest_inv_def chunks_inv_def)
  moreover have "held env T w' = held env T w" using e r by (simp add: held_def)
  ultimately show "fin_effect env T w w'" using k by (simp add: fin_effect_def)
qed

text \<open>The chunk files go only after the final file is the source.\<close>

lemma fin_effect_cleanup:
  assumes ok: "transfer_ok env T" and inv: "session_inv env T w" and p: "published env T w"
    and c: "cleanup_receiver_chunks (tr_dir env T) w = (r, w')"
  shows "fin_effect env T w w'" "published env T w'"
proof -
  note n = cleanup_session [OF ok c]
  show p': "published env T w'" using n(2) p by simp
  have "recorded env T w' = recorded env T w" using n(1) by (simp add: recorded_def)
  moreover have "chunks_inv env T w'" unfolding chunks_inv_def
  proof
    fix g assume "g \<in> set (tr_plan T)"
    then show "node_at w' (chunk_path env T g) = None \<or> node_at w' (chunk_path env T g) = Some (File (file_slice (tr_source T) g))"
      using n(3) [of g] inv by (auto simp: session_inv_def chunks_inv_def)
  qed
  ultimately have "session_inv env T w'" using inv n(1,2)
    by (simp add: session_inv_def manifest_inv_def final_inv_def)
  then show "fin_effect env T w w'" using p' by (simp add: fin_effect_def)
qed

lemma on_error_cases:
  assumes "io_on_error f g w = (r, w')"
  obtains (ok) x where "r = Inr x" "f w = (Inr x, w')"
  | (err) e w1 where "r = Inl e" "f w = (Inl e, w1)" "w' = snd (g w1)"
  using assms by (auto simp: io_on_error_def split: prod.splits sum.splits)

lemma final_tmp_scratch: "final_path env T @ ''.tmp'' \<in> scratch_paths env T"
  by (simp add: scratch_paths_def)

lemma rename_final:
  assumes ok: "transfer_ok env T" and inv: "session_inv env T w0"
    and m: "mf_ok env T m" "recorded env T w0 = cs_geom ` set (mf_chunks m)"
    and ps: "list_all2 (part_in w0 (\<lambda>c. chunk_file (tr_dir env T) (mf_file_name m) (cs_index c))) (sort_by_index (mf_chunks m)) ps"
    and s: "same_but (scratch_paths env T) w0 w" and t: "node_at w (final_path env T @ ''.tmp'') = Some (File (concat ps))"
    and r: "fs_rename (final_path env T @ ''.tmp'') (final_path env T) w = (Inr u, w')"
  shows "fin_effect env T w0 w'" "node_at w' (final_path env T) = Some (File (concat ps))"
    "length (concat ps) = length (tr_source T) \<Longrightarrow> published env T w'"
proof -
  let ?F = "final_path env T"
  have ne: "?F \<noteq> ?F @ ''.tmp''" by simp
  note e = fs_rename_Inr [OF r]
  show F: "node_at w' ?F = Some (File (concat ps))" using e t ne by auto
  have "same_but {?F @ ''.tmp'', ?F} w w'" using same_but_touches [OF touches_calls(7) r] .
  then have s': "same_but (insert ?F (scratch_paths env T)) w0 w'"
    by (rule same_but_trans [OF s]) (use final_tmp_scratch in auto)
  have c: "chunks_inv env T w0" using inv by (simp add: session_inv_def)
  note mb = merged_bytes [OF ok c m(1) ps]
  have f: "b = tr_source T \<and> recorded env T w0 = set (tr_plan T)"
    if "node_at w' ?F = Some (File b)" "length b = length (tr_source T)" for b
    using mb that F m(2) by auto
  show pub: "length (concat ps) = length (tr_source T) \<Longrightarrow> published env T w'" using mb F by simp
  have k: "published env T w'" if "published env T w0"
  proof -
    have "recorded env T w0 = set (tr_plan T)" using inv that by (simp add: session_inv_def final_inv_def)
    then show ?thesis using mb F m(2) by simp
  qed
  show "fin_effect env T w0 w'" using fin_effect_final(1) [OF ok inv s' f k] .
qed

lemma validate_final_Inr:
  "validate_final_size p n w = (Inr u, w') \<Longrightarrow> (\<exists>b. node_at w p = Some (File b) \<and> int (length b) = n) \<or> node_at w p = Some Dir \<and> n = 0"
  by (auto simp: validate_final_size_def io_bind_Inr fs_stat_def io_fail_def io_return_def
      split: if_splits option.splits node.splits)

lemma io_bind_run:
  "f w = (Inr x, w1) \<Longrightarrow> io_bind f g w = g x w1" "f w = (Inl e, w1) \<Longrightarrow> io_bind f g w = (Inl e, w1)"
  by (simp_all add: io_bind_def)

lemma io_bind_return: "io_bind (io_return x) g = g x"
  by (simp add: io_bind_def io_return_def fun_eq_iff)

lemma merge_publish_effect:
  assumes ok: "transfer_ok env T" and inv: "session_inv env T w"
    and m: "mf_ok env T m" "recorded env T w = cs_geom ` set (mf_chunks m)"
    and run: "merge_and_publish env (tr_dir env T) m (final_path env T) w = (r, w')"
  shows "fin_effect env T w w' \<and> ((\<exists>x. r = Inr x) \<longrightarrow> published env T w')"
proof -
  let ?F = "final_path env T" and ?t = "final_path env T @ ''.tmp''" and ?S = "scratch_paths env T"
  have tgt: "tgt_address (mf_target m) = ''''" "mf_total_bytes m = int (length (tr_source T))"
    using m(1) by (simp_all add: mf_ok_def)
  have drop: "fin_effect env T w w2" if "same_but ?S w w1" "w2 = snd (fs_remove ?t w1)" for w1 w2
  proof -
    have "same_but {?t} w1 w2" using that(2) same_but_touches [OF touches_calls(6)] by (metis prod.collapse)
    then have "same_but ?S w w2" by (rule same_but_trans [OF that(1)]) (use final_tmp_scratch in simp)
    then show ?thesis by (rule fin_effect_frame [OF ok inv])
  qed
  have tS: "same_but ?S w1 w2" if "same_but {?t} w1 w2" for w1 w2
    using that by (rule same_but_mono) (use final_tmp_scratch in simp)
  have u: "merge_and_publish env (tr_dir env T) m ?F =
      io_bind (io_on_error (merge_receiver_chunks env ?t (tr_dir env T) m) (fs_remove ?t)) (\<lambda>_.
      io_bind (io_on_error (fs_rename ?t ?F) (fs_remove ?t)) (\<lambda>_.
      io_bind (validate_final_size ?F (mf_total_bytes m)) (\<lambda>_.
      io_bind (cleanup_receiver_chunks (tr_dir env T)) (\<lambda>_. io_return ?F))))"
    using tgt(1) by (simp add: merge_and_publish_def Let_def io_bind_return)
  obtain r1 w1 where 1: "io_on_error (merge_receiver_chunks env ?t (tr_dir env T) m) (fs_remove ?t) w = (r1, w1)" by force
  from 1 show ?thesis
  proof (cases rule: on_error_cases)
    case (err e w0)
    have "fin_effect env T w w1" using drop [OF tS [OF same_but_touches [OF merge_touches err(2)]] err(3)] .
    moreover have "(r, w') = (Inl e, w1)" using run 1 unfolding u err(1) by (simp add: io_bind_run)
    ultimately show ?thesis by simp
  next
    case m1: (ok x1)
    obtain ps where ps: "list_all2 (part_in w (\<lambda>c. chunk_file (tr_dir env T) (mf_file_name m) (cs_index c))) (sort_by_index (mf_chunks m)) ps"
      "node_at w1 ?t = Some (File (concat ps))" using merge_spec [OF m1(2)] by blast
    have s1: "same_but ?S w w1" using tS [OF same_but_touches [OF merge_touches m1(2)]] .
    obtain r2 w2 where 2: "io_on_error (fs_rename ?t ?F) (fs_remove ?t) w1 = (r2, w2)" by force
    from 2 show ?thesis
    proof (cases rule: on_error_cases)
      case (err e w0)
      have "same_but ?S w w0" using s1 fs_rename_Inl [OF err(2)] by (simp add: same_but_def)
      have "(r, w') = (Inl e, w2)" using run 1 2 unfolding u m1(1) err(1) by (simp add: io_bind_run)
      with drop [OF \<open>same_but ?S w w0\<close> err(3)] show ?thesis by simp
    next
      case m2: (ok x2)
      note f = rename_final [OF ok inv m ps(1) s1 ps(2) m2(2)]
      obtain r3 w3 where 3: "validate_final_size ?F (mf_total_bytes m) w2 = (r3, w3)" by force
      have "touches {} (validate_final_size ?F (mf_total_bytes m))"
        unfolding validate_final_size_def by (intro touches_bind) auto
      then have n3: "node_at w3 p = node_at w2 p" for p using touchesD 3 by blast
      have inv2: "session_inv env T w2" using f(1) by (simp add: fin_effect_def)
      have e3: "fin_effect env T w w3" using fin_effect_trans [OF f(1) fin_effect_same [OF inv2 ok n3]] .
      show ?thesis
      proof (cases r3)
        case (Inl e)
        have "(r, w') = (Inl e, w3)" using run 1 2 3 unfolding u m1(1) m2(1) Inl by (simp add: io_bind_run)
        then show ?thesis using e3 by simp
      next
        case (Inr u3)
        have "length (concat ps) = length (tr_source T)"
          using validate_final_Inr [OF 3 [unfolded Inr]] f(2) tgt(2) by auto
        then have p3: "published env T w3" using f(3) n3 by simp
        obtain r4 w4 where 4: "cleanup_receiver_chunks (tr_dir env T) w3 = (r4, w4)" by force
        have inv3: "session_inv env T w3" using e3 by (simp add: fin_effect_def)
        note c = fin_effect_cleanup [OF ok inv3 p3 4]
        have "w' = w4" using run 1 2 3 4 unfolding u m1(1) m2(1) Inr
          by (cases r4) (simp_all add: io_bind_run io_return_def)
        then show ?thesis using fin_effect_trans [OF e3 c(1)] c(2) by simp
      qed
    qed
  qed
qed

lemma check_existing_effect:
  assumes ok: "transfer_ok env T" and inv: "session_inv env T w"
    and run: "check_existing_final (final_path env T) (int (length (tr_source T))) w = (r, w')"
  shows "fin_effect env T w w' \<and> (r = Inr True \<longrightarrow> published env T w') \<and> recorded env T w' = recorded env T w"
proof -
  let ?F = "final_path env T" and ?n = "int (length (tr_source T))"
  obtain st w1 where 1: "fs_stat ?F w = (st, w1)" by force
  have n1: "node_at w1 p = node_at w p" for p using touchesD [OF touches_more(1) 1] by simp
  have u: "check_existing_final ?F ?n w = (case st of Inl _ \<Rightarrow> io_return False
      | Inr (regular, sz) \<Rightarrow> if sz = ?n then io_return True
          else io_bind (fs_remove ?F) (\<lambda>_. io_return False)) w1"
    unfolding check_existing_final_def by (rule io_bind_run) (simp add: io_try_iff 1)
  note e1 = fin_effect_same [OF inv ok n1]
  have r1: "recorded env T w1 = recorded env T w" by (simp add: recorded_def n1)
  consider "(r, w') = (Inr False, w1)" | "(r, w') = (Inr True, w1)" "\<exists>reg. st = Inr (reg, ?n)"
    | reg sz where "st = Inr (reg, sz)" "sz \<noteq> ?n" "io_bind (fs_remove ?F) (\<lambda>_. io_return False) w1 = (r, w')"
    using run unfolding u by (cases st) (auto simp: io_return_def split: if_splits)
  then show ?thesis
  proof cases
    case 1
    then show ?thesis using e1 r1 by simp
  next
    case 2
    have "?n > 0" using ok by (simp add: transfer_ok_def)
    then obtain b where "node_at w ?F = Some (File b)" "length b = length (tr_source T)"
      using 2(2) 1 by (auto simp: fs_stat_def split: if_splits option.splits node.splits)
    then have "published env T w" using inv by (simp add: session_inv_def final_inv_def)
    then show ?thesis using 2 e1 r1 n1 by simp
  next
    case 3
    have np: "\<not> published env T w1"
      using 3(1,2) 1 n1 by (auto simp: fs_stat_def split: if_splits option.splits node.splits)
    obtain x w2 where x: "fs_remove ?F w1 = (x, w2)" by force
    have w2: "w' = w2" "r \<noteq> Inr True" using 3(3) x by (auto simp: io_bind_def io_return_def split: sum.splits)
    have inv1: "session_inv env T w1" using e1 by (simp add: fin_effect_def)
    have s: "same_but (insert ?F (scratch_paths env T)) w1 w2"
      using same_but_touches [OF touches_calls(6) x] by (rule same_but_mono) simp
    have f: "b = tr_source T \<and> recorded env T w1 = set (tr_plan T)"
      if "node_at w2 ?F = Some (File b)" "length b = length (tr_source T)" for b
    proof -
      have "node_at w2 ?F = node_at w1 ?F" using x that(1)
        by (auto simp: fs_remove_def split: if_splits option.splits node.splits)
      then show ?thesis using that inv1 unfolding session_inv_def final_inv_def by metis
    qed
    from fin_effect_final [OF ok inv1 s f] np show ?thesis
      using fin_effect_trans [OF e1] r1 w2 by auto
  qed
qed

lemma finalize_effect:
  assumes ok: "transfer_ok env T" and inv: "session_inv env T w"
    and run: "finalize_io env (tr_dir env T) w = (r, w')"
  shows "fin_effect env T w w' \<and> ((\<exists>x. r = Inr x) \<longrightarrow> published env T w')"
proof -
  let ?M = "manifest_path (tr_dir env T)"
  obtain x w1 where 1: "load_file (rv_unmarshal env) ?M w = (x, w1)" by force
  have n1: "node_at w1 p = node_at w p" for p using touchesD [OF load_file_touches 1] by simp
  note e1 = fin_effect_same [OF inv ok n1]
  show ?thesis
  proof (cases x)
    case (Inl e)
    then show ?thesis using run 1 e1 by (auto simp: finalize_io_def io_bind_run)
  next
    case (Inr m)
    then obtain b m0 where b: "node_at w ?M = Some (File b)" "rv_unmarshal env b = Inr m0" "m = normalize_for_resume 3 m0"
      using load_file_Inr 1 by blast
    have m0: "mf_ok env T m0" using inv b by (auto simp: session_inv_def manifest_inv_def)
    then have mm: "m = m0" using b(3) normalize_done by (simp add: mf_ok_def)
    have m: "mf_ok env T m" "recorded env T w1 = cs_geom ` set (mf_chunks m)"
      using m0 b mm by (simp_all add: recorded_def n1)
    have F: "receiver_final_path (tr_dir env T) m = final_path env T" "mf_total_bytes m = int (length (tr_source T))"
      using m(1) by (simp_all add: mf_ok_def receiver_final_path_def)
    have inv1: "session_inv env T w1" using e1 by (simp add: fin_effect_def)
    define K where "K there = (if there then io_return (m, final_path env T, ''already finalized'')
      else io_bind (merge_and_publish env (tr_dir env T) m (final_path env T)) (\<lambda>output.
        io_return (m, output, ''merged and cleaned'')))" for there
    have k: "finalize_io env (tr_dir env T) w =
        io_bind (io_lift (validate_manifest_complete m)) (\<lambda>_.
        io_bind (io_lift (validate_receiver_path (rv_cwd env) (tr_dir env T) (final_path env T))) (\<lambda>_.
        io_bind (check_existing_final (final_path env T) (int (length (tr_source T)))) K)) w1"
      unfolding finalize_io_def Let_def using 1 Inr by (simp add: io_bind_run F K_def [abs_def] cong: if_cong)
    consider (err) e where "(r, w') = (Inl e, w1)"
      | (go) "io_bind (check_existing_final (final_path env T) (int (length (tr_source T)))) K w1 = (r, w')"
      using run unfolding k by (cases "validate_manifest_complete m";
          cases "validate_receiver_path (rv_cwd env) (tr_dir env T) (final_path env T)")
        (auto simp: io_bind_def io_lift_def)
    then show ?thesis
    proof cases
      case err
      then show ?thesis using e1 by simp
    next
      case go
      obtain y w2 where 2: "check_existing_final (final_path env T) (int (length (tr_source T))) w1 = (y, w2)" by force
      note c = check_existing_effect [OF ok inv1 2]
      have e2: "fin_effect env T w w2" using fin_effect_trans [OF e1] c by blast
      consider (err) e where "(r, w') = (Inl e, w2)" | (there) "y = Inr True" "w' = w2"
        | (merge) "io_bind (merge_and_publish env (tr_dir env T) m (final_path env T)) (\<lambda>output.
            io_return (m, output, ''merged and cleaned'')) w2 = (r, w')"
      proof (cases y)
        case (Inr there)
        then have "K there w2 = (r, w')" using go 2 by (simp add: io_bind_run)
        then show ?thesis using that(2,3) Inr by (cases there) (simp_all add: K_def io_return_def)
      next
        case (Inl e)
        then have "(r, w') = (Inl e, w2)" using go 2 by (auto simp: io_bind_run)
        then show ?thesis by (rule that(1))
      qed
      then show ?thesis
      proof cases
        case err
        then show ?thesis using e2 by simp
      next
        case there
        then show ?thesis using e2 c by simp
      next
        case merge
        obtain z w3 where 3: "merge_and_publish env (tr_dir env T) m (final_path env T) w2 = (z, w3)" by force
        have inv2: "session_inv env T w2" using e2 by (simp add: fin_effect_def)
        have "recorded env T w2 = cs_geom ` set (mf_chunks m)" using c m(2) by simp
        note p = merge_publish_effect [OF ok inv2 m(1) this 3]
        have "w' = w3 \<and> ((\<exists>x. r = Inr x) \<longrightarrow> (\<exists>x. z = Inr x))"
        proof (cases z)
          case (Inl e)
          have "(r, w') = (Inl e, w3)" using merge
            by (metis (no_types) io_bind_run(2) [where f = "merge_and_publish env (tr_dir env T) m (final_path env T)" and w = w2, OF 3 [unfolded Inl]])
          then show ?thesis by simp
        next
          case (Inr a)
          have "io_return (m, a, ''merged and cleaned'') w3 = (r, w')" using merge
            unfolding io_bind_run(1) [where f = "merge_and_publish env (tr_dir env T) m (final_path env T)" and w = w2, OF 3 [unfolded Inr]] .
          then show ?thesis using Inr by (auto simp: io_return_def)
        qed
        moreover have "fin_effect env T w w3" using fin_effect_trans [OF e2 conjunct1 [OF p]] .
        ultimately show ?thesis using conjunct2 [OF p] by blast
      qed
    qed
  qed
qed

section \<open>Runs\<close>

text \<open>
  What happens to a session: a connection, at a time and with a header, or the expiry of the timer.
  Connections are handled one after another.
\<close>

datatype receiver_event = Conn gotime header conn | Fire

fun receiver_step :: "receiver_env \<Rightarrow> transfer \<Rightarrow> receiver_event \<Rightarrow> receiver \<Rightarrow> receiver" where
  "receiver_step env T (Conn now h c) r = snd (handle_conn env now h c r)"
| "receiver_step env T Fire r = timer_fires env (tr_dir env T) r"

definition receiver_run :: "receiver_env \<Rightarrow> transfer \<Rightarrow> receiver_event list \<Rightarrow> receiver \<Rightarrow> receiver" where
  "receiver_run env T es r = fold (receiver_step env T) es r"

fun event_of :: "transfer \<Rightarrow> receiver_event \<Rightarrow> bool" where
  "event_of T (Conn now h c) \<longleftrightarrow> of_transfer T h c"
| "event_of T Fire \<longleftrightarrow> True"

fun event_geom :: "receiver_event \<Rightarrow> geom option" where
  "event_geom (Conn now h c) = Some (header_geom h)"
| "event_geom Fire = None"

text \<open>Nothing of the session is there yet.\<close>

definition fresh_session :: "receiver_env \<Rightarrow> transfer \<Rightarrow> receiver \<Rightarrow> bool" where
  "fresh_session env T r \<longleftrightarrow> map_of (rc_sessions r) (tr_dir env T) = None
     \<and> node_at (rc_world r) (manifest_path (tr_dir env T)) = None \<and> node_at (rc_world r) (final_path env T) = None
     \<and> list_all (\<lambda>g. node_at (rc_world r) (chunk_path env T g) = None) (tr_plan T)"

definition run_inv :: "receiver_env \<Rightarrow> transfer \<Rightarrow> receiver \<Rightarrow> bool" where
  "run_inv env T r \<longleftrightarrow> session_inv env T (rc_world r)
     \<and> (merge_status (tr_dir env T) r = ''done'' \<longrightarrow> published env T (rc_world r))"

text \<open>The chunks that cannot be lost any more: recorded and in place, or part of the published file.\<close>

definition safe_chunks :: "receiver_env \<Rightarrow> transfer \<Rightarrow> world \<Rightarrow> geom set" where
  "safe_chunks env T w = held env T w \<union> (if published env T w then set (tr_plan T) else {})"

lemma run_inv_fresh: "fresh_session env T r \<Longrightarrow> run_inv env T r"
  by (auto simp: fresh_session_def run_inv_def session_inv_def manifest_inv_def chunks_inv_def final_inv_def
      merge_status_def list_all_iff)

lemma held_in_plan: "session_inv env T w \<Longrightarrow> held env T w \<subseteq> set (tr_plan T)"
  by (auto simp: session_inv_def manifest_inv_def held_def recorded_def mf_ok_def)

lemma merge_status_update:
  "merge_status dir (update_receiver_session dir f r) =
     rs_merge_status (f (case map_of (rc_sessions r) dir of Some st \<Rightarrow> rss_session st
        | None \<Rightarrow> zero_session\<lparr>rs_session_dir := dir, rs_merge_status := ''pending''\<rparr>))"
  by (simp add: merge_status_def update_receiver_session_def Let_def update_conv' split: option.splits)

lemma finalize_session_effect:
  assumes ok: "transfer_ok env T" and inv: "run_inv env T r"
  shows "run_inv env T (finalize_receiver_session env (tr_dir env T) r)
    \<and> fin_effect env T (rc_world r) (rc_world (finalize_receiver_session env (tr_dir env T) r))"
proof -
  let ?d = "tr_dir env T"
  have s: "session_inv env T (rc_world r)" using inv by (simp add: run_inv_def)
  have refl: "fin_effect env T (rc_world r) (rc_world r)" using s by (simp add: fin_effect_def)
  show ?thesis
  proof (cases "map_of (rc_sessions r) ?d")
    case None
    then show ?thesis using inv refl by (simp add: finalize_receiver_session_def)
  next
    case (Some st)
    show ?thesis
    proof (cases "rs_merge_status (rss_session st) = ''running'' \<or> rs_merge_status (rss_session st) = ''done''")
      case True
      then show ?thesis using Some inv refl by (simp add: finalize_receiver_session_def)
    next
      case False
      define r1 where "r1 = update_receiver_session ?d (\<lambda>s. s\<lparr>rs_merge_status := ''running'',
        rs_merge_message := '''', rs_cleanup_status := ''pending''\<rparr>) r"
      have w1: "rc_world r1 = rc_world r" by (simp add: r1_def)
      obtain x r2 where 2: "on_world (finalize_io env ?d) r1 = (x, r2)" by force
      then have f: "finalize_io env ?d (rc_world r) = (x, rc_world r2)" by (simp add: on_world_simps w1)
      note e = finalize_effect [OF ok s f]
      have r: "finalize_receiver_session env ?d r = (case (x, r2) of (Inl e, r) \<Rightarrow> fail_receiver_finalize ?d e r
          | (Inr (mf, output, msg), r) \<Rightarrow> mark_receiver_done ?d mf output msg r)"
        using Some False 2 by (simp add: finalize_receiver_session_def r1_def Let_def)
      show ?thesis
      proof (cases x)
        case (Inl msg)
        then show ?thesis using e unfolding r
          by (simp add: run_inv_def fin_effect_def fail_receiver_finalize_def merge_status_update)
      next
        case (Inr y)
        obtain mf out msg where y: "y = (mf, out, msg)" by (cases y) auto
        have "published env T (rc_world r2)" using e Inr by blast
        then show ?thesis using e unfolding r Inr y
          by (simp add: run_inv_def fin_effect_def mark_receiver_done_def)
      qed
    qed
  qed
qed

lemma timer_effect:
  assumes ok: "transfer_ok env T" and inv: "run_inv env T r"
  shows "run_inv env T (timer_fires env (tr_dir env T) r) \<and> fin_effect env T (rc_world r) (rc_world (timer_fires env (tr_dir env T) r))"
proof (cases "map_of (rc_sessions r) (tr_dir env T)")
  case None
  then show ?thesis using inv by (simp add: timer_fires_def run_inv_def fin_effect_def)
next
  case (Some st)
  let ?r = "r\<lparr>rc_sessions := AList.update (tr_dir env T) (st\<lparr>rss_timer := False\<rparr>) (rc_sessions r)\<rparr>"
  have "merge_status (tr_dir env T) ?r = merge_status (tr_dir env T) r"
    using Some by (simp add: merge_status_def update_conv')
  then have i: "run_inv env T ?r" using inv by (simp add: run_inv_def)
  show ?thesis
  proof (cases "rss_timer st")
    case True
    then show ?thesis using finalize_session_effect [OF ok i] Some by (simp add: timer_fires_def)
  next
    case False
    then show ?thesis using inv Some by (simp add: timer_fires_def run_inv_def fin_effect_def)
  qed
qed

lemma step_effect:
  assumes ok: "transfer_ok env T" and inv: "run_inv env T r" and e: "event_of T e"
  shows "run_inv env T (receiver_step env T e r)"
    "\<And>g. event_geom e \<noteq> Some g \<Longrightarrow> g \<in> safe_chunks env T (rc_world r) \<Longrightarrow> g \<in> safe_chunks env T (rc_world (receiver_step env T e r))"
proof -
  have s: "session_inv env T (rc_world r)" using inv by (simp add: run_inv_def)
  have "run_inv env T (receiver_step env T e r) \<and> (\<forall>g. event_geom e \<noteq> Some g \<longrightarrow> g \<in> safe_chunks env T (rc_world r) \<longrightarrow>
      g \<in> safe_chunks env T (rc_world (receiver_step env T e r)))"
  proof (cases e)
    case (Conn now h c)
    obtain ack r' where run: "handle_conn env now h c r = (ack, r')" by force
    have "of_transfer T h c" using e Conn by simp
    note f = conjunct1 [OF handle_conn_effect [OF ok this s run]]
    have "receiver_step env T e r = r'" using Conn run by simp
    then show ?thesis using f inv Conn
      by (auto simp: conn_effect_def chunk_effect_def run_inv_def safe_chunks_def)
  next
    case Fire
    then show ?thesis using timer_effect [OF ok inv] held_in_plan [OF s]
      by (auto simp: safe_chunks_def fin_effect_def)
  qed
  then show "run_inv env T (receiver_step env T e r)"
    "\<And>g. event_geom e \<noteq> Some g \<Longrightarrow> g \<in> safe_chunks env T (rc_world r) \<Longrightarrow> g \<in> safe_chunks env T (rc_world (receiver_step env T e r))"
    by blast+
qed

lemma run_effect:
  assumes ok: "transfer_ok env T"
  shows "run_inv env T r \<Longrightarrow> list_all (event_of T) es \<Longrightarrow> run_inv env T (receiver_run env T es r)"
    "run_inv env T r \<Longrightarrow> list_all (event_of T) es \<Longrightarrow> Some g \<notin> event_geom ` set es \<Longrightarrow> g \<in> safe_chunks env T (rc_world r) \<Longrightarrow>
      g \<in> safe_chunks env T (rc_world (receiver_run env T es r))"
  by (induction es arbitrary: r) (auto simp: receiver_run_def step_effect [OF ok])

end
