(* ===== verification/ReceiverLive.thy ===== *)
theory ReceiverLive
  imports ReceiverFinal
begin

text \<open>
  The properties of the runs of a receiving session: a session that reports its merge as done has
  published the source, an acknowledged chunk is not lost, and a session whose chunks are all there
  publishes the source at the next expiry of its timer if the file calls work from then on.
\<close>

section \<open>Without faults\<close>

definition calm :: "world \<Rightarrow> bool" where
  "calm w \<longleftrightarrow> (\<forall>n\<ge>w_tick w. \<not> w_fault w n)"

lemma calm_ops [simp]: "calm w \<Longrightarrow> calm (tick w)" "calm (put_node p n w) = calm w" "calm (del_node p w) = calm w"
  by (simp_all add: calm_def tick_def put_node_def del_node_def)

lemma calm_faulty [simp]: "calm w \<Longrightarrow> \<not> faulty w"
  by (simp add: calm_def faulty_def)

lemma calm_calls:
  assumes "calm w"
  shows "node_at w p = Some (File b) \<Longrightarrow> fs_read p w = (Inr b, tick w)"
    "node_at w p \<noteq> Some Dir \<Longrightarrow> fs_create p w = (Inr (), put_node p (File '''') (tick w))"
    "node_at w p = Some (File b) \<Longrightarrow> fs_append p d w = (Inr (), put_node p (File (b @ d)) (tick w))"
    "fs_step w = (Inr (), tick w)"
    "node_at w q \<noteq> Some Dir \<Longrightarrow> node_at w p = Some n \<Longrightarrow> fs_rename p q w = (Inr (), put_node q n (del_node p (tick w)))"
    "node_at w p = Some (File b) \<Longrightarrow> fs_remove p w = (Inr (), del_node p (tick w))"
  using assms by (simp_all add: fs_read_def fs_create_def fs_append_def fs_step_def fs_rename_def fs_remove_def)

lemma calm_merge_list:
  assumes "\<And>c. c \<in> set cs \<Longrightarrow> validate_receiver_path (rv_cwd env) dir (chunk_file dir name (cs_index c)) = Inr ()"
    and "calm w" "node_at w (out @ ''.tmp'') = Some (File acc)"
    and "list_all2 (part_in w (\<lambda>c. chunk_file dir name (cs_index c))) cs ps"
  shows "\<exists>w'. merge_chunk_list env dir name (out @ ''.tmp'') cs w = (Inr (), w') \<and> calm w'
     \<and> node_at w' (out @ ''.tmp'') = Some (File (acc @ concat ps))
     \<and> (\<forall>q. q \<noteq> out @ ''.tmp'' \<longrightarrow> node_at w' q = node_at w q)"
  using assms
proof (induction cs arbitrary: w acc ps)
  case Nil
  then show ?case by (simp add: io_return_def)
next
  case (Cons c cs)
  let ?o = "out @ ''.tmp''" and ?p = "chunk_file dir name (cs_index c)"
  obtain b qs where ps: "ps = b # qs" "node_at w ?p = Some (File b)" "int (length b) = cs_size c"
    "list_all2 (part_in w (\<lambda>c. chunk_file dir name (cs_index c))) cs qs"
    using Cons.prems(4) by (auto simp: list_all2_Cons1 part_in_def [of w _ c])
  define w1 where "w1 = put_node ?o (File (acc @ b)) (tick (tick w))"
  have "fs_append ?o b (tick w) = (Inr (), w1)"
    using calm_calls(3) [of "tick w" ?o acc b] Cons.prems(2,3) by (simp add: w1_def)
  then have "copy_parts (\<lambda>c. chunk_file dir name (cs_index c)) ?o [c] w = (Inr (), w1)"
    using calm_calls(1) [OF Cons.prems(2) ps(2)] ps(3)
    by (simp add: io_bind_def io_return_def)
  then have e: "merge_chunk_list env dir name ?o (c # cs) w = merge_chunk_list env dir name ?o cs w1"
    using Cons.prems(1) [of c] by (simp add: io_bind_def io_lift_def del: copy_parts.simps)
  have "part_in w1 (\<lambda>c. chunk_file dir name (cs_index c)) = part_in w (\<lambda>c. chunk_file dir name (cs_index c))"
    using recv_parts.apart by (auto simp: fun_eq_iff w1_def intro!: part_in_cong)
  with Cons.IH [of w1 "acc @ b" qs] Cons.prems ps(4) show ?case unfolding e ps(1)
    by (auto simp: w1_def)
qed

lemma session_paths_valid:
  assumes "transfer_ok env T" "plain a"
  shows "validate_receiver_path (rv_cwd env) (tr_dir env T) (join_path [tr_dir env T, a]) = Inr ()"
proof -
  obtain v ds where d: "drive v" "list_all plain ds" "ds \<noteq> []" "tr_dir env T = abs_of v ds"
    using tr_dir_form [OF assms(1)] by blast
  have "join_path [tr_dir env T, a] = abs_of v (ds @ [a])" using d assms(2) by simp
  moreover have "is_under (rv_cwd env) (abs_of v (ds @ [a])) (abs_of v ds)" using under_child d assms(2) by simp
  moreover have "abs_path (rv_cwd env) (abs_of v cs) = abs_of v cs" if "list_all plain cs" for cs
    using d(1) that by simp
  ultimately show ?thesis using d assms(2) by (simp add: validate_receiver_path_def)
qed

lemma calm_check_existing:
  assumes "calm w" "node_at w p \<noteq> Some Dir"
  obtains b w' where "check_existing_final p n w = (Inr b, w')" "calm w'" "node_at w' p \<noteq> Some Dir"
    "\<And>q. q \<noteq> p \<Longrightarrow> node_at w' q = node_at w q"
proof (cases "node_at w p")
  case None
  then have "check_existing_final p n w = (Inr False, tick w)"
    using assms by (simp add: check_existing_final_def io_bind_def io_try_def fs_stat_def io_return_def)
  then show ?thesis using that assms by simp
next
  case (Some nd)
  show ?thesis
  proof (cases nd)
    case (File b)
    show ?thesis
    proof (cases "int (length b) = n")
      case True
      then have "check_existing_final p n w = (Inr True, tick w)"
        using assms Some File by (simp add: check_existing_final_def io_bind_def io_try_def fs_stat_def io_return_def)
      then show ?thesis using that assms by simp
    next
      case False
      then have "check_existing_final p n w = (Inr False, del_node p (tick (tick w)))"
        using assms Some File calm_calls(6) [of "tick w" p b]
        by (simp add: check_existing_final_def io_bind_def io_try_def fs_stat_def io_return_def)
      then show ?thesis using that assms by simp
    qed
  next
    case Symlink
    then have "check_existing_final p n w = (Inr False, tick w)"
      using assms Some by (simp add: check_existing_final_def io_bind_def io_try_def fs_stat_def io_return_def)
    then show ?thesis using that assms by simp
  qed (use assms Some in simp)
qed

lemma manifest_complete:
  assumes "mf_ok env T m" "tr_source T \<noteq> ''''"
  shows "validate_manifest_complete m = Inr ()"
proof -
  have d: "list_all (\<lambda>c. cs_status c = StatusDone) (mf_chunks m)" "0 < mf_total_bytes m"
    using assms by (simp_all add: mf_ok_def)
  have "StatusDone \<noteq> StatusFailed" by code_simp
  then have "filter (\<lambda>c. cs_status c = StatusDone) (mf_chunks m) = mf_chunks m"
    "filter (\<lambda>c. cs_status c = StatusFailed) (mf_chunks m) = []"
    using d(1) by (auto simp: list_all_iff filter_id_conv filter_empty_conv)
  then show ?thesis using d(2) by (simp add: validate_manifest_complete_def count_status_def)
qed

lemma chunk_path_plain: "transfer_ok env T \<Longrightarrow> plain (chunk_name T g)"
  by (intro plain_chunk_name good_plain)

text \<open>The final file stays when a merge goes on after its publication.\<close>

lemma publish_rest:
  assumes ok: "transfer_ok env T" and t: "tgt_address (mf_target m) = ''''"
    and m: "io_on_error (merge_receiver_chunks env (final_path env T @ ''.tmp'') (tr_dir env T) m) g w = (Inr u, w1)"
    and r: "io_on_error (fs_rename (final_path env T @ ''.tmp'') (final_path env T)) g w1 = (Inr u', w2)"
  shows "node_at (snd (merge_and_publish env (tr_dir env T) m (final_path env T) w)) (final_path env T) = node_at w2 (final_path env T)"
proof -
  let ?F = "final_path env T" and ?t = "final_path env T @ ''.tmp''"
  have m': "io_on_error (merge_receiver_chunks env ?t (tr_dir env T) m) (fs_remove ?t) w = (Inr u, w1)"
    and r': "io_on_error (fs_rename ?t ?F) (fs_remove ?t) w1 = (Inr u', w2)"
    using m r by (simp_all add: io_on_error_Inr)
  obtain r3 w3 where 3: "validate_final_size ?F (mf_total_bytes m) w2 = (r3, w3)" by force
  have "touches {} (validate_final_size ?F (mf_total_bytes m))"
    unfolding validate_final_size_def by (intro touches_bind) auto
  then have n3: "node_at w3 ?F = node_at w2 ?F" using touchesD 3 by blast
  obtain r4 w4 where 4: "cleanup_receiver_chunks (tr_dir env T) w3 = (r4, w4)" by force
  have "merge_and_publish env (tr_dir env T) m ?F w =
      io_bind (validate_final_size ?F (mf_total_bytes m)) (\<lambda>_.
      io_bind (cleanup_receiver_chunks (tr_dir env T)) (\<lambda>_. io_return ?F)) w2"
    using t m' r' by (simp add: merge_and_publish_def Let_def io_bind_return io_bind_run)
  then have "snd (merge_and_publish env (tr_dir env T) m ?F w) = (case r3 of Inl _ \<Rightarrow> w3 | Inr _ \<Rightarrow> w4)"
    using 3 4 by (cases r3; cases r4) (simp_all add: io_bind_run io_return_def)
  then show ?thesis using n3 cleanup_session(2) [OF ok 4] by (cases r3) simp_all
qed

lemma calm_merge:
  assumes ok: "transfer_ok env T" and calm: "calm w" and m: "mf_ok env T m"
    and full: "cs_geom ` set (mf_chunks m) = set (tr_plan T)"
    and there: "\<And>g. g \<in> set (tr_plan T) \<Longrightarrow> node_at w (chunk_path env T g) = Some (File (file_slice (tr_source T) g))"
    and free: "node_at w (final_path env T) \<noteq> Some Dir" "node_at w (final_path env T @ ''.tmp'') \<noteq> Some Dir"
  shows "node_at (snd (merge_and_publish env (tr_dir env T) m (final_path env T) w)) (final_path env T) = Some (File (tr_source T))"
proof -
  let ?F = "final_path env T" and ?t = "final_path env T @ ''.tmp''" and ?d = "tr_dir env T"
  let ?cs = "sort_by_index (mf_chunks m)" and ?p = "\<lambda>c. chunk_file (tr_dir env T) (tr_name T) (cs_index c)"
  have t: "tiling 0 0 (int (length (tr_source T))) (tr_plan T)" using ok by (simp add: transfer_ok_def)
  have mm: "mf_file_name m = tr_name T" "distinct (map cs_index (mf_chunks m))" "tgt_address (mf_target m) = ''''"
    using m by (simp_all add: mf_ok_def)
  have g: "cs_geom c \<in> set (tr_plan T)" if "c \<in> set ?cs" for c using that full by (auto simp: sort_by_index_props)
  have p: "?p c = chunk_path env T (cs_geom c)" for c :: chunk_state by (simp add: cs_geom_def)
  define ps where "ps = map (\<lambda>c. file_slice (tr_source T) (cs_geom c)) ?cs"
  have "concat ps = concat (map (file_slice (tr_source T)) (map cs_geom ?cs))" by (simp add: ps_def comp_def)
  also have "\<dots> = tr_source T" unfolding sorted_plan [OF t mm(2) full] using tiling_concat [OF t, of "tr_source T"] by simp
  finally have src: "concat ps = tr_source T" .
  define w1 where "w1 = put_node ?t (File '''') (tick w)"
  have c1: "fs_create ?t w = (Inr (), w1)" using calm_calls(2) [OF calm free(2)] by (simp add: w1_def)
  have "part_in w1 ?p c (file_slice (tr_source T) (cs_geom c))" if "c \<in> set ?cs" for c
    using there [OF g [OF that]] slice_size [OF ok g [OF that]] recv_parts.apart
    by (simp add: part_in_def w1_def p [symmetric]) (simp add: cs_geom_def)
  then have parts: "list_all2 (part_in w1 ?p) ?cs ps" by (simp add: ps_def list_all2_conv_all_nth)
  have v: "validate_receiver_path (rv_cwd env) ?d (?p c) = Inr ()" for c :: chunk_state
    using session_paths_valid [OF ok chunk_path_plain [OF ok, of "cs_geom c"]] unfolding p chunk_path_form .
  have vt: "validate_receiver_path (rv_cwd env) ?d ?t = Inr ()"
    using session_paths_valid [OF ok plain_tmp [OF good_plain [OF ok]]]
      in_dir(3) [OF ok good_plain [OF ok] plain_tmp [OF good_plain [OF ok]]] by simp
  obtain w2 where w2: "merge_chunk_list env ?d (tr_name T) ?t ?cs w1 = (Inr (), w2)" "calm w2"
    "node_at w2 ?t = Some (File (concat ps))" "\<forall>q. q \<noteq> ?t \<longrightarrow> node_at w2 q = node_at w1 q"
    using calm_merge_list [OF v _ _ parts, of ?F "''''"] calm by (auto simp: w1_def)
  have "merge_receiver_chunks env ?t ?d m w = (Inr (), tick w2)"
    using vt c1 w2(1) calm_calls(4) [OF w2(2)] mm(1)
    by (simp add: merge_receiver_chunks_def io_bind_def io_lift_def io_defer_def)
  then have m1: "io_on_error (merge_receiver_chunks env ?t ?d m) (io_return ()) w = (Inr (), tick w2)"
    by (simp add: io_on_error_Inr)
  have "node_at (tick w2) ?F \<noteq> Some Dir" using w2(4) free(1) by (simp add: w1_def)
  then have "fs_rename ?t ?F (tick w2) = (Inr (), put_node ?F (File (concat ps)) (del_node ?t (tick (tick w2))))"
    using calm_calls(5) [of "tick w2" ?F ?t "File (concat ps)"] w2(2,3) by simp
  then have r1: "io_on_error (fs_rename ?t ?F) (io_return ()) (tick w2)
      = (Inr (), put_node ?F (File (concat ps)) (del_node ?t (tick (tick w2))))" by (simp add: io_on_error_Inr)
  show ?thesis using publish_rest [OF ok mm(3) m1 r1] src by simp
qed

lemma io_bind_lift: "io_bind (io_lift (Inr x)) g = g x"
  by (simp add: io_bind_def io_lift_def fun_eq_iff)

lemma calm_finalize:
  assumes ok: "transfer_ok env T" and inv: "session_inv env T w" and calm: "calm w"
    and full: "held env T w = set (tr_plan T)"
    and free: "node_at w (final_path env T) \<noteq> Some Dir" "node_at w (final_path env T @ ''.tmp'') \<noteq> Some Dir"
  shows "published env T (snd (finalize_io env (tr_dir env T) w))"
proof -
  let ?F = "final_path env T" and ?d = "tr_dir env T" and ?M = "manifest_path (tr_dir env T)"
  have "tr_plan T \<noteq> []" using ok by (auto simp: transfer_ok_def)
  then have "recorded env T w \<noteq> {}" using full by (auto simp: held_def)
  moreover have "manifest_inv env T w" using inv by (simp add: session_inv_def)
  ultimately obtain b m where b: "node_at w ?M = Some (File b)" "rv_unmarshal env b = Inr m" "mf_ok env T m"
    "recorded env T w = cs_geom ` set (mf_chunks m)" by (elim manifest_inv_cases) simp_all
  have geoms: "cs_geom ` set (mf_chunks m) = set (tr_plan T)"
    using full b(3,4) by (auto simp: held_def mf_ok_def)
  have there: "node_at w (chunk_path env T g) = Some (File (file_slice (tr_source T) g))" if "g \<in> set (tr_plan T)" for g
    using that full by (auto simp: held_def)
  have n: "normalize_for_resume 3 m = m" using b(3) normalize_done by (simp add: mf_ok_def)
  have l: "load_file (rv_unmarshal env) ?M w = (Inr m, tick w)"
    using calm_calls(1) [OF calm b(1)] b(2) n by (simp add: load_file_def io_bind_def io_lift_def load_manifest_def)
  have F: "receiver_final_path ?d m = ?F" "mf_total_bytes m = int (length (tr_source T))"
    using b(3) by (simp_all add: mf_ok_def receiver_final_path_def)
  have v: "validate_manifest_complete m = Inr ()" "validate_receiver_path (rv_cwd env) ?d ?F = Inr ()"
    using manifest_complete [OF b(3)] ok session_paths_valid [OF ok good_plain [OF ok]] by (simp_all add: transfer_ok_def)
  have c1: "calm (tick w)" "node_at (tick w) ?F \<noteq> Some Dir" using calm free by simp_all
  obtain old w1 where 1: "check_existing_final ?F (int (length (tr_source T))) (tick w) = (Inr old, w1)" "calm w1"
    "node_at w1 ?F \<noteq> Some Dir" "\<And>q. q \<noteq> ?F \<Longrightarrow> node_at w1 q = node_at w q"
    using calm_check_existing [OF c1, of "int (length (tr_source T))"] by (metis node_at_tick)
  have e: "finalize_io env ?d w = (if old then io_return (m, ?F, ''already finalized'')
      else io_bind (merge_and_publish env ?d m ?F) (\<lambda>output. io_return (m, output, ''merged and cleaned''))) w1"
    using l v 1(1) by (simp add: finalize_io_def Let_def io_bind_run io_bind_lift F cong: if_cong)
  show ?thesis
  proof (cases old)
    case True
    have "fst (finalize_io env ?d w) = Inr (m, ?F, ''already finalized'')" using e True by (simp add: io_return_def)
    then show ?thesis using finalize_effect [OF ok inv prod.collapse [symmetric]] by auto
  next
    case False
    have "\<And>g. g \<in> set (tr_plan T) \<Longrightarrow> node_at w1 (chunk_path env T g) = Some (File (file_slice (tr_source T) g))"
      "node_at w1 (?F @ ''.tmp'') \<noteq> Some Dir"
      using there free(2) 1(4) main_apart(3) [OF ok] by simp_all
    from calm_merge [OF ok 1(2) b(3) geoms this(1) 1(3) this(2)]
    have p: "node_at (snd (merge_and_publish env ?d m ?F w1)) ?F = Some (File (tr_source T))" .
    have "snd (finalize_io env ?d w) = snd (merge_and_publish env ?d m ?F w1)"
      using e False by (simp add: io_bind_def io_return_def split: prod.split sum.split)
    then show ?thesis using p by simp
  qed
qed

lemma calm_fire:
  assumes ok: "transfer_ok env T" and inv: "run_inv env T r" and calm: "calm (rc_world r)"
    and safe: "safe_chunks env T (rc_world r) = set (tr_plan T)"
    and free: "node_at (rc_world r) (final_path env T) \<noteq> Some Dir" "node_at (rc_world r) (final_path env T @ ''.tmp'') \<noteq> Some Dir"
    and st: "map_of (rc_sessions r) (tr_dir env T) = Some st" "rss_timer st" "rs_merge_status (rss_session st) \<noteq> ''running''"
  shows "published env T (rc_world (timer_fires env (tr_dir env T) r))"
proof (cases "published env T (rc_world r)")
  case True
  then show ?thesis using timer_effect [OF ok inv] by (simp add: fin_effect_def)
next
  case False
  let ?d = "tr_dir env T"
  have full: "held env T (rc_world r) = set (tr_plan T)" using safe False by (simp add: safe_chunks_def)
  have nd: "rs_merge_status (rss_session st) \<noteq> ''done''" using inv False st(1) by (auto simp: run_inv_def merge_status_def)
  have s: "session_inv env T (rc_world r)" using inv by (simp add: run_inv_def)
  define r1 where "r1 = update_receiver_session ?d (\<lambda>s. s\<lparr>rs_merge_status := ''running'',
      rs_merge_message := '''', rs_cleanup_status := ''pending''\<rparr>)
      (r\<lparr>rc_sessions := AList.update ?d (st\<lparr>rss_timer := False\<rparr>) (rc_sessions r)\<rparr>)"
  have w: "rc_world r1 = rc_world r" by (simp add: r1_def)
  obtain x r2 where 2: "on_world (finalize_io env ?d) r1 = (x, r2)" by force
  have "timer_fires env ?d r = (case (x, r2) of (Inl e, r) \<Rightarrow> fail_receiver_finalize ?d e r
      | (Inr (mf, output, msg), r) \<Rightarrow> mark_receiver_done ?d mf output msg r)"
    using st nd 2 by (simp add: timer_fires_def finalize_receiver_session_def r1_def Let_def update_conv')
  then have "rc_world (timer_fires env ?d r) = rc_world r2"
    by (auto simp: fail_receiver_finalize_def mark_receiver_done_def split: sum.split prod.split)
  moreover have "rc_world r2 = snd (finalize_io env ?d (rc_world r))" using 2 w by (auto simp: on_world_def Let_def split: prod.splits)
  ultimately show ?thesis using calm_finalize [OF ok s calm full free] by simp
qed

section \<open>Properties\<close>

text \<open>The chunks whose latest connection was answered with \<open>done\<close>.\<close>

fun acked :: "receiver_env \<Rightarrow> transfer \<Rightarrow> receiver_event list \<Rightarrow> receiver \<Rightarrow> geom set \<Rightarrow> geom set" where
  "acked env T [] r A = A"
| "acked env T (Conn now h c # es) r A =
     (case handle_conn env now h c r of (ack, r') \<Rightarrow>
        acked env T es r' (if (case ack of Some a \<Rightarrow> ack_status a = ''done'' | None \<Rightarrow> False)
          then insert (header_geom h) A else A - {header_geom h}))"
| "acked env T (Fire # es) r A = acked env T es (timer_fires env (tr_dir env T) r) A"

lemma acked_safe_step:
  assumes ok: "transfer_ok env T"
  shows "run_inv env T r \<Longrightarrow> list_all (event_of T) es \<Longrightarrow> A \<subseteq> safe_chunks env T (rc_world r) \<Longrightarrow>
    acked env T es r A \<subseteq> safe_chunks env T (rc_world (receiver_run env T es r))"
proof (induction es arbitrary: r A)
  case Nil
  then show ?case by (simp add: receiver_run_def)
next
  case (Cons e es)
  have e: "event_of T e" "list_all (event_of T) es" using Cons.prems by simp_all
  note s = step_effect [OF ok Cons.prems(1) e(1)]
  show ?case
  proof (cases e)
    case Fire
    then have "A \<subseteq> safe_chunks env T (rc_world (receiver_step env T e r))" using s(2) Cons.prems(3) by auto
    from Cons.IH [OF s(1) e(2) this] show ?thesis using Fire by (simp add: receiver_run_def)
  next
    case (Conn now h c)
    obtain ack r' where run: "handle_conn env now h c r = (ack, r')" by force
    let ?done = "case ack of Some a \<Rightarrow> ack_status a = ''done'' | None \<Rightarrow> False"
    have r': "receiver_step env T e r = r'" using Conn run by simp
    have tr: "of_transfer T h c" "session_inv env T (rc_world r)" using e(1) Conn Cons.prems(1) by (simp_all add: run_inv_def)
    have 1: "header_geom h \<in> safe_chunks env T (rc_world r')" if ?done
      using conjunct2 [OF handle_conn_effect [OF ok tr run]] that by (auto simp: safe_chunks_def split: option.splits)
    have 2: "g \<in> safe_chunks env T (rc_world r')" if "g \<in> A" "g \<noteq> header_geom h" for g
      using s(2) [of g] that Cons.prems(3) Conn r' by auto
    have "(if ?done then insert (header_geom h) A else A - {header_geom h}) \<subseteq> safe_chunks env T (rc_world r')"
    proof
      fix g assume "g \<in> (if ?done then insert (header_geom h) A else A - {header_geom h})"
      then show "g \<in> safe_chunks env T (rc_world r')"
        using 1 2 [of g] by (cases "g = header_geom h") (auto split: if_splits)
    qed
    from Cons.IH [OF s(1) [unfolded r'] e(2) this] show ?thesis using Conn run r' by (simp add: receiver_run_def)
  qed
qed

text \<open>
  C18: a session that reports its merge as done has published the source. In every run of connections
  of one transfer and timer expiries on a fresh session, with every file call free to fail, whenever the
  merge status is \<open>done\<close>, the file at the final path is the source, byte for byte.
\<close>

theorem receiver_done_is_source:
  assumes "transfer_ok env T" "fresh_session env T r" "list_all (event_of T) es"
    and "merge_status (tr_dir env T) (receiver_run env T es r) = ''done''"
  shows "node_at (rc_world (receiver_run env T es r)) (final_path env T) = Some (File (tr_source T))"
  using run_effect(1) [OF assms(1) run_inv_fresh [OF assms(2)] assms(3)] assms(4) by (simp add: run_inv_def)



end
