(* ===== verification/ReceiverDemo.thy ===== *)
theory ReceiverDemo
  imports ReceiverLive
begin

text \<open>
  A concrete session, run step by step: the witnesses of the properties of theory ReceiverLive, and the
  behaviours of the finalisation that those properties exclude by their hypotheses.
\<close>

section \<open>A session with one chunk\<close>

text \<open>
  The paths are constants, with the facts on them that a run needs, so that the simplifier can run the
  file operations without looking into the strings.
\<close>

lemma io_bind_weak: "f = f' \<Longrightarrow> io_bind f g = io_bind f' g" by simp

lemmas io_run = io_bind_def io_try_def io_lift_def io_return_def io_fail_def io_on_error_def io_defer_def io_ignore_def
  fs_lstat_def fs_stat_def fs_read_def fs_create_def fs_append_def fs_step_def fs_remove_def fs_rename_def fs_mkdir_all_def
  fs_create_temp_def fs_create_excl_def fs_glob_def fs_remove_if_exists_def
  on_world_def

definition rd_dir :: string where "rd_dir = demo_root @ bs # ''a.bin_t1''"

definition rd_mf :: string where "rd_mf = rd_dir @ bs # ''manifest.json''"

definition rd_mf_tmp :: string where "rd_mf_tmp = rd_dir @ bs # ''manifest.json.tmp''"

definition rd_chunk :: string where "rd_chunk = rd_dir @ bs # ''a.bin.chunk000001''"

definition rd_final :: string where "rd_final = rd_dir @ bs # ''a.bin''"

definition rd_final_tmp :: string where "rd_final_tmp = rd_dir @ bs # ''a.bin.tmp''"

definition rd_incoming :: string where "rd_incoming = rd_dir @ bs # ''.incoming-12.tmp''"

definition rd_transfer :: transfer where
  "rd_transfer = \<lparr>tr_id = ''t1'', tr_name = ''a.bin'', tr_source = ''ab'', tr_plan = [(0, 0, 2)]\<rparr>"

definition rd_head :: header where
  "rd_head = \<lparr>h_message_type = ''chunk_start'', h_transfer_id = ''t1'', h_file_name = ''a.bin'', h_part_index = 1,
     h_total_parts = 1, h_part_size = 2, h_chunk_index = 0, h_offset = 0, h_total_bytes = 2, h_lab = False, h_lab_path = '''',
     h_receive_rel_path = '''', h_publish_name = '''', h_folder_result = '''',
     h_chunk_sha256 = hex_encode (demo_sha ''ab''), h_auth = ''''\<rparr>"

definition rd_man :: manifest where
  "rd_man = \<lparr>mf_schema_version = 1, mf_transfer_id = ''t1'', mf_type = ''p2p'', mf_file_name = ''a.bin'',
      mf_total_bytes = 2, mf_chunk_size = 2, mf_created_at = 5, mf_updated_at = 5,
      mf_source = \<lparr>src_type = ''p2p'', src_address = '''', src_url = '''', src_identity = '''', src_abs_path = '''', src_mod_time = 0\<rparr>,
      mf_target = \<lparr>tgt_type = ''p2p'', tgt_address = '''', tgt_path = rd_dir\<rparr>,
      mf_chunks = [zero_chunk\<lparr>cs_size := 2, cs_status := StatusDone, cs_bytes_done := 2\<rparr>]\<rparr>"

definition rd_env :: receiver_env where
  "rd_env = demo_env (\<lambda>m. if m = rd_man then Inr ''m'' else Inl '''') (\<lambda>b. if b = ''m'' then Inr rd_man else Inl '''')"

definition rd_start :: receiver where
  "rd_start = \<lparr>rc_world = (demo_world (\<lambda>n. False) [])\<lparr>w_tick := 10\<rparr>, rc_sessions = []\<rparr>"

definition rd_conn :: conn where "rd_conn = \<lparr>cn_payload = ''ab'', cn_ack_ok = True\<rparr>"

lemma rd_demo_paths: "join_path [rd_dir, ''manifest.json''] = rd_mf" "rd_mf @ ''.tmp'' = rd_mf_tmp" "chunk_file rd_dir ''a.bin'' 0 = rd_chunk" "join_path [rd_dir, ''a.bin''] = rd_final" "rd_final @ ''.tmp'' = rd_final_tmp" 
  "temp_name rd_dir ''.incoming-'' ''.tmp'' 12 = rd_incoming" "dir_name rd_mf = rd_dir" by code_simp+

lemma rd_demo_apart: "rd_dir \<noteq> rd_mf" "rd_dir \<noteq> rd_mf_tmp" "rd_dir \<noteq> rd_chunk" "rd_dir \<noteq> rd_final" "rd_dir \<noteq> rd_final_tmp" "rd_dir \<noteq> rd_incoming"
  "rd_mf \<noteq> rd_mf_tmp" "rd_mf \<noteq> rd_chunk" "rd_mf \<noteq> rd_final" "rd_mf \<noteq> rd_final_tmp" "rd_mf \<noteq> rd_incoming" "rd_mf_tmp \<noteq> rd_chunk" "rd_mf_tmp \<noteq> rd_final" "rd_mf_tmp \<noteq> rd_final_tmp" "rd_mf_tmp \<noteq> rd_incoming"
  "rd_chunk \<noteq> rd_final" "rd_chunk \<noteq> rd_final_tmp" "rd_chunk \<noteq> rd_incoming" "rd_final \<noteq> rd_final_tmp" "rd_final \<noteq> rd_incoming" "rd_final_tmp \<noteq> rd_incoming" by code_simp+

lemma rd_demo_valid: "validate_receiver_path demo_root rd_dir rd_chunk = Inr ()" "validate_receiver_path demo_root rd_dir rd_final = Inr ()" "validate_receiver_path demo_root rd_dir rd_final_tmp = Inr ()" by code_simp+

lemma rd_demo_patterns: "\<not> has_suffix rd_chunk ''.tmp''" "pattern_ok (join_path [rd_dir, ''*.chunk*''])" by code_simp+

lemma rd_demo_globs: "glob_match (join_path [rd_dir, ''*.chunk*'']) rd_chunk" "\<not> glob_match (join_path [rd_dir, ''*.chunk*'']) rd_final" "\<not> glob_match (join_path [rd_dir, ''*.chunk*'']) rd_mf" "\<not> glob_match (join_path [rd_dir, ''*.chunk*'']) rd_dir" 
  by code_simp+

lemma rd_demo_header: "h_lab rd_head = False" "\<not> is_pull_header rd_head" "base_name (h_file_name rd_head) = ''a.bin''" "h_transfer_id rd_head = ''t1''" "h_part_size rd_head = 2" "h_chunk_index rd_head = 0" "h_offset rd_head = 0" "h_total_bytes rd_head = 2"
  "session_dir_of rd_env rd_head demo_root = rd_dir" "base_name ''a.bin'' = ''a.bin''"
proof -
  have s: "join_path [abs_path demo_root demo_root, ''a.bin'' @ CHR ''_'' # safe_transfer_id ''t1''] = rd_dir"
    "trim_space '''' = ''''" by code_simp+
  show b: "base_name ''a.bin'' = ''a.bin''" by code_simp
  show p: "\<not> is_pull_header rd_head" by (simp add: is_pull_header_def rd_head_def s(2))
  have "h_file_name rd_head = ''a.bin''" "h_transfer_id rd_head = ''t1''" "rv_cwd rd_env = demo_root"
    by (simp_all add: rd_head_def rd_env_def demo_env_def)
  then show "session_dir_of rd_env rd_head demo_root = rd_dir" "base_name (h_file_name rd_head) = ''a.bin''"
    using s(1) b p by (simp_all add: session_dir_of_def Let_def)
qed (simp_all add: rd_head_def)

lemma rd_demo_validate: "validate_header rd_head = Inr ()"
proof -
  have l: "length (hex_encode b) = 2 * length b" for b by (induction b) simp_all
  have "length (demo_sha ''ab'') = 32" "sha256_size = 32" by (simp_all add: demo_sha_def sha256_size_def)
  moreover have "trim_space ''a.bin'' \<noteq> []" "list_all id_char ''t1''" by code_simp+
  ultimately show ?thesis by (simp add: validate_header_def rd_head_def l i64_def)
qed

lemma rd_demo_under: "is_under demo_root (abs_path demo_root rd_dir) (abs_path demo_root demo_root)" "is_under demo_root (abs_path demo_root rd_chunk) (abs_path demo_root rd_dir)" by code_simp+

lemma rd_demo_env: "rv_cwd rd_env = demo_root" "rv_receive_path rd_env = demo_root" "rv_sha rd_env = demo_sha" "verify_header (rv_hmac rd_env) (rv_secret rd_env) rd_head"
  "rv_marshal rd_env = (\<lambda>m. if m = rd_man then Inr ''m'' else Inl '''')" "rv_unmarshal rd_env = (\<lambda>b. if b = ''m'' then Inr rd_man else Inl '''')"
  by (simp_all add: rd_env_def demo_env_def verify_header_def)

lemma rd_demo_hash: "h_chunk_sha256 rd_head = hex_encode (demo_sha ''ab'')" "equal_fold x x"
  by (simp_all add: rd_head_def equal_fold_def)

lemma rd_demo_record:
  "record_chunk 5 rd_head 2 (new_receiver_manifest 5 rd_dir ''a.bin'' rd_head) = Inr rd_man"
  "rd_man\<lparr>mf_updated_at := 5\<rparr> = rd_man"
  "mf_chunks rd_man = [zero_chunk\<lparr>cs_size := 2, cs_status := StatusDone, cs_bytes_done := 2\<rparr>]"
  by (simp_all add: record_chunk_def new_receiver_manifest_def receiver_target_info_def get_chunk_def zero_chunk_def
      rd_man_def rd_demo_header)

lemma rd_demo_manifest: "load_manifest (Inr rd_man) = Inr rd_man" "validate_manifest_complete rd_man = Inr ()" "receiver_final_path rd_dir rd_man = rd_final" "mf_total_bytes rd_man = 2" "tgt_address (mf_target rd_man) = ''''" "mf_file_name rd_man = ''a.bin''" "sort_by_index (mf_chunks rd_man) = mf_chunks rd_man" by code_simp+

definition rd_world :: "(string \<times> node) list \<Rightarrow> nat \<Rightarrow> world" where "rd_world ns k = (demo_world (\<lambda>n. False) ns)\<lparr>w_tick := k\<rparr>"

lemma rd_world [simp]: "faulty (rd_world ns k) = False" "tick (rd_world ns k) = rd_world ns (Suc k)" "node_at (rd_world ns k) p = map_of ns p"
  "put_node p n (rd_world ns k) = rd_world (AList.update p n ns) k" "del_node p (rd_world ns k) = rd_world (AList.delete p ns) k"
  "w_random (rd_world ns k) j = j" "w_tick (rd_world ns k) = k" "w_nodes (rd_world ns k) = ns"
  by (simp_all add: rd_world_def demo_world_def faulty_def tick_def node_at_def put_node_def del_node_def)

lemmas rd_ne = rd_demo_apart rd_demo_apart[symmetric]

lemma rd_run_open: "open_session rd_env rd_head (rd_world [] 10) = (Inr rd_dir, rd_world [(rd_dir, Dir)] 11)"
  by (simp add: open_session_def receive_root_def rd_demo_paths rd_demo_header rd_demo_under rd_demo_env io_run Let_def cong: io_bind_weak)

lemma rd_run_match1: "receiver_chunk_matches rd_env rd_chunk rd_head (rd_world [(rd_dir, Dir)] 11) = (Inr False, rd_world [(rd_dir, Dir)] 12)"
  by (simp add: receiver_chunk_matches_def rd_ne io_run)

lemma rd_run_receive: "receive_chunk_to_temp rd_env ''ab'' rd_dir rd_head (rd_world [(rd_dir, Dir)] 12) = (Inr (rd_incoming, 2), rd_world [(rd_dir, Dir), (rd_incoming, File ''ab'')] 16)"
  by (simp add: receive_chunk_to_temp_def store_chunk_def copy_to_temp_def rd_demo_hash rd_demo_env rd_demo_paths rd_demo_header rd_ne io_run Let_def cong: io_bind_weak)

lemma rd_run_place: "place_chunk rd_env rd_chunk rd_incoming rd_head (rd_world [(rd_dir, Dir), (rd_incoming, File ''ab'')] 16) = (Inr (), rd_world [(rd_dir, Dir), (rd_chunk, File ''ab'')] 19)"
  by (simp add: place_chunk_def receiver_chunk_matches_def rd_ne io_run cong: io_bind_weak)

lemma rd_run_update: "update_manifest_io rd_env 5 rd_dir ''a.bin'' rd_head 2 (rd_world [(rd_dir, Dir), (rd_chunk, File ''ab'')] 19) = (Inr rd_man, rd_world [(rd_dir, Dir), (rd_chunk, File ''ab''), (rd_mf, File ''m'')] 26)"
  by (simp add: update_manifest_io_def open_manifest_def load_file_def save_manifest_def save_atomic_def write_sync_close_def rd_demo_paths rd_demo_header rd_demo_env rd_demo_record rd_ne io_run cong: io_bind_weak)

definition rd_state :: receiver_session_state where
  "rd_state = \<lparr>rss_session = zero_session\<lparr>rs_session_dir := rd_dir, rs_transfer_id := ''t1'', rs_file_name := ''a.bin'', rs_manifest_path := rd_mf,
    rs_status := ''receiving'', rs_chunks_total := 1, rs_chunks_done := 1, rs_chunks_failed := 0, rs_merge_status := ''pending'', rs_merge_message := ''''\<rparr>, rss_timer = True\<rparr>"

lemma rd_run_match2: "receiver_chunk_matches rd_env rd_chunk rd_head (rd_world [(rd_dir, Dir), (rd_incoming, File ''ab'')] 16) = (Inr False, rd_world [(rd_dir, Dir), (rd_incoming, File ''ab'')] 17)"
  by (simp add: receiver_chunk_matches_def rd_ne io_run)

lemma rd_demo_counts: "count_status StatusDone rd_man = 1" "count_status StatusFailed rd_man = 0" "length (mf_chunks rd_man) = 1" by code_simp+

lemma rd_run_conn: "handle_conn rd_env 5 rd_head rd_conn rd_start = (Some (done_ack rd_head 2), \<lparr>rc_world = rd_world [(rd_dir, Dir), (rd_chunk, File ''ab''), (rd_mf, File ''m'')] 27, rc_sessions = [(rd_dir, rd_state)]\<rparr>)"
  by (simp add: rd_demo_validate handle_conn_def accept_new_def publish_receiver_chunk_def update_receiver_manifest_file_def on_world_def
      ensure_receiver_session_def update_receiver_session_def maybe_schedule_finalize_def rd_start_def rd_conn_def rd_state_def
      rd_run_open rd_run_match1 rd_run_receive rd_run_place rd_run_update rd_demo_counts rd_demo_paths rd_demo_header rd_demo_under rd_demo_env Let_def zero_session_def rd_world_def [symmetric] rd_ne fs_remove_def)

lemma rd_run_finalize: "finalize_io rd_env rd_dir (rd_world [(rd_dir, Dir), (rd_chunk, File ''ab''), (rd_mf, File ''m'')] 27) = (Inr (rd_man, rd_final, ''merged and cleaned''), rd_world [(rd_dir, Dir), (rd_mf, File ''m''), (rd_final, File ''ab'')] 37)"
  by (simp add: finalize_io_def load_file_def check_existing_final_def merge_and_publish_def merge_receiver_chunks_def
    cleanup_receiver_chunks_def validate_final_size_def io_run rd_demo_paths sort_by_index_def zero_chunk_def rd_demo_valid rd_demo_patterns rd_demo_globs rd_demo_header rd_demo_env rd_demo_record rd_demo_manifest rd_ne Let_def cong: io_bind_weak)

lemma rd_tr: "tr_dir rd_env rd_transfer = rd_dir" "tr_id rd_transfer = ''t1''" "tr_name rd_transfer = ''a.bin''"
  "tr_source rd_transfer = ''ab''" "tr_plan rd_transfer = [(0, 0, 2)]"
proof -
  have "join_path [abs_path demo_root demo_root, ''a.bin'' @ CHR ''_'' # safe_transfer_id ''t1''] = rd_dir" by code_simp
  then show "tr_dir rd_env rd_transfer = rd_dir" by (simp add: tr_dir_def rd_transfer_def rd_demo_env)
qed (simp_all add: rd_transfer_def)

lemma rd_ok: "transfer_ok rd_env rd_transfer"
proof -
  have "no_meta rd_dir" "good_name ''a.bin''" "is_abs demo_root" "tiling 0 0 2 [(0, 0, 2)]" by code_simp+
  then show ?thesis by (simp add: transfer_ok_def rd_tr rd_demo_env)
qed

lemma rd_of: "of_transfer rd_transfer rd_head rd_conn"
proof -
  have "prefix ''ab'' (file_slice ''ab'' (0, 0, 2))" by code_simp
  then show ?thesis by (simp add: of_transfer_def rd_tr header_geom_def rd_demo_header rd_conn_def)
qed

lemma rd_fresh: "fresh_session rd_env rd_transfer rd_start"
  by (simp add: fresh_session_def rd_tr rd_start_def rd_world_def [symmetric])

lemma rd_runs:
  "receiver_run rd_env rd_transfer [Conn 5 rd_head rd_conn] rd_start = \<lparr>rc_world = rd_world [(rd_dir, Dir), (rd_chunk, File ''ab''), (rd_mf, File ''m'')] 27, rc_sessions = [(rd_dir, rd_state)]\<rparr>"
  "merge_status rd_dir (receiver_run rd_env rd_transfer [Conn 5 rd_head rd_conn, Fire] rd_start) = ''done''"
  by (simp_all add: receiver_run_def rd_run_conn rd_tr timer_fires_def finalize_receiver_session_def rd_state_def
      update_receiver_session_def on_world_def rd_run_finalize mark_receiver_done_def merge_status_def Let_def)

theorem receiver_done_is_source_witness:
  "node_at (rc_world (receiver_run rd_env rd_transfer [Conn 5 rd_head rd_conn, Fire] rd_start)) rd_final = Some (File ''ab'')"
  using receiver_done_is_source [OF rd_ok rd_fresh, of "[Conn 5 rd_head rd_conn, Fire]"] rd_of rd_runs
  by (simp add: rd_tr rd_demo_paths)

lemma rd_acked: "acked rd_env rd_transfer [Conn 5 rd_head rd_conn] rd_start {} = {(0, 0, 2)}"
  by (simp add: rd_run_conn done_ack_def header_geom_def rd_demo_header)



section \<open>What a finalisation does outside the hypotheses\<close>

text \<open>Three manifests: of a transfer with a missing chunk, of a file with an awkward name, of a pull.\<close>

definition rd_missing :: manifest where
  "rd_missing = rd_man\<lparr>mf_total_bytes := 4\<rparr>"

definition rd_read :: "manifest \<Rightarrow> receiver_env" where
  "rd_read m = demo_env (\<lambda>m. Inl '''') (\<lambda>b. Inr m)"

lemma rd_read_simps [simp]: "rv_cwd (rd_read m) = demo_root" "rv_unmarshal (rd_read m) = (\<lambda>b. Inr m)"
  by (simp_all add: rd_read_def demo_env_def)

lemma rd_missing_facts:
  "load_manifest (Inr rd_missing) = Inr rd_missing" "validate_manifest_complete rd_missing = Inr ()"
  "receiver_final_path rd_dir rd_missing = rd_final" "mf_total_bytes rd_missing = 4" "tgt_address (mf_target rd_missing) = ''''"
  "mf_file_name rd_missing = ''a.bin''"
  "mf_chunks rd_missing = [zero_chunk\<lparr>cs_size := 2, cs_status := StatusDone, cs_bytes_done := 2\<rparr>]"
  by code_simp+


definition rn_dir :: string where "rn_dir = demo_root @ bs # ''a.chunks_t1''"

definition rn_mf :: string where "rn_mf = rn_dir @ bs # ''manifest.json''"

definition rn_chunk :: string where "rn_chunk = rn_dir @ bs # ''a.chunks.chunk000001''"

definition rn_final :: string where "rn_final = rn_dir @ bs # ''a.chunks''"

definition rn_final_tmp :: string where "rn_final_tmp = rn_dir @ bs # ''a.chunks.tmp''"

definition rn_man :: manifest where
  "rn_man = rd_man\<lparr>mf_file_name := ''a.chunks'', mf_target := \<lparr>tgt_type = ''p2p'', tgt_address = '''', tgt_path = rn_dir\<rparr>\<rparr>"

lemma rn_paths: "join_path [rn_dir, ''manifest.json''] = rn_mf" "chunk_file rn_dir ''a.chunks'' 0 = rn_chunk"
  "rn_final @ ''.tmp'' = rn_final_tmp" by code_simp+

lemma rn_apart: "rn_dir \<noteq> rn_mf" "rn_dir \<noteq> rn_chunk" "rn_dir \<noteq> rn_final" "rn_dir \<noteq> rn_final_tmp" "rn_mf \<noteq> rn_chunk"
  "rn_mf \<noteq> rn_final" "rn_mf \<noteq> rn_final_tmp" "rn_chunk \<noteq> rn_final" "rn_chunk \<noteq> rn_final_tmp" "rn_final \<noteq> rn_final_tmp"
  by code_simp+

lemma rn_valid: "validate_receiver_path demo_root rn_dir rn_chunk = Inr ()" "validate_receiver_path demo_root rn_dir rn_final = Inr ()"
  "validate_receiver_path demo_root rn_dir rn_final_tmp = Inr ()" by code_simp+

lemma rn_globs: "\<not> has_suffix rn_chunk ''.tmp''" "\<not> has_suffix rn_final ''.tmp''" "pattern_ok (join_path [rn_dir, ''*.chunk*''])"
  "glob_match (join_path [rn_dir, ''*.chunk*'']) rn_chunk" "glob_match (join_path [rn_dir, ''*.chunk*'']) rn_final"
  "\<not> glob_match (join_path [rn_dir, ''*.chunk*'']) rn_mf" "\<not> glob_match (join_path [rn_dir, ''*.chunk*'']) rn_dir" by code_simp+

lemma rn_manifest: "load_manifest (Inr rn_man) = Inr rn_man" "validate_manifest_complete rn_man = Inr ()"
  "receiver_final_path rn_dir rn_man = rn_final" "mf_total_bytes rn_man = 2" "tgt_address (mf_target rn_man) = ''''"
  "mf_file_name rn_man = ''a.chunks''"
  "mf_chunks rn_man = [zero_chunk\<lparr>cs_size := 2, cs_status := StatusDone, cs_bytes_done := 2\<rparr>]" by code_simp+

text \<open>
  the cleaning of the chunk files deletes the published file when its name contains \<open>.chunk\<close>. For
  a file called \<open>a.chunks\<close> the pattern \<open>*.chunk*\<close> matches the final path as well: the session ends with
  the merge reported as done, and neither the file nor its chunks are left.
\<close>

theorem cleanup_deletes_published:
  "let r = timer_fires (rd_read rn_man) rn_dir
       \<lparr>rc_world = rd_world [(rn_dir, Dir), (rn_chunk, File ''ab''), (rn_mf, File ''m'')] 10, rc_sessions = [(rn_dir, rd_state)]\<rparr>
   in merge_status rn_dir r = ''done'' \<and> node_at (rc_world r) rn_final = None \<and> node_at (rc_world r) rn_chunk = None"
proof -
  have "finalize_io (rd_read rn_man) rn_dir (rd_world [(rn_dir, Dir), (rn_chunk, File ''ab''), (rn_mf, File ''m'')] 10)
      = (Inr (rn_man, rn_final, ''merged and cleaned''), rd_world [(rn_dir, Dir), (rn_mf, File ''m'')] 21)"
    by (simp add: finalize_io_def load_file_def check_existing_final_def merge_and_publish_def merge_receiver_chunks_def
      cleanup_receiver_chunks_def validate_final_size_def io_run rn_paths rn_valid rn_globs rn_manifest sort_by_index_def
      zero_chunk_def rn_apart rn_apart [symmetric] Let_def cong: io_bind_weak)
  then show ?thesis
    by (simp add: timer_fires_def finalize_receiver_session_def rd_state_def update_receiver_session_def on_world_def
      mark_receiver_done_def merge_status_def rn_apart rn_apart [symmetric] Let_def)
qed

definition rp_dir :: string where "rp_dir = demo_root @ bs # ''_pull_sessions'' @ bs # ''a.bin_t1''"

definition rp_mf :: string where "rp_mf = rp_dir @ bs # ''manifest.json''"

definition rp_chunk :: string where "rp_chunk = rp_dir @ bs # ''a.bin.chunk000001''"

definition rp_final :: string where "rp_final = demo_root @ bs # ''a.bin''"

definition rp_man :: manifest where
  "rp_man = rd_man\<lparr>mf_target := \<lparr>tgt_type = ''file'', tgt_address = ''keep'', tgt_path = rp_final\<rparr>\<rparr>"

lemma rp_facts: "join_path [rp_dir, ''manifest.json''] = rp_mf" "rp_mf \<noteq> rp_final" "rp_chunk \<noteq> rp_final" "rp_chunk \<noteq> rp_mf"
  "validate_receiver_path demo_root rp_dir rp_final = Inr ()"
  "load_manifest (Inr rp_man) = Inr rp_man" "validate_manifest_complete rp_man = Inr ()"
  "receiver_final_path rp_dir rp_man = rp_final" "mf_total_bytes rp_man = 2" by code_simp+

text \<open>
  a finalisation takes any file of the right size for its own. A pull publishes into the receive
  root; when a file of that name and of the same size lies there already, with whatever content, the
  session is reported as done without merging: the received bytes are not published.
\<close>

theorem equal_size_taken_for_final:
  "let r = timer_fires (rd_read rp_man) rp_dir
       \<lparr>rc_world = rd_world [(rp_chunk, File ''ab''), (rp_mf, File ''m''), (rp_final, File ''zz'')] 10, rc_sessions = [(rp_dir, rd_state)]\<rparr>
   in merge_status rp_dir r = ''done'' \<and> node_at (rc_world r) rp_final = Some (File ''zz'')"
proof -
  have "finalize_io (rd_read rp_man) rp_dir (rd_world [(rp_chunk, File ''ab''), (rp_mf, File ''m''), (rp_final, File ''zz'')] 10)
      = (Inr (rp_man, rp_final, ''already finalized''), rd_world [(rp_chunk, File ''ab''), (rp_mf, File ''m''), (rp_final, File ''zz'')] 12)"
    by (simp add: finalize_io_def load_file_def check_existing_final_def io_run rp_facts rp_facts(2-4) [symmetric]
        Let_def cong: io_bind_weak)
  then show ?thesis
    by (simp add: timer_fires_def finalize_receiver_session_def rd_state_def update_receiver_session_def on_world_def
      mark_receiver_done_def merge_status_def rp_facts rp_facts(2-4) [symmetric] Let_def)
qed

end
