(* ===== verification/EndToEnd.thy ===== *)
theory EndToEnd
  imports SenderRun ReceiverDemo
begin

text \<open>
  The sender and the receiver together: the connections that the sender's workers open are the ones that
  the receiver handles. A run of the composed system projects to a run of each side, the chunks that the
  sender counts as done are safe at the receiver, and a transfer that the sender reports as successful
  is published by the receiver at the next expiry of its timer. A connection is handled by the receiver
  before the sender's attempt ends; the network may cut it anywhere, lose the acknowledgement, or not
  deliver it at all.
\<close>

section \<open>The composed system\<close>

inductive e2e_step :: "send_env \<Rightarrow> receiver_env \<Rightarrow> transfer \<Rightarrow> sender \<times> receiver \<Rightarrow> sender \<times> receiver \<Rightarrow> bool"
  for env :: send_env and renv :: receiver_env and T :: transfer where
  Inner: "sender_local env s s' \<Longrightarrow> e2e_step env renv T (s, r) (s', r)"
| Unreached: "sender_attempt env h a s s' \<Longrightarrow> at_ack a = Inl e \<Longrightarrow> e2e_step env renv T (s, r) (s', r)"
| Contact: "sender_attempt env h a s s' \<Longrightarrow> handle_conn renv now h c r = (ack, r') \<Longrightarrow>
    prefix (cn_payload c) (section_of (sv_content env) (h_offset h) (h_part_size h)) \<Longrightarrow>
    (\<And>k. at_ack a = Inr k \<Longrightarrow> ack = Some k \<and> cn_ack_ok c) \<Longrightarrow>
    e2e_step env renv T (s, r) (s', r')"
| Timer: "e2e_step env renv T (s, r) (s, timer_fires renv (tr_dir renv T) r)"

inductive e2e_reach :: "send_env \<Rightarrow> receiver_env \<Rightarrow> transfer \<Rightarrow> sender \<times> receiver \<Rightarrow> sender \<times> receiver \<Rightarrow> bool"
  for env renv T sr0 where
  Start: "e2e_reach env renv T sr0 sr0"
| Step: "e2e_reach env renv T sr0 sr \<Longrightarrow> e2e_step env renv T sr sr' \<Longrightarrow> e2e_reach env renv T sr0 sr'"

text \<open>The transfer that a sender's manifest describes.\<close>

definition transfer_of :: "send_env \<Rightarrow> manifest \<Rightarrow> transfer" where
  "transfer_of env m = \<lparr>tr_id = mf_transfer_id m, tr_name = base_name (sv_base env), tr_source = sv_content env,
     tr_plan = map cs_geom (mf_chunks m)\<rparr>"

text \<open>A send to a peer's receive path, neither a laboratory run nor the answer to a pull.\<close>

definition plain_send :: "send_env \<Rightarrow> bool" where
  "plain_send env \<longleftrightarrow> \<not> so_lab (sv_opts env) \<and> trim_space (so_receive_rel_path (sv_opts env)) = ''''
     \<and> trim_space (so_publish_name (sv_opts env)) = '''' \<and> trim_space (so_folder_result (sv_opts env)) = ''''"

text \<open>A new transfer: a well-formed manifest whose chunks all wait, and a session that does not exist.\<close>

definition new_transfer :: "send_env \<Rightarrow> receiver_env \<Rightarrow> manifest \<Rightarrow> receiver \<Rightarrow> bool" where
  "new_transfer env renv m r \<longleftrightarrow> transfer_ok renv (transfer_of env m) \<and> plain_send env
     \<and> list_all (\<lambda>c. cs_status c = StatusPending \<and> cs_attempts c = 0) (mf_chunks m)
     \<and> mf_total_bytes m = int (length (sv_content env)) \<and> fresh_session renv (transfer_of env m) r"

lemma new_transfer_start:
  assumes "new_transfer env renv m r"
  shows "wf_plan m" "attempts_ok m" "send_inv (send_start env p m w)" "run_inv renv (transfer_of env m) r"
proof -
  show 1: "wf_plan m" using assms by (simp add: new_transfer_def transfer_ok_def transfer_of_def wf_plan_def)
  show 2: "attempts_ok m"
    using assms get_chunk_SomeD by (fastforce simp: new_transfer_def attempts_ok_def list_all_iff max_attempts_per_chunk_def)
  show "send_inv (send_start env p m w)" by (rule send_start_inv [OF 1 2])
  show "run_inv renv (transfer_of env m) r" using assms run_inv_fresh by (simp add: new_transfer_def)
qed

lemma attempt_of_transfer:
  assumes "plain_send env" "geometry (sn_mf s) = geometry m" "mf_transfer_id (sn_mf s) = mf_transfer_id m"
    and "attempt_effect env h a (sn_mf s) (sn_mf s')"
    and "prefix (cn_payload c) (section_of (sv_content env) (h_offset h) (h_part_size h))"
  shows "of_transfer (transfer_of env m) h c" "header_geom h \<in> set (map cs_geom (mf_chunks m))"
proof -
  obtain d hash where d: "get_chunk (sn_mf s) (h_chunk_index h) = Some d" "cs_geom d = (h_chunk_index h, h_offset h, h_part_size h)"
    "h = send_header env (sn_mf s) d hash" using assms(4) unfolding attempt_effect_def by blast
  have "cs_geom d \<in> set (map cs_geom (mf_chunks (sn_mf s)))" using get_chunk_SomeD [OF d(1)] by simp
  also have "map cs_geom (mf_chunks (sn_mf s)) = map cs_geom (mf_chunks m)" using assms(2) by (simp add: geometry_def)
  finally show g: "header_geom h \<in> set (map cs_geom (mf_chunks m))" using d(2) by (simp add: header_geom_def)
  have "h_transfer_id h = mf_transfer_id (sn_mf s)" "h_file_name h = sv_base env" "h_total_bytes h = int (length (sv_content env))"
    "h_lab h = so_lab (sv_opts env)" "h_receive_rel_path h = so_receive_rel_path (sv_opts env)"
    "h_publish_name h = so_publish_name (sv_opts env)" "h_folder_result h = so_folder_result (sv_opts env)"
    using send_header_simps [of env "sn_mf s" d hash] unfolding d(3) [symmetric] by auto
  then show "of_transfer (transfer_of env m) h c"
    using assms(1,3,5) g by (simp add: of_transfer_def transfer_of_def plain_send_def is_pull_header_def
        header_geom_def file_slice_def section_of_def)
qed

lemma attempt_effect_done:
  assumes "attempt_effect env h a m m'" "get_chunk m' i = Some d" "cs_status d = StatusDone"
  shows "i \<noteq> h_chunk_index h \<and> get_chunk m i = Some d \<or> i = h_chunk_index h \<and>
    (\<exists>d0 ip n. cs_geom d0 = header_geom h \<and> send_chunk ip h a = Inr () \<and> d = done_chunk n (h_part_size h) (h_chunk_sha256 h) d0)"
proof -
  obtain d0 d' ip n where e: "cs_geom d0 = header_geom h"
    "\<forall>j. get_chunk m' j = (if j = h_chunk_index h then Some d' else get_chunk m j)"
    "cs_status d' \<noteq> StatusDone \<or> send_chunk ip h a = Inr () \<and> d' = done_chunk n (h_part_size h) (h_chunk_sha256 h) d0"
    using assms(1) unfolding attempt_effect_def header_geom_def by blast
  show ?thesis
  proof (cases "i = h_chunk_index h")
    case True
    then have "d = d'" using e(2) assms(2) by simp
    then show ?thesis using True e(1,3) assms(3) by blast
  qed (use e(2) assms(2) in simp)
qed

text \<open>The invariant of the composed system: what the sender counts as done is safe.\<close>

definition e2e_inv :: "send_env \<Rightarrow> receiver_env \<Rightarrow> manifest \<Rightarrow> sender \<times> receiver \<Rightarrow> bool" where
  "e2e_inv env renv m sr \<longleftrightarrow> send_inv (fst sr) \<and> run_inv renv (transfer_of env m) (snd sr)
     \<and> geometry (sn_mf (fst sr)) = geometry m \<and> mf_transfer_id (sn_mf (fst sr)) = mf_transfer_id m
     \<and> (\<forall>i d. get_chunk (sn_mf (fst sr)) i = Some d \<longrightarrow> cs_status d = StatusDone \<longrightarrow>
          cs_geom d \<in> safe_chunks renv (transfer_of env m) (rc_world (snd sr)))"

lemma e2e_step_inv:
  assumes ok: "transfer_ok renv (transfer_of env m)" "plain_send env" and inv: "e2e_inv env renv m sr"
    and step: "e2e_step env renv (transfer_of env m) sr sr'"
  shows "e2e_inv env renv m sr'"
    "(\<exists>xs. sender_trace env s0 xs (fst sr)) \<Longrightarrow> (\<exists>xs. sender_trace env s0 xs (fst sr'))"
    "(\<exists>es. list_all (event_of (transfer_of env m)) es \<and> snd sr = receiver_run renv (transfer_of env m) es r0) \<Longrightarrow>
      (\<exists>es. list_all (event_of (transfer_of env m)) es \<and> snd sr' = receiver_run renv (transfer_of env m) es r0)"
proof -
  let ?T = "transfer_of env m"
  have run: "\<exists>es. list_all (event_of ?T) es \<and> r' = receiver_run renv ?T es r0"
    if "\<exists>es. list_all (event_of ?T) es \<and> r = receiver_run renv ?T es r0" "event_of ?T e" "r' = receiver_step renv ?T e r" for r r' e
  proof -
    from that(1) obtain es where "list_all (event_of ?T) es" "r = receiver_run renv ?T es r0" by blast
    then show ?thesis using that(2,3) by (intro exI [of _ "es @ [e]"]) (simp add: receiver_run_def)
  qed
  have "e2e_inv env renv m sr' \<and> ((\<exists>xs. sender_trace env s0 xs (fst sr)) \<longrightarrow> (\<exists>xs. sender_trace env s0 xs (fst sr')))
     \<and> ((\<exists>es. list_all (event_of ?T) es \<and> snd sr = receiver_run renv ?T es r0) \<longrightarrow>
        (\<exists>es. list_all (event_of ?T) es \<and> snd sr' = receiver_run renv ?T es r0))"
    using step
  proof cases
    case (Inner s s' r)
    have i: "send_inv s" "run_inv renv ?T r" using inv Inner by (simp_all add: e2e_inv_def)
    note l = sender_local_inv [OF Inner(3) i(1)] and b = local_budget [OF Inner(3) i(1)]
    have "e2e_inv env renv m sr'" using inv Inner(1,2) l b(2) by (simp add: e2e_inv_def) blast
    then show ?thesis using Inner sender_trace.Local by fastforce
  next
    case (Unreached h a s s' e r)
    have i: "send_inv s" using inv Unreached by (simp add: e2e_inv_def)
    note l = sender_attempt_effect [OF Unreached(3) i]
    have nd: "\<not> send_chunk ip h a = Inr ()" for ip using Unreached(4) send_chunk_Inr by fastforce
    have "cs_geom d \<in> safe_chunks renv ?T (rc_world r)"
      if "get_chunk (sn_mf s') i = Some d" "cs_status d = StatusDone" for i d
    proof -
      have "get_chunk (sn_mf s) i = Some d" using attempt_effect_done [OF conjunct2 [OF conjunct2 [OF conjunct2 [OF l]]] that] nd by blast
      then show ?thesis using inv Unreached(1) that(2) by (simp add: e2e_inv_def)
    qed
    then have "e2e_inv env renv m sr'" using inv Unreached(1,2) l by (simp add: e2e_inv_def)
    then show ?thesis using Unreached sender_trace.Attempt by fastforce
  next
    case (Contact h a s s' now c r ack r')
    have i: "send_inv s" "run_inv renv ?T r" "geometry (sn_mf s) = geometry m" "mf_transfer_id (sn_mf s) = mf_transfer_id m"
      using inv Contact(1) by (simp_all add: e2e_inv_def)
    note l = sender_attempt_effect [OF Contact(3) i(1)]
    then have e: "attempt_effect env h a (sn_mf s) (sn_mf s')" by simp
    note tr = attempt_of_transfer [OF ok(2) i(3,4) e Contact(5)]
    have ev: "event_of ?T (Conn now h c)" using tr(1) by simp
    note st = step_effect [OF ok(1) i(2) ev]
    have r': "receiver_step renv ?T (Conn now h c) r = r'" using Contact(4) by simp
    have "cs_geom d \<in> safe_chunks renv ?T (rc_world r')"
      if d: "get_chunk (sn_mf s') i = Some d" "cs_status d = StatusDone" for i d
    proof (cases "i = h_chunk_index h")
      case False
      then have g: "get_chunk (sn_mf s) i = Some d" using attempt_effect_done [OF e d] by blast
      then have "cs_geom d \<in> safe_chunks renv ?T (rc_world r)" using inv Contact(1) d(2) by (simp add: e2e_inv_def)
      moreover have "cs_geom d \<noteq> header_geom h" using get_chunk_SomeD [OF g] False by (auto simp: cs_geom_def header_geom_def)
      ultimately show ?thesis using st(2) [of "cs_geom d"] r' by simp
    next
      case True
      then obtain d0 ip n where d0: "cs_geom d0 = header_geom h" "send_chunk ip h a = Inr ()"
        "d = done_chunk n (h_part_size h) (h_chunk_sha256 h) d0"
        using attempt_effect_done [OF e d] by blast
      obtain k where k: "at_ack a = Inr k" "ack_status k = ''done''" using send_chunk_Inr [OF d0(2)] by blast
      have "ack = Some k" using Contact(6) [OF k(1)] by simp
      then have "header_geom h \<in> held renv ?T (rc_world r')"
        using handle_conn_effect [OF ok(1) tr(1) _ Contact(4)] i(2) k(2) by (simp add: run_inv_def)
      then show ?thesis using d0(1,3) by (simp add: safe_chunks_def)
    qed
    then have "e2e_inv env renv m sr'" using i l st(1) r' Contact(2) by (simp add: e2e_inv_def)
    moreover have "(\<exists>xs. sender_trace env s0 xs s) \<longrightarrow> (\<exists>xs. sender_trace env s0 xs s')"
      using sender_trace.Attempt [OF _ Contact(3)] by blast
    moreover have "(\<exists>es. list_all (event_of ?T) es \<and> r = receiver_run renv ?T es r0) \<longrightarrow>
        (\<exists>es. list_all (event_of ?T) es \<and> r' = receiver_run renv ?T es r0)"
      using run [OF _ ev r' [symmetric]] by blast
    ultimately show ?thesis using Contact(1,2) by simp
  next
    case (Timer s r)
    have i: "run_inv renv ?T r" using inv Timer by (simp add: e2e_inv_def)
    have ev: "event_of ?T Fire" by simp
    note st = step_effect [OF ok(1) i ev]
    have "e2e_inv env renv m sr'" using inv Timer(1,2) st by (simp add: e2e_inv_def)
    then show ?thesis using Timer run [OF _ ev, of r "timer_fires renv (tr_dir renv ?T) r"] by auto
  qed
  then show "e2e_inv env renv m sr'"
    "(\<exists>xs. sender_trace env s0 xs (fst sr)) \<Longrightarrow> (\<exists>xs. sender_trace env s0 xs (fst sr'))"
    "(\<exists>es. list_all (event_of ?T) es \<and> snd sr = receiver_run renv ?T es r0) \<Longrightarrow>
      (\<exists>es. list_all (event_of ?T) es \<and> snd sr' = receiver_run renv ?T es r0)" by blast+
qed

lemma e2e_reach_inv:
  assumes "new_transfer env renv m r" and s: "e2e_reach env renv (transfer_of env m) (send_start env p m w, r) sr"
  shows "e2e_inv env renv m sr \<and> (\<exists>xs. sender_trace env (send_start env p m w) xs (fst sr))
    \<and> (\<exists>es. list_all (event_of (transfer_of env m)) es \<and> snd sr = receiver_run renv (transfer_of env m) es r)"
  using s
proof (induction rule: e2e_reach.induct)
  case Start
  note n = new_transfer_start [OF assms(1)]
  have m0: "sn_mf (send_start env p m w) = m" by (simp add: send_start_def Let_def)
  have nd: "cs_status d \<noteq> StatusDone" if "get_chunk m i = Some d" for i d
    using get_chunk_SomeD [OF that] assms(1) by (auto simp: new_transfer_def list_all_iff)
  have "e2e_inv env renv m (send_start env p m w, r)" using n(3,4) nd by (simp add: e2e_inv_def m0)
  moreover have "receiver_run renv (transfer_of env m) [] r = r" by (simp add: receiver_run_def)
  ultimately show ?case using sender_trace.Start [of env "send_start env p m w"]
    by (intro conjI exI [of _ "[]"]) simp_all
next
  case (Step sr sr')
  have ok: "transfer_ok renv (transfer_of env m)" "plain_send env" using assms(1) by (simp_all add: new_transfer_def)
  have i: "e2e_inv env renv m sr" using Step.IH by blast
  note st = e2e_step_inv [OF ok i Step.hyps(2)]
  show ?case using st Step.IH by blast
qed


lemma success_safe:
  assumes "new_transfer env renv m r" "e2e_reach env renv (transfer_of env m) (send_start env p m w, r) (s, r')"
    and "fst (send_finish env now s) = Inr ()"
  shows "run_inv renv (transfer_of env m) r'" "safe_chunks renv (transfer_of env m) (rc_world r') = set (map cs_geom (mf_chunks m))"
proof -
  let ?T = "transfer_of env m"
  have i: "e2e_inv env renv m (s, r')" using e2e_reach_inv [OF assms(1,2)] by blast
  then show run: "run_inv renv ?T r'" by (simp add: e2e_inv_def)
  have d: "list_all (\<lambda>c. cs_status c = StatusDone) (mf_chunks (sn_mf s))"
    using assms(3) by (auto simp: send_finish_def split: if_splits option.splits prod.splits sum.splits)
  have g: "map cs_geom (mf_chunks (sn_mf s)) = map cs_geom (mf_chunks m)" using i by (simp add: e2e_inv_def geometry_def)
  have p: "tr_plan ?T = map cs_geom (mf_chunks m)" by (simp add: transfer_of_def)
  have "safe_chunks renv ?T (rc_world r') \<subseteq> set (tr_plan ?T)"
    using run held_in_plan [of renv ?T "rc_world r'"] by (auto simp: safe_chunks_def run_inv_def)
  moreover have "x \<in> safe_chunks renv ?T (rc_world r')" if "x \<in> set (tr_plan ?T)" for x
  proof -
    have "x \<in> set (map cs_geom (mf_chunks (sn_mf s)))" using that unfolding p g .
    then obtain c where c: "c \<in> set (mf_chunks (sn_mf s))" "x = cs_geom c" by auto
    have "get_chunk (sn_mf s) (cs_index c) = Some c"
      using i c(1) by (intro get_chunk_distinct) (simp_all add: e2e_inv_def send_inv_def)
    moreover have "cs_status c = StatusDone" using d c(1) by (simp add: list_all_iff)
    ultimately show ?thesis using i unfolding e2e_inv_def c(2) fst_conv snd_conv by blast
  qed
  ultimately show "safe_chunks renv ?T (rc_world r') = set (map cs_geom (mf_chunks m))" unfolding p by blast
qed



section \<open>A transfer of one chunk\<close>

lemma ee_transfer: "transfer_of sd_env sd_mf = rd_transfer"
proof -
  have "base_name ''a.bin'' = ''a.bin''" by code_simp
  then show ?thesis by (simp add: transfer_of_def rd_transfer_def sd_env_def sd_mf_def cs_geom_def zero_chunk_def)
qed

lemma ee_header: "send_header sd_env (sn_mf sd_send) sd_c sd_hash = rd_head"
proof -
  have s: "section_of ''ab'' 0 2 = ''ab''" by (simp add: section_of_def)
  have "sd_hash = hex_encode (demo_sha ''ab'')"
    by (simp add: sd_hash_def sd_env_def demo_sha_def s)
  then show ?thesis
    by (simp add: send_header_def sign_header_def sd_facts rd_head_def i64_def) (simp add: sd_env_def sd_opts_def)
qed

lemma ee_new: "new_transfer sd_env rd_env sd_mf rd_start"
proof -
  have "trim_space '''' = ''''" by code_simp
  then have "plain_send sd_env" by (simp add: plain_send_def sd_env_def sd_opts_def)
  then show ?thesis using rd_ok rd_fresh
    by (simp add: new_transfer_def ee_transfer) (simp add: sd_mf_def sd_env_def zero_chunk_def)
qed

definition ee_end :: "sender \<times> receiver" where
  "ee_end = (sd_end, \<lparr>rc_world = rd_world [(rd_dir, Dir), (rd_chunk, File ''ab''), (rd_mf, File ''m'')] 27, rc_sessions = [(rd_dir, rd_state)]\<rparr>)"

lemma ee_reach:
  "e2e_reach sd_env rd_env (transfer_of sd_env sd_mf) (send_start sd_env None sd_mf (demo_world (\<lambda>n. False) []), rd_start) ee_end"
proof -
  have "sender_local sd_env sd_start sd_send" unfolding sd_send_def by (rule Dispatch) (simp_all add: sd_facts)
  from e2e_step.Inner [OF this]
  have 1: "e2e_step sd_env rd_env rd_transfer (sd_start, rd_start) (sd_send, rd_start)" .
  have a: "sender_attempt sd_env rd_head sd_attempt sd_send sd_end" unfolding sd_end_def ee_header [symmetric]
    by (rule Done [where hash = sd_hash]) (simp_all add: sd_facts sd_hash_def hash_section_def sd_chunk_sent [unfolded sd_hash_def])
  have "prefix (cn_payload rd_conn) (section_of (sv_content sd_env) (h_offset rd_head) (h_part_size rd_head))"
    by (simp add: rd_conn_def sd_env_def rd_demo_header section_of_def)
  moreover have "at_ack sd_attempt = Inr (done_ack rd_head 2)" "cn_ack_ok rd_conn"
    by (simp_all add: sd_attempt_def done_ack_def rd_demo_header rd_conn_def)
  ultimately have 2: "e2e_step sd_env rd_env rd_transfer (sd_send, rd_start) ee_end" unfolding ee_end_def
    by (intro e2e_step.Contact [OF a rd_run_conn]) simp_all
  from e2e_reach.Step [OF e2e_reach.Step [OF e2e_reach.Start 1] 2] show ?thesis
    by (simp add: ee_transfer sd_start_def)
qed

lemma ee_success: "fst (send_finish sd_env 7 sd_end) = Inr ()"
  by code_simp




end
