(* ===== verification/SenderStart.thy ===== *)
theory SenderStart
  imports SenderRun
begin

text \<open>
  The start of a transfer: the manifest that \<open>prepare_send\<close> gives to the workers is well formed and
  describes the file, whether it is new, loaded or resumed; and what becomes of a manifest that leaves
  the workers nothing to do.
\<close>

section \<open>The prepared manifest\<close>

text \<open>What the sender writes to its manifest files.\<close>

definition stored_ok :: "manifest \<Rightarrow> bool" where
  "stored_ok m \<longleftrightarrow> wf_plan m \<and> list_all (\<lambda>c. 0 \<le> cs_attempts c \<and>
     (cs_status c = StatusPending \<or> cs_status c = StatusSending \<or> cs_status c = StatusCanceled
        \<longrightarrow> cs_attempts c < max_attempts_per_chunk)) (mf_chunks m)"

lemma stored_attempts: "stored_ok m \<Longrightarrow> wf_plan m \<and> attempts_ok m"
  by (auto simp: stored_ok_def attempts_ok_def list_all_iff dest: get_chunk_SomeD)

lemma stored_load: "stored_ok m \<Longrightarrow> stored_ok (normalize_for_resume 3 m)"
  using g_normalize.wf_plan_f [of 3 m]
  by (auto simp: stored_ok_def normalize_for_resume_def map_chunks_def list_all_iff resume_load_chunk_def
      max_attempts_per_chunk_def)

lemma stored_resume: "stored_ok m \<Longrightarrow> stored_ok (activate_resume max_attempts_per_chunk m)"
  using g_activate.wf_plan_f [of max_attempts_per_chunk m]
  by (auto simp: stored_ok_def activate_resume_def map_chunks_def list_all_iff activate_chunk_def
      max_attempts_per_chunk_def)

lemma cs_geom_pending [simp]: "cs_geom (pending_chunk c) = chunk_geom c"
  by (simp add: cs_geom_def pending_chunk_def chunk_geom_def)

lemma stored_fresh:
  assumes "tiling 0 0 tot (map chunk_geom (pl_chunks p))"
  shows "stored_ok (new_manifest nano now ident name tot cs target absPath mu p)"
  using assms by (simp add: stored_ok_def wf_plan_def new_manifest_def comp_def list_all_iff max_attempts_per_chunk_def)
    (simp add: pending_chunk_def zero_chunk_def)

lemma load_or_create_ok:
  assumes "load_or_create_manifest stored ident name sz cs target resume fresh = Inr m"
    and "stored_ok fresh" "mf_total_bytes fresh = sz" "mf_chunk_size fresh = cs" "\<And>s. stored = Inr s \<Longrightarrow> stored_ok s"
  shows "stored_ok m \<and> mf_total_bytes m = sz \<and> mf_chunk_size m = cs"
proof -
  have c: "mf_chunk_size (activate_resume k s) = mf_chunk_size s" for k s
    by (simp add: activate_resume_def map_chunks_def)
  show ?thesis using assms stored_resume g_activate.total_f
    by (auto simp: load_or_create_manifest_def c split: sum.splits if_splits)
qed

lemma load_file_stored:
  assumes "\<And>b m. dec b = Inr m \<Longrightarrow> stored_ok m" "load_file dec path w = (Inr m, w')"
  shows "stored_ok m"
  using assms stored_load
  by (auto simp: load_file_def io_bind_def io_lift_def load_manifest_def split: prod.splits sum.splits)

lemma auto_chunk_size_range: "0 < auto_chunk_size n" "auto_chunk_size n \<le> 2 ^ 62"
  by (simp_all add: auto_chunk_size_def MiB_def)

text \<open>What a preparation that succeeds has gone through.\<close>

lemma prepare_send_cases:
  assumes "prepare_send sha enc dec profile opts ips absPath (Inr f) readOk target nano now w = Some (Inr (path, m), w')"
  obtains cs p fp w1 stored where "cs = (if so_chunk_size opts \<le> 0 then auto_chunk_size (int (length (sf_content f))) else so_chunk_size opts)"
    "build_plan (int (length (sf_content f))) cs = Some (Inr p)"
    "path = sender_manifest_path profile (build_identity sha absPath (int (length (sf_content f))) (sf_mod_unix f) target cs fp)"
    "load_file dec path w = (stored, w1)"
    "load_or_create_manifest stored (build_identity sha absPath (int (length (sf_content f))) (sf_mod_unix f) target cs fp)
       (base_name absPath) (int (length (sf_content f))) cs target (so_explicit_resume opts)
       (new_manifest nano now (build_identity sha absPath (int (length (sf_content f))) (sf_mod_unix f) target cs fp)
          (base_name absPath) (int (length (sf_content f))) cs target absPath (sf_mod_unix f) p) = Inr m"
    "fst (save_manifest enc now path m w1) = Inr ()"
  using assms unfolding prepare_send_def Let_def
  by (auto split: if_splits option.splits sum.splits prod.splits)

lemma prepare_send_ok:
  assumes "prepare_send sha enc dec profile opts ips absPath (Inr f) readOk target nano now w = Some (Inr (path, m), w')"
    and "\<And>b s. dec b = Inr s \<Longrightarrow> stored_ok s"
    and "int (length (sf_content f)) \<le> 2 ^ 62" "so_chunk_size opts \<le> 2 ^ 62"
  shows "wf_plan m \<and> attempts_ok m \<and> mf_total_bytes m = int (length (sf_content f))
    \<and> concat (map (\<lambda>c. section_of (sf_content f) (cs_offset c) (cs_size c)) (mf_chunks m)) = sf_content f
    \<and> mf_chunk_size m = (if so_chunk_size opts \<le> 0 then auto_chunk_size (int (length (sf_content f))) else so_chunk_size opts)"
proof -
  let ?sz = "int (length (sf_content f))"
  from assms(1) obtain cs p fp w1 stored where
    c: "cs = (if so_chunk_size opts \<le> 0 then auto_chunk_size ?sz else so_chunk_size opts)"
    and b: "build_plan ?sz cs = Some (Inr p)"
    and ld: "load_file dec path w = (stored, w1)"
    and l: "load_or_create_manifest stored (build_identity sha absPath ?sz (sf_mod_unix f) target cs fp)
       (base_name absPath) ?sz cs target (so_explicit_resume opts)
       (new_manifest nano now (build_identity sha absPath ?sz (sf_mod_unix f) target cs fp)
          (base_name absPath) ?sz cs target absPath (sf_mod_unix f) p) = Inr m"
    by (rule prepare_send_cases)
  have "0 < cs" "cs \<le> 2 ^ 62" using c auto_chunk_size_range [of ?sz] assms(4) by (auto split: if_splits)
  then have "tiling 0 0 ?sz (map chunk_geom (pl_chunks p))"
    using build_plan_ok [of cs ?sz] b assms(3) by fastforce
  then have "stored_ok (new_manifest nano now (build_identity sha absPath ?sz (sf_mod_unix f) target cs fp)
      (base_name absPath) ?sz cs target absPath (sf_mod_unix f) p)" by (rule stored_fresh)
  moreover have "stored_ok s" if "stored = Inr s" for s
    using load_file_stored [of dec path w s w1] assms(2) ld that by blast
  ultimately have m: "stored_ok m" "mf_total_bytes m = ?sz" "mf_chunk_size m = cs"
    using load_or_create_ok [OF l] by (simp_all add: new_manifest_def)
  then have w: "wf_plan m" "attempts_ok m" using stored_attempts by simp_all
  have "concat (map (file_slice (sf_content f)) (map cs_geom (mf_chunks m))) = sf_content f"
    using tiling_concat [of 0 0 ?sz "map cs_geom (mf_chunks m)" "sf_content f"] w(1) m(2) by (simp add: wf_plan_def)
  then have "concat (map (\<lambda>c. section_of (sf_content f) (cs_offset c) (cs_size c)) (mf_chunks m)) = sf_content f"
    by (simp add: comp_def file_slice_def section_of_def cs_geom_def)
  with w m c show ?thesis by simp
qed


section \<open>Nothing to do\<close>

text \<open>A manifest without a chunk to send: the workers end, whatever happens, and no connection is made.\<close>

lemma idle_trace:
  assumes "sender_trace env (send_start env p m w) xs s" "retryable_pending m = []"
  shows "xs = [] \<and> sn_mf s = m \<and> sn_hard_err s = None \<and> (\<forall>k c ch. k < length (sn_workers s) \<longrightarrow> sn_workers s ! k \<noteq> SBusy c ch)"
  using assms
proof (induction rule: sender_trace.induct)
  case Start
  then show ?case by (auto simp: send_start_def Let_def nth_replicate)
next
  case (Local xs s s')
  then have IH: "xs = []" "sn_mf s = m" "sn_hard_err s = None"
    "\<And>k c ch. k < length (sn_workers s) \<Longrightarrow> sn_workers s ! k \<noteq> SBusy c ch" by auto
  from Local.hyps(2) show ?case
  proof cases
    case (Dispatch k now)
    then show ?thesis using IH Local.prems by (auto simp: send_dispatch_def nth_list_update)
  qed (use IH in \<open>auto simp: nth_list_update\<close>)
next
  case (Attempt xs s h a s')
  then have IH: "\<And>k c ch. k < length (sn_workers s) \<Longrightarrow> sn_workers s ! k \<noteq> SBusy c ch" by auto
  from Attempt.hyps(2) show ?case by cases (use IH in blast)+
qed

text \<open>
  an empty file is reported as sent without any contact. The plan of an empty file has no chunk, so
  in every run the workers end at once; unless the run is cancelled or the manifest cannot be written,
  the sender returns success, and no connection was opened: the receiver never hears of the file.
\<close>

theorem empty_file_never_sent:
  assumes "prepare_send sha enc dec profile opts ips absPath (Inr f) readOk target nano now w = Some (Inr (path, m), w1)"
    and "sf_content f = ''''" "\<And>b s. dec b = Inr s \<Longrightarrow> stored_ok s" "so_chunk_size opts \<le> 2 ^ 62"
    and "sender_trace env (send_start env p m w1) xs s" "\<not> sn_canceled s"
    and "fst (save_manifest (sv_marshal env) now' (sv_path env) m (sn_world s)) = Inr ()"
  shows "xs = [] \<and> fst (send_finish env now' s) = Inr ()"
proof -
  have "wf_plan m" "mf_total_bytes m = 0" using prepare_send_ok [OF assms(1,3) _ assms(4)] assms(2) by simp_all
  then have e: "mf_chunks m = []" by (cases "mf_chunks m") (auto simp: wf_plan_def cs_geom_def dest: tiling_le)
  then have "retryable_pending m = []" by (simp add: retryable_pending_def sort_by_index_def)
  from idle_trace [OF assms(5) this] have i: "xs = []" "sn_mf s = m" "sn_hard_err s = None" by simp_all
  obtain w' where "save_manifest (sv_marshal env) now' (sv_path env) m (sn_world s) = (Inr (), w')"
    using assms(7) by (metis prod.collapse)
  then show ?thesis using i e assms(6) by (simp add: send_finish_def saver_flush_def)
qed

text \<open>
  a transfer whose chunk has used up its attempts stays failed. When the manifest on disk has only done
  chunks and failed chunks without attempts left, sending the same file again takes it over, makes no
  connection at all and never succeeds; only an explicit resume, which resets the attempts, can.
\<close>

theorem exhausted_send_not_retried:
  assumes "\<forall>c\<in>set (mf_chunks m). cs_status c = StatusDone \<or> cs_status c = StatusFailed \<and> max_attempts_per_chunk \<le> cs_attempts c"
    and "c \<in> set (mf_chunks m)" "cs_status c = StatusFailed"
  shows "(load_or_create_manifest (Inr m) (src_identity (mf_source m)) (mf_file_name m) (mf_total_bytes m) (mf_chunk_size m)
       (tgt_address (mf_target m)) False fresh = Inr m)
    \<and> (sender_trace env (send_start env p m w) xs s \<longrightarrow> xs = [] \<and> fst (send_finish env now s) \<noteq> Inr ())
    \<and> retryable_pending (activate_resume max_attempts_per_chunk m) \<noteq> []"
proof -
  have nc: "\<not> has_canceled_chunks m" "\<not> manifest_complete m"
    using assms by (auto simp: has_canceled_chunks_def manifest_complete_def list_ex_iff list_all_iff)
  have r: "retryable_pending m = []"
  proof -
    have "set (retryable_pending m) = {}"
      using assms(1) by (auto simp: retryable_pending_def sort_by_index_def)
    then show ?thesis by simp
  qed
  have "xs = [] \<and> fst (send_finish env now s) \<noteq> Inr ()" if "sender_trace env (send_start env p m w) xs s"
  proof -
    from idle_trace [OF that r] have i: "xs = []" "sn_mf s = m" "sn_hard_err s = None" by simp_all
    moreover have "\<not> list_all (\<lambda>c. cs_status c = StatusDone) (mf_chunks m)" using assms(2,3) by (auto simp: list_all_iff status_distinct intro!: bexI [of _ c])
    ultimately show ?thesis by (auto simp: send_finish_def split: prod.splits sum.splits)
  qed
  moreover have "activate_chunk max_attempts_per_chunk c \<in> set (retryable_pending (activate_resume max_attempts_per_chunk m))"
    using assms(2,3) by (auto simp: retryable_pending_def activate_resume_def map_chunks_def sort_by_index_def activate_chunk_def)
  ultimately show ?thesis using nc by (auto simp: load_or_create_manifest_def)
qed

section \<open>Witnesses\<close>

definition st_file :: "bytes \<Rightarrow> source_file" where
  "st_file b = \<lparr>sf_content = b, sf_mod_unix = 7, sf_is_dir = False\<rparr>"

definition st_sha :: "bytes \<Rightarrow> bytes" where "st_sha m = replicate 16 (CHR ''x'')"

definition st_world :: world where "st_world = (demo_world (\<lambda>n. False) [])\<lparr>w_tick := 10\<rparr>"

definition st_id :: string where "st_id = hex_encode (replicate 16 (CHR ''x''))"

definition st_path :: string where "st_path = sender_manifest_path ''C:'' st_id"

definition st_mf :: "bytes \<Rightarrow> plan \<Rightarrow> manifest" where
  "st_mf b p = new_manifest 1 5 st_id (base_name ''C:f'') (int (length b)) 2 ''h:1'' ''C:f'' 7 p"

definition st_empty :: plan where "st_empty = \<lparr>pl_total_bytes = 0, pl_chunk_size = 2, pl_chunks = []\<rparr>"

definition st_plan :: plan where
  "st_plan = \<lparr>pl_total_bytes = 3, pl_chunk_size = 2, pl_chunks = map (spec_chunk 3 2) [0..1]\<rparr>"

text \<open>A preparation that finds no manifest.\<close>

lemma prepare_send_fresh:
  assumes "build_plan (int (length (sf_content f))) (so_chunk_size opts) = Some (Inr p)" "0 < so_chunk_size opts"
    and "ips \<noteq> []" "\<not> so_explicit_resume opts"
    and "content_fingerprint sha (sf_content f) readOk (int (length (sf_content f))) = Inr fp"
    and "ident = build_identity sha absPath (int (length (sf_content f))) (sf_mod_unix f) target (so_chunk_size opts) fp"
    and "path = sender_manifest_path profile ident"
    and "m = new_manifest nano now ident (base_name absPath) (int (length (sf_content f))) (so_chunk_size opts) target absPath (sf_mod_unix f) p"
    and "load_file dec path w = (Inl e, w1)" "save_manifest enc now path m w1 = (Inr u, w2)"
  shows "prepare_send sha enc dec profile opts ips absPath (Inr f) readOk target nano now w = Some (Inr (path, m), w2)"
  using assms by (simp add: prepare_send_def Let_def load_or_create_manifest_def)

lemma st_plans: "build_plan 0 2 = Some (Inr st_empty)" "build_plan 3 2 = Some (Inr st_plan)"
proof -
  have c: "chunk_count 0 2 = 0" "chunk_count 3 2 = 2" by code_simp+
  then show "build_plan 0 2 = Some (Inr st_empty)" "build_plan 3 2 = Some (Inr st_plan)"
    by (simp_all add: build_plan_eq st_empty_def st_plan_def)
qed

lemma st_hashes:
  "content_fingerprint st_sha ''abc'' (Inr ()) 3 = Inr st_id" "content_fingerprint st_sha '''' (Inr ()) 0 = Inr st_id"
  "build_identity st_sha a k t u z q = st_id"
  by (simp_all add: content_fingerprint_def build_identity_def st_sha_def st_id_def Let_def fingerprint_window_def)

lemma st_load: "load_file (\<lambda>b. Inl ''no'') st_path st_world = (Inl ''not exist'', st_world\<lparr>w_tick := 11\<rparr>)"
  by (simp add: load_file_def io_bind_def fs_read_def st_world_def demo_world_def node_at_def faulty_def tick_def)

definition st_saved :: "bytes \<Rightarrow> plan \<Rightarrow> world" where
  "st_saved b p = snd (save_manifest (\<lambda>m. Inr ''m'') 5 st_path (st_mf b p) (st_world\<lparr>w_tick := 11\<rparr>))"

lemma st_save: "save_manifest (\<lambda>m. Inr ''m'') 5 st_path (st_mf b p) (st_world\<lparr>w_tick := 11\<rparr>) = (Inr (), st_saved b p)"
proof -
  have "fst (save_atomic st_path (Some (Inr ''m'')) (st_world\<lparr>w_tick := 11\<rparr>)) = Inr ()" by code_simp
  then show ?thesis by (simp add: st_saved_def save_manifest_def prod_eq_iff)
qed

lemma st_prepare:
  assumes "build_plan (int (length b)) 2 = Some (Inr p)" "content_fingerprint st_sha b (Inr ()) (int (length b)) = Inr st_id"
  shows "prepare_send st_sha (\<lambda>m. Inr ''m'') (\<lambda>b. Inl ''no'') ''C:'' sd_opts [''10.0.0.1''] ''C:f'' (Inr (st_file b)) (Inr ())
     ''h:1'' 1 5 st_world = Some (Inr (st_path, st_mf b p), st_saved b p)"
  by (rule prepare_send_fresh [OF _ _ _ _ _ refl _ _ st_load st_save, where fp = st_id])
    (use assms in \<open>simp_all add: sd_opts_def st_file_def st_path_def st_mf_def st_hashes\<close>)


theorem empty_file_never_sent_witness:
  "fst (send_finish sd_env 6 (send_start sd_env None (st_mf '''' st_empty) (st_saved '''' st_empty))) = Inr ()"
proof -
  let ?s = "send_start sd_env None (st_mf '''' st_empty) (st_saved '''' st_empty)"
  have p: "prepare_send st_sha (\<lambda>m. Inr ''m'') (\<lambda>b. Inl ''no'') ''C:'' sd_opts [''10.0.0.1''] ''C:f'' (Inr (st_file '''')) (Inr ())
     ''h:1'' 1 5 st_world = Some (Inr (st_path, st_mf '''' st_empty), st_saved '''' st_empty)"
    by (rule st_prepare) (simp_all add: st_plans st_hashes)
  have "fst (save_atomic demo_path (Some (Inr ''m'')) (st_saved '''' st_empty)) = Inr ()" by code_simp
  then have s: "fst (save_manifest (sv_marshal sd_env) 6 (sv_path sd_env) (st_mf '''' st_empty) (sn_world ?s)) = Inr ()"
    by (simp add: save_manifest_def sd_env_def send_start_def Let_def)
  have c: "\<not> sn_canceled ?s" by (simp add: send_start_def Let_def)
  from empty_file_never_sent [OF p _ _ _ sender_trace.Start c s] show ?thesis
    by (simp add: st_file_def sd_opts_def)
qed

definition st_exhausted :: manifest where
  "st_exhausted = sd_mf\<lparr>mf_chunks := [zero_chunk\<lparr>cs_size := 2, cs_status := StatusFailed, cs_attempts := 3\<rparr>]\<rparr>"

theorem exhausted_send_not_retried_witness:
  "fst (send_finish sd_env 6 (send_start sd_env None st_exhausted (st_saved '''' st_empty))) \<noteq> Inr ()"
  using exhausted_send_not_retried [of st_exhausted, OF _ _ _] sender_trace.Start
  by (fastforce simp: st_exhausted_def max_attempts_per_chunk_def)

end
