(* ===== verification/Records.thy ===== *)
theory Records
  imports AbsPath FileSys
begin

text \<open>
  The tables of operations that the agent keeps in memory and on disk: the jobs and pulls of
  \<open>cmd/multisend-agent/history.go\<close> and the downloads of \<open>internal/download/manager.go\<close>. They share the form
  of their identifiers (\<open>validOperationID\<close>, \<open>validDownloadID\<close>), the limit on the terminal records
  (\<open>pruneJobsLocked\<close>, \<open>prunePullsLocked\<close>, \<open>pruneTerminalLocked\<close>) and the way a record is written
  (\<open>saveJSONAtomic\<close>). A Go map is an association list; its order stands for the order of an iteration.
\<close>

section \<open>Identifiers\<close>

definition valid_id :: "string \<Rightarrow> string \<Rightarrow> bool" where
  "valid_id pre ident =
     (let digits = trim_prefix ident pre in
      if digits = ident \<or> digits = '''' then False
      else list_all is_digit digits \<and> (case parse_int digits of Inl _ \<Rightarrow> False | Inr _ \<Rightarrow> True))"

lemma parse_digits: "ds \<noteq> [] \<Longrightarrow> list_all is_digit ds \<Longrightarrow>
   (case parse_int ds of Inl _ \<Rightarrow> False | Inr _ \<Rightarrow> True) \<longleftrightarrow> int (digits_val ds) \<le> max_i64"
  by (cases ds) (auto simp: parse_int_def Let_def)

lemma valid_id_iff:
  assumes "pre \<noteq> ''''"
  shows "valid_id pre ident \<longleftrightarrow>
    (\<exists>ds. ident = pre @ ds \<and> ds \<noteq> [] \<and> list_all is_digit ds \<and> int (digits_val ds) \<le> max_i64)"
proof (cases "has_prefix ident pre")
  case True
  then obtain ds where i: "ident = pre @ ds" by (auto simp: has_prefix_def prefix_def)
  then have "valid_id pre ident \<longleftrightarrow> ds \<noteq> [] \<and> list_all is_digit ds \<and> (case parse_int ds of Inl _ \<Rightarrow> False | Inr _ \<Rightarrow> True)"
    using assms by (auto simp: valid_id_def)
  then show ?thesis using i parse_digits by auto
next
  case False
  then have "trim_prefix ident pre = ident" by (simp add: trim_prefix_def has_prefix_def)
  then show ?thesis using False by (auto simp: valid_id_def has_prefix_def)
qed

text \<open>The name of the file of a record.\<close>

definition record_path :: "string \<Rightarrow> string \<Rightarrow> string" where
  "record_path dir ident = join_path [dir, ident @ ''.json'']"

lemma digit_plain_char: "is_digit c \<Longrightarrow> \<not> is_sep c"
  by (auto simp: is_digit_def is_sep_def bs_def)

section \<open>Writing a record\<close>

text \<open>\<open>saveJSONAtomic\<close>: \<open>text\<close> is the marshalled value or the marshaller's error.\<close>

definition save_json_atomic :: "string \<Rightarrow> bytes result \<Rightarrow> unit io" where
  "save_json_atomic path text =
     (let dir = dir_name path in
      io_bind (fs_mkdir_all dir) (\<lambda>_.
        case text of
          Inl e \<Rightarrow> io_fail e
        | Inr b \<Rightarrow>
            io_bind (fs_create_temp dir ''.multisend-'' ''.tmp'') (\<lambda>tmp.
            io_defer
              (io_bind (io_on_error fs_step fs_step) (\<lambda>_.
               io_bind (io_on_error (fs_append tmp b) fs_step) (\<lambda>_.
               io_bind (io_on_error fs_step fs_step) (\<lambda>_.
               io_bind fs_step (\<lambda>_.
               fs_rename tmp path)))))
              (fs_remove tmp))))"

section \<open>Removing a directory tree\<close>

text \<open>\<open>os.RemoveAll\<close>: the path and everything below it; a failure leaves some of it, the oracle says how much.\<close>

definition below :: "string \<Rightarrow> string \<Rightarrow> bool" where
  "below p q \<longleftrightarrow> q = p \<or> has_prefix q (p @ [bs])"

definition del_nodes :: "string list \<Rightarrow> world \<Rightarrow> world" where
  "del_nodes ps w = fold del_node ps w"

definition fs_remove_all :: "string \<Rightarrow> unit io" where
  "fs_remove_all p w =
     (let ps = filter (below p) (map fst (w_nodes w)) in
      if faulty w then (Inl ''remove failed'', del_nodes (take (w_cut w (w_tick w)) ps) (tick w))
      else (Inr (), del_nodes ps (tick w)))"

lemma node_at_del_nodes: "node_at (del_nodes ps w) q = (if q \<in> set ps then None else node_at w q)"
  unfolding del_nodes_def by (induction ps arbitrary: w) auto

lemma remove_all_frame: "\<not> below p q \<Longrightarrow> node_at (snd (fs_remove_all p w)) q = node_at w q"
  by (auto simp: fs_remove_all_def Let_def node_at_del_nodes dest!: in_set_takeD)

lemma remove_all_gone: "fst (fs_remove_all p w) = Inr () \<Longrightarrow> below p q \<Longrightarrow> node_at (snd (fs_remove_all p w)) q = None"
proof -
  assume r: "fst (fs_remove_all p w) = Inr ()" and b: "below p q"
  have "q \<in> fst ` set (w_nodes w) \<or> node_at w q = None" by (metis map_of_eq_None_iff node_at_def)
  then show ?thesis using r b by (auto simp: fs_remove_all_def Let_def node_at_del_nodes split: if_splits)
qed

section \<open>Pruning\<close>

text \<open>
  The three pruning routines are one function of the test for a terminal record, its start and its
  identifier. \<open>sort.Slice\<close> is not stable; a stable sort of the records in an arbitrary order of iteration
  has the same results.
\<close>

definition max_history :: nat where "max_history = 500"

definition prune_records ::
    "nat \<Rightarrow> ('r \<Rightarrow> bool) \<Rightarrow> ('r \<Rightarrow> gotime) \<Rightarrow> ('r \<Rightarrow> string) \<Rightarrow> (string, 'r) gomap \<Rightarrow> (string, 'r) gomap" where
  "prune_records cap terminal started ident m =
     (let ts = filter terminal (map snd m) in
      if length ts \<le> cap then m
      else foldl (\<lambda>m r. AList.delete (ident r) m) m (drop cap (sort_key (\<lambda>r. - started r) ts)))"

definition table_ok :: "('r \<Rightarrow> string) \<Rightarrow> (string, 'r) gomap \<Rightarrow> bool" where
  "table_ok ident m \<longleftrightarrow> distinct (map fst m) \<and> (\<forall>(k, r)\<in>set m. k = ident r)"

lemma fold_delete: "foldl (\<lambda>m r. AList.delete (ident r) m) m rs = filter (\<lambda>(k, _). k \<notin> ident ` set rs) m"
proof (induction rs arbitrary: m)
  case (Cons r rs)
  have "filter (\<lambda>(k, _). k \<notin> ident ` set rs) (AList.delete (ident r) m) = filter (\<lambda>(k, _). k \<notin> ident ` set (r # rs)) m"
    by (auto simp: AList.delete_eq intro!: filter_cong)
  with Cons show ?case by simp
qed simp

text \<open>The records that pruning removes.\<close>

definition pruned :: "nat \<Rightarrow> ('r \<Rightarrow> bool) \<Rightarrow> ('r \<Rightarrow> gotime) \<Rightarrow> (string, 'r) gomap \<Rightarrow> 'r list" where
  "pruned cap terminal started m = drop cap (sort_key (\<lambda>r. - started r) (filter terminal (map snd m)))"

lemma prune_records_filter:
  "prune_records cap terminal started ident m = filter (\<lambda>(k, _). k \<notin> ident ` set (pruned cap terminal started m)) m"
proof (cases "length (filter terminal (map snd m)) \<le> cap")
  case True
  then have "pruned cap terminal started m = []" by (simp add: pruned_def)
  with True show ?thesis by (simp add: prune_records_def case_prod_beta')
qed (simp add: prune_records_def Let_def fold_delete pruned_def)

lemma set_pruned: "r \<in> set (pruned cap terminal started m) \<Longrightarrow> terminal r \<and> r \<in> snd ` set m"
  unfolding pruned_def by (auto dest!: in_set_dropD)

lemma table_ok_unique: "table_ok ident m \<Longrightarrow> (k, r) \<in> set m \<Longrightarrow> (k', r') \<in> set m \<Longrightarrow> ident r = ident r' \<Longrightarrow> k = k' \<and> r = r'"
  unfolding table_ok_def by (metis (mono_tags, lifting) case_prodD eq_key_imp_eq_value)

lemma table_ok_get: "table_ok ident m \<Longrightarrow> map_of m k = Some r \<longleftrightarrow> (k, r) \<in> set m"
  by (simp add: table_ok_def)

lemma table_ok_ident: "table_ok ident m \<Longrightarrow> map_of m k = Some r \<Longrightarrow> ident r = k"
  by (auto simp: table_ok_get) (auto simp: table_ok_def)

lemma table_ok_key: "table_ok ident m \<Longrightarrow> (k, r) \<in> set m \<Longrightarrow> ident r = k"
  by (auto simp: table_ok_def)

lemma table_ok_filter: "table_ok ident m \<Longrightarrow> table_ok ident (filter P m)"
  by (auto simp: table_ok_def distinct_map_filter)

lemma table_ok_update: "table_ok ident m \<Longrightarrow> ident r = k \<Longrightarrow> table_ok ident (AList.update k r m)"
proof -
  assume t: "table_ok ident m" "ident r = k"
  have "distinct (map fst (AList.update k r m))" using t by (simp add: table_ok_def distinct_update)
  moreover have "k' = ident r'" if "(k', r') \<in> set (AList.update k r m)" for k' r'
  proof -
    have "map_of (AList.update k r m) k' = Some r'" using that calculation by simp
    then have "k' = k \<and> r' = r \<or> map_of m k' = Some r'" by (auto simp: update_conv' split: if_splits)
    then show ?thesis using t table_ok_ident [of ident m k' r'] by auto
  qed
  ultimately show ?thesis by (auto simp: table_ok_def)
qed

text \<open>In a well-formed table exactly the records that pruning picks go.\<close>

lemma set_prune:
  assumes "table_ok ident m"
  shows "(k, r) \<in> set (prune_records cap terminal started ident m) \<longleftrightarrow>
    (k, r) \<in> set m \<and> r \<notin> set (pruned cap terminal started m)"
proof -
  have "k \<in> ident ` set (pruned cap terminal started m) \<longleftrightarrow> r \<in> set (pruned cap terminal started m)" if "(k, r) \<in> set m"
  proof
    assume "k \<in> ident ` set (pruned cap terminal started m)"
    then obtain r' where r': "r' \<in> set (pruned cap terminal started m)" "k = ident r'" by blast
    from set_pruned [OF r'(1)] obtain k' where "(k', r') \<in> set m" by force
    with r' show "r \<in> set (pruned cap terminal started m)"
      using table_ok_unique [OF assms that, of k' r'] table_ok_key [OF assms that] by simp
  next
    assume "r \<in> set (pruned cap terminal started m)"
    then show "k \<in> ident ` set (pruned cap terminal started m)"
      using table_ok_key [OF assms that] by blast
  qed
  then show ?thesis by (auto simp: prune_records_filter)
qed

lemma prune_map:
  assumes "table_ok ident m"
  shows "map_of (prune_records cap terminal started ident m) k = Some r \<longleftrightarrow>
    map_of m k = Some r \<and> r \<notin> set (pruned cap terminal started m)"
  using set_prune [OF assms, of k r cap terminal started] table_ok_get [OF assms, of k r]
    table_ok_get [of ident "prune_records cap terminal started ident m" k r] table_ok_filter [OF assms]
  by (metis prune_records_filter)

lemma table_ok_prune: "table_ok ident m \<Longrightarrow> table_ok ident (prune_records cap terminal started ident m)"
  by (simp add: prune_records_filter table_ok_filter)

lemma distinct_values: "table_ok ident m \<Longrightarrow> distinct (map snd m)"
proof -
  assume t: "table_ok ident m"
  then have "map fst m = map ident (map snd m)" by (auto simp: table_ok_def)
  then have "distinct (map ident (map snd m))" using t by (metis table_ok_def)
  then show ?thesis by (simp only: distinct_map)
qed

lemma prune_terminals:
  assumes "table_ok ident m"
  shows "length (filter terminal (map snd (prune_records cap terminal started ident m))) \<le> cap"
proof -
  let ?ts = "sort_key (\<lambda>r. - started r) (filter terminal (map snd m))"
  have d: "distinct ?ts" using distinct_values [OF assms] by simp
  have "set (filter terminal (map snd (prune_records cap terminal started ident m))) \<subseteq> set (take cap ?ts)"
  proof
    fix r assume "r \<in> set (filter terminal (map snd (prune_records cap terminal started ident m)))"
    then obtain k where "(k, r) \<in> set m" "r \<notin> set (drop cap ?ts)" "terminal r"
      using set_prune [OF assms] by (auto simp: pruned_def)
    then have "r \<in> set ?ts" by force
    then show "r \<in> set (take cap ?ts)" using \<open>r \<notin> set (drop cap ?ts)\<close>
      by (metis append_take_drop_id set_append Un_iff)
  qed
  moreover have "distinct (filter terminal (map snd (prune_records cap terminal started ident m)))"
    using distinct_values [OF table_ok_prune [OF assms]] by simp
  ultimately have "length (filter terminal (map snd (prune_records cap terminal started ident m))) \<le> card (set (take cap ?ts))"
    by (metis List.finite_set card_mono distinct_card)
  also have "\<dots> \<le> cap" using card_length [of "take cap ?ts"] by simp
  finally show ?thesis .
qed

lemma pruned_older:
  assumes "r \<in> set (pruned cap terminal started m)" "r' \<in> snd ` set m" "terminal r'"
    and "r' \<notin> set (pruned cap terminal started m)"
  shows "started r \<le> started r'"
proof -
  let ?ts = "sort_key (\<lambda>r. - started r) (filter terminal (map snd m))"
  have "r' \<in> set ?ts" using assms(2,3) by auto
  then have "r' \<in> set (take cap ?ts)" using assms(4) unfolding pruned_def by (metis append_take_drop_id set_append Un_iff)
  moreover have "sorted (map (\<lambda>r. - started r) (take cap ?ts @ drop cap ?ts))" by simp
  then have "\<forall>x\<in>set (take cap ?ts). \<forall>y\<in>set (drop cap ?ts). - started x \<le> - started y"
    unfolding map_append sorted_append by auto
  ultimately show ?thesis using assms(1) by (auto simp: pruned_def)
qed

section \<open>The table of operations as an interface\<close>

text \<open>What the operations on a table rely on, whatever the records are.\<close>

locale pruned_table =
  fixes prune :: "(string, 'r) gomap \<Rightarrow> (string, 'r) gomap"
    and terminal :: "'r \<Rightarrow> bool" and ident :: "'r \<Rightarrow> string" and cap :: nat
  assumes prune_ok: "table_ok ident m \<Longrightarrow> table_ok ident (prune m)"
    and prune_sub: "table_ok ident m \<Longrightarrow> map_of (prune m) k = Some r \<Longrightarrow> map_of m k = Some r"
    and prune_keeps: "table_ok ident m \<Longrightarrow> map_of m k = Some r \<Longrightarrow> \<not> terminal r \<Longrightarrow> map_of (prune m) k = Some r"
    and prune_cap: "table_ok ident m \<Longrightarrow> length (filter terminal (map snd (prune m))) \<le> cap"
begin

text \<open>Storing a record and pruning: the table stays well formed and bounded, what else is in it was there.\<close>

lemma store_prune:
  assumes "table_ok ident m" "ident r = k"
  shows "table_ok ident (prune (AList.update k r m))"
    "\<And>k' r'. map_of (prune (AList.update k r m)) k' = Some r' \<Longrightarrow> (if k' = k then r' = r else map_of m k' = Some r')"
    "\<And>k' r'. k' \<noteq> k \<Longrightarrow> map_of m k' = Some r' \<Longrightarrow> \<not> terminal r' \<Longrightarrow> map_of (prune (AList.update k r m)) k' = Some r'"
    "\<not> terminal r \<Longrightarrow> map_of (prune (AList.update k r m)) k = Some r"
    "length (filter terminal (map snd (prune (AList.update k r m)))) \<le> cap"
proof -
  note t = table_ok_update [OF assms]
  show "table_ok ident (prune (AList.update k r m))" by (rule prune_ok [OF t])
  show "if k' = k then r' = r else map_of m k' = Some r'" if "map_of (prune (AList.update k r m)) k' = Some r'" for k' r'
    using prune_sub [OF t that] by (auto simp: update_conv')
  show "map_of (prune (AList.update k r m)) k' = Some r'" if "k' \<noteq> k" "map_of m k' = Some r'" "\<not> terminal r'" for k' r'
    using prune_keeps [OF t _ that(3)] that by (simp add: update_conv')
  show "map_of (prune (AList.update k r m)) k = Some r" if "\<not> terminal r"
    using prune_keeps [OF t _ that] by (simp add: update_conv')
  show "length (filter terminal (map snd (prune (AList.update k r m)))) \<le> cap" by (rule prune_cap [OF t])
qed

end

lemma pruned_table_records: "pruned_table (prune_records cap terminal started ident) terminal ident cap"
proof (unfold_locales, goal_cases)
  case (3 m k r)
  then have "r \<notin> set (pruned cap terminal started m)" using set_pruned [of r cap terminal started m] by blast
  then show ?case using 3(2) by (simp add: prune_map [OF 3(1)])
next
  case (2 m k r)
  then show ?case by (simp add: prune_map [OF 2(1)])
qed (rule table_ok_prune, assumption, rule prune_terminals, assumption)

end
