(* ===== verification/Jobs.thy ===== *)
theory Jobs
  imports Sender ReceiverPaths Discovery Records
begin

text \<open>
  The jobs of the agent, \<open>cmd/multisend-agent/send.go\<close>: the table of jobs behind \<open>jobsMu\<close>, creating, cancelling,
  resuming and finishing a job, its progress, and the refreshing of its counters from the manifest
  of the transfer. Each function is one section of code under the lock. A context is a number, and
  cancelling it puts the number on a list. A time stamp in text form is the time it denotes, 0 for
  the empty string. HTTP and logging are left out.
\<close>

section \<open>Data\<close>

record channel_progress =
  cp_bytes_sent :: int64
  cp_total_bytes :: int64
  cp_percent :: rat
  cp_mbps_now :: rat
  cp_mbps_avg :: rat
  cp_mbps30s :: rat
  cp_state :: string
  cp_interface :: string
  cp_local_ip :: string
  cp_failures :: int64
  cp_last_error :: string

record failed_chunk_ref =
  fc_index :: int64
  fc_attempts :: int
  fc_last_error :: string
  fc_channel :: string

record job_details =
  jd_id :: string
  jd_file_path :: string
  jd_status :: string
  jd_message :: string
  jd_bytes_sent :: int64
  jd_total_bytes :: int64
  jd_percent :: rat
  jd_mbps_now :: rat
  jd_mbps_avg :: rat
  jd_mbps30s :: rat
  jd_eta_seconds :: int64
  jd_cable :: channel_progress
  jd_wifi :: channel_progress
  jd_started_at :: gotime
  jd_updated_at :: gotime
  jd_completed_at :: gotime
  jd_chunks_total :: int64
  jd_chunks_done :: int64
  jd_chunks_failed :: int64
  jd_chunks_pending :: int64
  jd_chunks_sending :: int64
  jd_resume_supported :: bool
  jd_manifest_path :: string
  jd_last_error :: string
  jd_failed_chunks :: "failed_chunk_ref list"

record progress_sample =
  sm_at :: gotime
  sm_total :: int64
  sm_cable :: int64
  sm_wifi :: int64

record job_state =
  js_details :: job_details
  js_file_path :: string
  js_target_addr :: string
  js_lab :: bool
  js_lab_path :: string
  js_receive_rel_path :: string
  js_publish_name :: string
  js_folder_result :: string
  js_cleanup_path :: string
  js_chunk_size :: int64
  js_started_at :: gotime
  js_last_at :: gotime
  js_last_total :: int64
  js_last_cable :: int64
  js_last_wifi :: int64
  js_samples :: "progress_sample list"
  js_cancel :: "nat option" \<comment> \<open>the context that \<open>cancelFunc\<close> cancels\<close>

record persisted_job =
  pj_version :: int
  pj_details :: job_details
  pj_file_path :: string
  pj_target_addr :: string
  pj_lab :: bool
  pj_lab_path :: string
  pj_receive_rel_path :: string
  pj_publish_name :: string
  pj_folder_result :: string
  pj_cleanup_path :: string
  pj_chunk_size :: int64

text \<open>What the operations read and do not change: the configuration, the directories and the JSON codecs.\<close>

record agent_env =
  ae_cfg :: config
  ae_config_path :: string
  ae_cwd :: string
  ae_temp_dir :: string
  ae_profile :: string
  ae_encode :: "persisted_job \<Rightarrow> bytes result"
  ae_unmarshal :: "bytes \<Rightarrow> manifest result"

record agent =
  ag_jobs :: "(string, job_state) gomap"
  ag_canceled :: "nat list" \<comment> \<open>contexts that have been cancelled\<close>
  ag_next_ctx :: nat
  ag_world :: world

definition zero_progress :: channel_progress where
  "zero_progress = \<lparr>cp_bytes_sent = 0, cp_total_bytes = 0, cp_percent = 0, cp_mbps_now = 0, cp_mbps_avg = 0,
     cp_mbps30s = 0, cp_state = '''', cp_interface = '''', cp_local_ip = '''', cp_failures = 0, cp_last_error = ''''\<rparr>"

text \<open>\<open>t.Format(time.RFC3339)\<close> keeps the seconds.\<close>

definition rfc3339 :: "gotime \<Rightarrow> gotime" where
  "rfc3339 t = t div second * second"

definition job_terminal :: "job_state \<Rightarrow> bool" where
  "job_terminal st \<longleftrightarrow> jd_status (js_details st) \<in> {''done'', ''failed'', ''canceled''}"

definition job_ident :: "job_state \<Rightarrow> string" where "job_ident st = jd_id (js_details st)"

definition upd_details :: "(job_details \<Rightarrow> job_details) \<Rightarrow> job_state \<Rightarrow> job_state" where
  "upd_details f st = st\<lparr>js_details := f (js_details st)\<rparr>"

section \<open>Persistence\<close>

definition operation_history_version :: int where "operation_history_version = 1"

definition operation_history_dir :: "string \<Rightarrow> string \<Rightarrow> string" where
  "operation_history_dir configPath kind =
     (if trim_space configPath = '''' \<or> \<not> is_abs configPath then ''''
      else join_path [dir_name configPath, ''history'', kind])"

definition persisted_of :: "job_state \<Rightarrow> persisted_job" where
  "persisted_of st = \<lparr>pj_version = operation_history_version, pj_details = js_details st, pj_file_path = js_file_path st,
     pj_target_addr = js_target_addr st, pj_lab = js_lab st, pj_lab_path = js_lab_path st,
     pj_receive_rel_path = js_receive_rel_path st, pj_publish_name = js_publish_name st,
     pj_folder_result = js_folder_result st, pj_cleanup_path = js_cleanup_path st, pj_chunk_size = js_chunk_size st\<rparr>"

text \<open>An error of the save is only logged.\<close>

definition persist_job :: "agent_env \<Rightarrow> job_state \<Rightarrow> world \<Rightarrow> world" where
  "persist_job env st w =
     (if \<not> valid_id ''job-'' (job_ident st) then w
      else let dir = operation_history_dir (ae_config_path env) ''jobs'' in
        if dir = '''' then w
        else snd (save_json_atomic (record_path dir (job_ident st)) (ae_encode env (persisted_of st)) w))"

definition prune_jobs :: "(string, job_state) gomap \<Rightarrow> (string, job_state) gomap" where
  "prune_jobs m = prune_records max_history job_terminal js_started_at job_ident m"

interpretation jobs_table: pruned_table prune_jobs job_terminal job_ident max_history
  unfolding prune_jobs_def by (rule pruned_table_records)

section \<open>Counters from the manifest\<close>

definition percent_of :: "int64 \<Rightarrow> int64 \<Rightarrow> rat" where
  "percent_of n tot = fdiv (fmul (fof_int n) 100) (fof_int tot)"

text \<open>
  The loop of \<open>refreshJobFromManifestLocked\<close> over the chunks. The manifest comes from \<open>manifest.Load\<close>, which
  has already turned every sending chunk into a pending one.
\<close>

definition apply_manifest :: "manifest \<Rightarrow> job_details \<Rightarrow> job_details" where
  "apply_manifest mf d =
     (let failed = filter (\<lambda>c. cs_status c = StatusFailed) (mf_chunks mf);
          lastErr = (if jd_last_error d \<noteq> '''' then jd_last_error d
                     else case find (\<lambda>c. cs_last_error c \<noteq> '''') failed of None \<Rightarrow> '''' | Some c \<Rightarrow> cs_last_error c);
          doneBytes = done_bytes mf;
          d = d\<lparr>jd_last_error := lastErr, jd_chunks_total := int (length (mf_chunks mf)),
                jd_chunks_done := count_status StatusDone mf, jd_chunks_failed := count_status StatusFailed mf,
                jd_chunks_pending := int (length (filter (\<lambda>c. cs_status c \<notin> {StatusDone, StatusFailed, StatusSending}) (mf_chunks mf))),
                jd_chunks_sending := count_status StatusSending mf\<rparr>;
          d = (if jd_bytes_sent d < doneBytes then
                 (if 0 < jd_total_bytes d
                  then d\<lparr>jd_bytes_sent := doneBytes, jd_percent := percent_of doneBytes (jd_total_bytes d)\<rparr>
                  else d\<lparr>jd_bytes_sent := doneBytes\<rparr>)
               else d)
      in d\<lparr>jd_failed_chunks := map (\<lambda>c. \<lparr>fc_index = cs_index c, fc_attempts = cs_attempts c,
             fc_last_error = cs_last_error c, fc_channel = cs_channel c\<rparr>) (take 5 failed)\<rparr>)"

definition refresh_job :: "agent_env \<Rightarrow> job_details \<Rightarrow> world \<Rightarrow> job_details \<times> world" where
  "refresh_job env d w =
     (if jd_manifest_path d = '''' then (d, w)
      else case load_file (ae_unmarshal env) (jd_manifest_path d) w of
             (Inl _, w) \<Rightarrow> (d, w)
           | (Inr mf, w) \<Rightarrow> (apply_manifest mf d, w))"

definition refresh_state :: "agent_env \<Rightarrow> job_state \<Rightarrow> world \<Rightarrow> job_state \<times> world" where
  "refresh_state env st w =
     (let (d, w) = refresh_job env (js_details st) w in (st\<lparr>js_details := d\<rparr>, w))"

section \<open>Operations\<close>

definition set_job :: "string \<Rightarrow> job_state \<Rightarrow> agent \<Rightarrow> agent" where
  "set_job ident st ag = ag\<lparr>ag_jobs := AList.update ident st (ag_jobs ag)\<rparr>"

definition persist :: "agent_env \<Rightarrow> job_state \<Rightarrow> agent \<Rightarrow> agent" where
  "persist env st ag = ag\<lparr>ag_world := persist_job env st (ag_world ag)\<rparr>"

definition cancel_ctx :: "nat option \<Rightarrow> agent \<Rightarrow> agent" where
  "cancel_ctx c ag = (case c of None \<Rightarrow> ag | Some k \<Rightarrow> ag\<lparr>ag_canceled := k # ag_canceled ag\<rparr>)"

definition new_details :: "gotime \<Rightarrow> string \<Rightarrow> int64 \<Rightarrow> string \<Rightarrow> job_details" where
  "new_details now ident totalBytes filePath =
     \<lparr>jd_id = ident, jd_file_path = filePath, jd_status = ''running'', jd_message = '''', jd_bytes_sent = 0,
      jd_total_bytes = totalBytes, jd_percent = 0, jd_mbps_now = 0, jd_mbps_avg = 0, jd_mbps30s = 0,
      jd_eta_seconds = - 1, jd_cable = zero_progress, jd_wifi = zero_progress, jd_started_at = rfc3339 now,
      jd_updated_at = rfc3339 now, jd_completed_at = 0, jd_chunks_total = 0, jd_chunks_done = 0,
      jd_chunks_failed = 0, jd_chunks_pending = 0, jd_chunks_sending = 0, jd_resume_supported = True,
      jd_manifest_path = '''', jd_last_error = '''', jd_failed_chunks = []\<rparr>"

text \<open>The result is the new context.\<close>

definition create_job ::
    "agent_env \<Rightarrow> gotime \<Rightarrow> string \<Rightarrow> int64 \<Rightarrow> string \<Rightarrow> string \<Rightarrow> send_options \<Rightarrow> string \<Rightarrow> agent \<Rightarrow> nat \<times> agent" where
  "create_job env now ident totalBytes filePath targetAddr opts cleanupPath ag =
     (let ctx = ag_next_ctx ag;
          st = \<lparr>js_details = new_details now ident totalBytes filePath, js_file_path = filePath,
            js_target_addr = targetAddr, js_lab = so_lab opts, js_lab_path = so_lab_receive_path opts,
            js_receive_rel_path = so_receive_rel_path opts, js_publish_name = so_publish_name opts,
            js_folder_result = so_folder_result opts, js_cleanup_path = cleanupPath,
            js_chunk_size = so_chunk_size opts, js_started_at = now, js_last_at = now, js_last_total = 0,
            js_last_cable = 0, js_last_wifi = 0, js_samples = [], js_cancel = Some ctx\<rparr>;
          ag = persist env st (set_job ident st (ag\<lparr>ag_next_ctx := Suc ctx\<rparr>))
      in (ctx, ag\<lparr>ag_jobs := prune_jobs (ag_jobs ag)\<rparr>))"

definition persisted_send_options :: "job_state \<Rightarrow> send_options" where
  "persisted_send_options st = \<lparr>so_explicit_resume = True, so_chunk_size = js_chunk_size st, so_lab = js_lab st,
     so_lab_receive_path = js_lab_path st, so_receive_rel_path = js_receive_rel_path st,
     so_publish_name = js_publish_name st, so_folder_result = js_folder_result st,
     so_allow_new_interfaces = False, so_auth_secret = ''''\<rparr>"

text \<open>The result of a resume is what the new sender is started with: its context and options.\<close>

definition resume_job :: "agent_env \<Rightarrow> gotime \<Rightarrow> string \<Rightarrow> agent \<Rightarrow> (nat \<times> send_options) result \<times> agent" where
  "resume_job env now ident ag =
     (case map_of (ag_jobs ag) ident of
        None \<Rightarrow> (Inl ''job not found'', ag)
      | Some st \<Rightarrow>
          if jd_status (js_details st) \<noteq> ''canceled'' \<and> jd_status (js_details st) \<noteq> ''failed'' then (Inl ''job is not resumable'', ag)
          else if \<not> jd_resume_supported (js_details st) then (Inl ''job is not safely resumable'', ag)
          else if js_file_path st = '''' \<or> js_target_addr st = '''' then (Inl ''missing job request context'', ag)
          else
            (let ctx = ag_next_ctx ag;
                 st = upd_details (\<lambda>d. d\<lparr>jd_status := ''running'', jd_message := '''', jd_updated_at := rfc3339 now\<rparr>)
                        (st\<lparr>js_cancel := Some ctx\<rparr>)
             in (Inr (ctx, persisted_send_options st),
                 persist env st (set_job ident st (ag\<lparr>ag_next_ctx := Suc ctx\<rparr>)))))"

definition cancel_job :: "agent_env \<Rightarrow> gotime \<Rightarrow> string \<Rightarrow> agent \<Rightarrow> bool \<times> agent" where
  "cancel_job env now ident ag =
     (case map_of (ag_jobs ag) ident of
        None \<Rightarrow> (False, ag)
      | Some st \<Rightarrow>
          if job_terminal st then (True, ag)
          else
            (let st = upd_details (\<lambda>d. d\<lparr>jd_status := ''canceling'', jd_message := ''cancel requested'',
                        jd_updated_at := rfc3339 now\<rparr>) st
             in (True, persist env st (cancel_ctx (js_cancel st) (set_job ident st ag)))))"

definition finish_job :: "agent_env \<Rightarrow> gotime \<Rightarrow> string \<Rightarrow> string \<Rightarrow> string \<Rightarrow> agent \<Rightarrow> agent" where
  "finish_job env now ident status message ag =
     (case map_of (ag_jobs ag) ident of
        None \<Rightarrow> ag
      | Some st \<Rightarrow>
          (let st = upd_details (\<lambda>d. d\<lparr>jd_status := status, jd_message := message,
                 jd_last_error := (if message \<noteq> '''' \<and> status = ''failed'' then message else jd_last_error d),
                 jd_updated_at := rfc3339 now, jd_completed_at := rfc3339 now, jd_eta_seconds := 0, jd_mbps_now := 0,
                 jd_cable := (jd_cable d)\<lparr>cp_mbps_now := 0\<rparr>, jd_wifi := (jd_wifi d)\<lparr>cp_mbps_now := 0\<rparr>\<rparr>) st;
               ag = cancel_ctx (js_cancel st) ag;
               (st, w) = refresh_state env (st\<lparr>js_cancel := None\<rparr>) (ag_world ag);
               ag = persist env st (set_job ident st (ag\<lparr>ag_world := w\<rparr>))
           in ag\<lparr>ag_jobs := prune_jobs (ag_jobs ag)\<rparr>))"

definition set_job_manifest :: "agent_env \<Rightarrow> string \<Rightarrow> string \<Rightarrow> agent \<Rightarrow> agent" where
  "set_job_manifest env ident path ag =
     (if path = '''' then ag
      else case map_of (ag_jobs ag) ident of
        None \<Rightarrow> ag
      | Some st \<Rightarrow>
          (let (st, w) = refresh_state env (upd_details (\<lambda>d. d\<lparr>jd_manifest_path := path\<rparr>) st) (ag_world ag)
           in persist env st (set_job ident st (ag\<lparr>ag_world := w\<rparr>))))"

section \<open>Progress\<close>

definition mbps :: "int64 \<Rightarrow> rat \<Rightarrow> rat" where
  "mbps bytes secs = fdiv (fmul (fof_int bytes) 8) (fmul secs 1000000)"

text \<open>A conversion of a double to \<open>int64\<close>: towards zero; out of range, amd64 gives the least value.\<close>

definition int_of_double :: "rat \<Rightarrow> int64" where
  "int_of_double x = (let n = (if 0 \<le> x then \<lfloor>x\<rfloor> else \<lceil>x\<rceil>) in if in_i64 n then n else min_i64)"

definition channel_snapshot :: "(string, channel_detail) gomap \<Rightarrow> string \<Rightarrow> int64 \<Rightarrow> int64 \<Rightarrow> channel_progress \<Rightarrow> channel_progress" where
  "channel_snapshot details name sent tot p =
     (let p = p\<lparr>cp_total_bytes := tot, cp_bytes_sent := sent,
                cp_percent := (if 0 < tot then percent_of sent tot else cp_percent p)\<rparr>
      in case map_of details name of
           None \<Rightarrow> p
         | Some d \<Rightarrow> p\<lparr>cp_state := cd_state d, cp_interface := cd_interface_name d, cp_local_ip := cd_local_ip d,
                       cp_failures := cd_failures d, cp_last_error := cd_last_error d\<rparr>)"

definition copy_snapshot :: "progress_snapshot \<Rightarrow> job_details \<Rightarrow> job_details" where
  "copy_snapshot s d =
     d\<lparr>jd_total_bytes := ps_total_size s, jd_bytes_sent := ps_total_bytes s,
       jd_percent := (if 0 < ps_total_size s then percent_of (ps_total_bytes s) (ps_total_size s) else jd_percent d),
       jd_cable := channel_snapshot (ps_channel_details s) ''cable'' (ps_cable_bytes s) (ps_cable_total s) (jd_cable d),
       jd_wifi := channel_snapshot (ps_channel_details s) ''wifi'' (ps_wifi_bytes s) (ps_wifi_total s) (jd_wifi d),
       jd_chunks_total := ps_chunks_total s, jd_chunks_done := ps_chunks_done s, jd_chunks_failed := ps_chunks_failed s,
       jd_chunks_pending := ps_chunks_pending s, jd_chunks_sending := ps_chunks_sending s,
       jd_resume_supported := ps_resume_supported s,
       jd_manifest_path := (if ps_manifest_path s \<noteq> '''' then ps_manifest_path s else jd_manifest_path d)\<rparr>"

text \<open>The rates since the last snapshot and since the start.\<close>

definition current_rate :: "rat \<Rightarrow> int64 \<Rightarrow> rat \<Rightarrow> rat" where
  "current_rate secs delta old = (if 0 \<le> delta then mbps delta secs else old)"

definition update_rates :: "gotime \<Rightarrow> progress_snapshot \<Rightarrow> job_state \<Rightarrow> job_state" where
  "update_rates now s st =
     (let d = js_details st; deltaSec = seconds (now - js_last_at st); elapsed = seconds (now - js_started_at st);
          d = (if 0 < deltaSec then
                 d\<lparr>jd_mbps_now := current_rate deltaSec (i64 (jd_bytes_sent d - js_last_total st)) (jd_mbps_now d),
                   jd_cable := (jd_cable d)\<lparr>cp_mbps_now :=
                     current_rate deltaSec (i64 (ps_cable_bytes s - js_last_cable st)) (cp_mbps_now (jd_cable d))\<rparr>,
                   jd_wifi := (jd_wifi d)\<lparr>cp_mbps_now :=
                     current_rate deltaSec (i64 (ps_wifi_bytes s - js_last_wifi st)) (cp_mbps_now (jd_wifi d))\<rparr>\<rparr>
               else d);
          d = (if 0 < elapsed then
                 d\<lparr>jd_mbps_avg := mbps (jd_bytes_sent d) elapsed,
                   jd_cable := (jd_cable d)\<lparr>cp_mbps_avg := mbps (ps_cable_bytes s) elapsed\<rparr>,
                   jd_wifi := (jd_wifi d)\<lparr>cp_mbps_avg := mbps (ps_wifi_bytes s) elapsed\<rparr>\<rparr>
               else d)
      in st\<lparr>js_details := d\<rparr>)"

text \<open>The window of the samples of the last thirty seconds, and the rates over it.\<close>

definition add_sample :: "gotime \<Rightarrow> progress_sample \<Rightarrow> progress_sample list \<Rightarrow> progress_sample list" where
  "add_sample now smp samples = dropWhile (\<lambda>x. sm_at x < now - 30 * second) (samples @ [smp])"

definition update_window :: "gotime \<Rightarrow> progress_snapshot \<Rightarrow> job_state \<Rightarrow> job_state" where
  "update_window now s st =
     (let d = js_details st;
          samples = add_sample now \<lparr>sm_at = now, sm_total = jd_bytes_sent d, sm_cable = ps_cable_bytes s,
                      sm_wifi = ps_wifi_bytes s\<rparr> (js_samples st);
          st = st\<lparr>js_samples := samples\<rparr>
      in if length samples < 2 then st
         else let x = hd samples; y = last samples; windowSec = seconds (sm_at y - sm_at x) in
           if 0 < windowSec
           then upd_details (\<lambda>d. d\<lparr>jd_mbps30s := mbps (i64 (sm_total y - sm_total x)) windowSec,
                  jd_cable := (jd_cable d)\<lparr>cp_mbps30s := mbps (i64 (sm_cable y - sm_cable x)) windowSec\<rparr>,
                  jd_wifi := (jd_wifi d)\<lparr>cp_mbps30s := mbps (i64 (sm_wifi y - sm_wifi x)) windowSec\<rparr>\<rparr>) st
           else st)"

definition eta :: "job_details \<Rightarrow> int64" where
  "eta d =
     (if 0 < jd_mbps_now d \<and> jd_bytes_sent d < jd_total_bytes d then
        (let bps = fdiv (fmul (jd_mbps_now d) 1000000) 8 in
         if 0 < bps then int_of_double (fdiv (fof_int (i64 (jd_total_bytes d - jd_bytes_sent d))) bps) else - 1)
      else if jd_total_bytes d \<le> jd_bytes_sent d \<and> 0 < jd_total_bytes d then 0
      else - 1)"

definition update_job_progress :: "agent_env \<Rightarrow> gotime \<Rightarrow> string \<Rightarrow> progress_snapshot \<Rightarrow> agent \<Rightarrow> agent" where
  "update_job_progress env now ident s ag =
     (case map_of (ag_jobs ag) ident of
        None \<Rightarrow> ag
      | Some st \<Rightarrow>
          if job_terminal st then ag
          else
            (let attached = (jd_manifest_path (js_details st) = '''' \<and> ps_manifest_path s \<noteq> '''');
                 (st, w) = refresh_state env (upd_details (copy_snapshot s) st) (ag_world ag);
                 st = update_window now s (update_rates now s st);
                 st = upd_details (\<lambda>d. d\<lparr>jd_eta_seconds := eta d, jd_updated_at := rfc3339 now\<rparr>) st;
                 st = st\<lparr>js_last_at := now, js_last_total := jd_bytes_sent (js_details st),
                         js_last_cable := ps_cable_bytes s, js_last_wifi := ps_wifi_bytes s\<rparr>;
                 ag = set_job ident st (ag\<lparr>ag_world := w\<rparr>)
             in if attached then persist env st ag else ag))"

section \<open>Starting a send\<close>

record send_target_options =
  sto_lab :: bool
  sto_lab_receive_path :: string
  sto_receive_rel_path :: string
  sto_publish_name :: string
  sto_folder_result :: string
  sto_cleanup_path :: string

definition validate_chunk_size_mb :: "int64 \<Rightarrow> unit result" where
  "validate_chunk_size_mb v = (if v < 0 \<or> 1024 < v then Inl ''chunk_size_mb must be between 0 and 1024'' else Inr ())"

text \<open>The options that the request and the kind of the target give.\<close>

definition zero_send_options :: send_options where
  "zero_send_options = \<lparr>so_explicit_resume = False, so_chunk_size = 0, so_lab = False, so_lab_receive_path = '''',
     so_receive_rel_path = '''', so_publish_name = '''', so_folder_result = '''', so_allow_new_interfaces = False,
     so_auth_secret = ''''\<rparr>"

definition peer_options :: "send_target_options \<Rightarrow> send_options \<Rightarrow> send_options result" where
  "peer_options t so =
     (case (if trim_space (sto_receive_rel_path t) \<noteq> '''' then validate_receive_rel_path (sto_receive_rel_path t)
            else Inr '''') of
        Inl e \<Rightarrow> Inl (''invalid receive_rel_path: '' @ e)
      | Inr rel \<Rightarrow>
          (let so = so\<lparr>so_receive_rel_path := rel, so_publish_name := sanitize_publish_name (sto_publish_name t)\<rparr>
           in Inr (if so_receive_rel_path so \<noteq> '''' \<or> so_publish_name so \<noteq> '''' \<or> trim_space (sto_folder_result t) \<noteq> ''''
                   then so\<lparr>so_folder_result := normalize_pull_folder_result (sto_folder_result t)\<rparr> else so)))"

definition send_options_of :: "agent_env \<Rightarrow> send_target_options \<Rightarrow> int64 \<Rightarrow> send_options result" where
  "send_options_of env t chunkSizeMB =
     (let so = (if 0 < chunkSizeMB then zero_send_options\<lparr>so_chunk_size := chunkSizeMB * 1024 * 1024\<rparr> else zero_send_options)
      in if \<not> sto_lab t \<and> trim_space (sto_lab_receive_path t) \<noteq> '''' then Inl ''lab_receive_path requires lab=true''
         else if sto_lab t then
           (case validate_lab_receive_path (ae_cwd env) (cfg_receive_path (ae_cfg env)) (sto_lab_receive_path t) of
              Inl e \<Rightarrow> Inl (''invalid lab_receive_path: '' @ e)
            | Inr labPath \<Rightarrow> Inr (so\<lparr>so_lab := True, so_lab_receive_path := labPath\<rparr>))
         else peer_options t so)"

text \<open>The address of a peer: the one of its packets, or the first that it announces.\<close>

definition peer_ip :: "peer \<Rightarrow> string" where
  "peer_ip p = (if peer_addr p = '''' \<and> hl_ips (peer_hello p) \<noteq> [] then hd (hl_ips (peer_hello p)) else peer_addr p)"

definition peer_target :: "peer \<Rightarrow> string" where
  "peer_target p = peer_ip p @ '':'' @ itoa (hl_transfer_port (peer_hello p))"

definition target_address :: "config \<Rightarrow> peer list \<Rightarrow> string \<Rightarrow> string \<Rightarrow> string result" where
  "target_address cfg ps peerNodeID peerAddress =
     (if peerAddress \<noteq> '''' then
        Inr (if CHR '':'' \<notin> set peerAddress
             then peerAddress @ '':'' @ itoa (sp_transfer (cfg_selected_ports cfg)) else peerAddress)
      else case find (\<lambda>p. hl_node_id (peer_hello p) = peerNodeID) ps of
             None \<Rightarrow> Inl ''peer not found''
           | Some p \<Rightarrow> Inr (peer_target p))"

definition resolve_peer_address :: "peer list \<Rightarrow> string \<Rightarrow> string" where
  "resolve_peer_address ps nodeID =
     (if nodeID = '''' then ''''
      else case find (\<lambda>p. hl_node_id (peer_hello p) = nodeID) ps of None \<Rightarrow> '''' | Some p \<Rightarrow> peer_target p)"

text \<open>
  \<open>startSend\<close> up to the start of the sender: the result is the identifier of the job, and the context, path,
  target and options that the sender is started with. \<open>nano\<close> is \<open>time.Now().UnixNano()\<close>.
\<close>

definition start_send ::
    "agent_env \<Rightarrow> peer list \<Rightarrow> int64 \<Rightarrow> gotime \<Rightarrow> string \<Rightarrow> string \<Rightarrow> string \<Rightarrow> send_target_options \<Rightarrow> int64 \<Rightarrow>
     agent \<Rightarrow> (string \<times> nat \<times> string \<times> string \<times> send_options) result \<times> agent" where
  "start_send env ps nano now filePath peerNodeID peerAddress t chunkSizeMB ag =
     (case validate_chunk_size_mb chunkSizeMB of Inl e \<Rightarrow> (Inl e, ag) | Inr _ \<Rightarrow>
      let filePath = trim_space filePath in
      if \<not> is_abs filePath then (Inl ''file_path must be absolute'', ag)
      else let filePath = clean filePath in
      case send_options_of env t chunkSizeMB of Inl e \<Rightarrow> (Inl e, ag) | Inr opts \<Rightarrow>
      case fs_stat filePath (ag_world ag) of
        (Inl _, w) \<Rightarrow> (Inl ''file not found'', ag\<lparr>ag_world := w\<rparr>)
      | (Inr (isFile, sz), w) \<Rightarrow>
          (let ag = ag\<lparr>ag_world := w\<rparr> in
           if \<not> isFile then (Inl ''directory is not supported in v1'', ag)
           else case target_address (ae_cfg env) ps peerNodeID peerAddress of Inl e \<Rightarrow> (Inl e, ag) | Inr target \<Rightarrow>
           let jobID = ''job-'' @ itoa nano;
               (ctx, ag) = create_job env now jobID sz filePath target opts (sto_cleanup_path t) ag
           in (Inr (jobID, ctx, filePath, target, opts), ag)))"

text \<open>\<open>enrichSendOptions\<close>: what the configuration adds, and the bindings that the provider returns.\<close>

definition enrich_send_options :: "config \<Rightarrow> send_options \<Rightarrow> send_options" where
  "enrich_send_options cfg so = so\<lparr>so_allow_new_interfaces := cfg_allow_new_interfaces cfg, so_auth_secret := auth_secret cfg\<rparr>"

definition interface_bindings :: "interface_info list \<Rightarrow> interface_binding list" where
  "interface_bindings infos =
     map (\<lambda>it. \<lparr>ib_name = info_name it, ib_type = info_type it, ib_ip = info_ipv4 it\<rparr>)
       (filter (\<lambda>it. info_usable it \<and> trim_space (info_ipv4 it) \<noteq> '''') infos)"

end
