(* ===== verification/History.thy ===== *)
theory History
  imports Jobs NetAddr
begin

text \<open>
  The history of the agent's operations, \<open>cmd/multisend-agent/history.go\<close>: what is accepted of the records that an earlier
  run of the agent has left, the state a job gets from its record and its manifest, forgetting a job,
  and the removal of the staging directory of a managed source.
\<close>

section \<open>Managed staging directories\<close>

text \<open>The empty result means that there is nothing to clean.\<close>

definition managed_staging :: "agent_env \<Rightarrow> string \<Rightarrow> bool" where
  "managed_staging env cleanupAbs =
     (let tempRoot = abs_path (ae_cwd env) (ae_temp_dir env);
          base = to_lower (base_name cleanupAbs);
          parent = dir_name cleanupAbs;
          launcherRoot = join_path [tempRoot, ''MultiSend'', ''staging'']
      in same_path (ae_cwd env) parent tempRoot \<and> has_prefix base ''multisend-pull-''
         \<or> same_path (ae_cwd env) parent launcherRoot \<and> has_prefix base ''batch-'')"

definition validate_managed_cleanup_path :: "agent_env \<Rightarrow> string \<Rightarrow> string \<Rightarrow> string io" where
  "validate_managed_cleanup_path env filePath cleanupPath =
     (if trim_space cleanupPath = '''' then io_return ''''
      else if \<not> is_abs filePath \<or> \<not> is_abs cleanupPath then io_fail ''managed cleanup paths must be absolute''
      else
        (let fileAbs = abs_path (ae_cwd env) filePath; cleanupAbs = abs_path (ae_cwd env) cleanupPath in
         if \<not> managed_staging env cleanupAbs \<or> \<not> path_within (ae_cwd env) fileAbs cleanupAbs
         then io_fail ''cleanup_path is outside a managed MultiSend staging directory''
         else io_bind (fs_lstat cleanupAbs) (\<lambda>n.
                case n of
                  None \<Rightarrow> io_return cleanupAbs
                | Some Dir \<Rightarrow> io_return cleanupAbs
                | Some _ \<Rightarrow> io_fail ''cleanup_path must be a real directory'')))"

definition remove_managed_cleanup_path :: "agent_env \<Rightarrow> string \<Rightarrow> string \<Rightarrow> unit io" where
  "remove_managed_cleanup_path env filePath cleanupPath =
     io_bind (validate_managed_cleanup_path env filePath cleanupPath) (\<lambda>cleanupAbs.
       if cleanupAbs = '''' then io_return () else fs_remove_all cleanupAbs)"

section \<open>Forgetting a job\<close>

definition forget_job :: "agent_env \<Rightarrow> string \<Rightarrow> agent \<Rightarrow> unit result \<times> agent" where
  "forget_job env ident ag =
     (if \<not> valid_id ''job-'' ident then (Inl ''invalid job id'', ag)
      else case map_of (ag_jobs ag) ident of None \<Rightarrow> (Inl ''job not found'', ag) | Some st \<Rightarrow>
      if \<not> job_terminal st then (Inl ''active job cannot be removed'', ag)
      else let dir = operation_history_dir (ae_config_path env) ''jobs'' in
      if trim_space dir = '''' then (Inl ''operation history is unavailable'', ag)
      else
        (case io_bind (if js_cleanup_path st \<noteq> '''' then remove_managed_cleanup_path env (js_file_path st) (js_cleanup_path st)
                       else io_return ())
                (\<lambda>_. fs_remove_if_exists (record_path dir ident)) (ag_world ag) of
           (Inl e, w) \<Rightarrow> (Inl e, ag\<lparr>ag_world := w\<rparr>)
         | (Inr _, w) \<Rightarrow> (Inr (), ag\<lparr>ag_world := w, ag_jobs := AList.delete ident (ag_jobs ag)\<rparr>)))"

text \<open>
  The end of the goroutine that runs a sender: \<open>canceledErr\<close> says whether the error is that of the context.
  After a success the staging directory of the source is removed; an error of that is only logged.
\<close>

definition sender_ended ::
    "agent_env \<Rightarrow> gotime \<Rightarrow> string \<Rightarrow> string \<Rightarrow> string \<Rightarrow> bool \<Rightarrow> string result \<Rightarrow> agent \<Rightarrow> agent" where
  "sender_ended env now ident filePath cleanupPath canceledErr res ag =
     (case res of
        Inl e \<Rightarrow>
          if canceledErr then finish_job env now ident ''canceled'' ''transfer canceled by user'' ag
          else finish_job env now ident ''failed'' e ag
      | Inr manifestPath \<Rightarrow>
          (let ag = finish_job env now ident ''done'' '''' (set_job_manifest env ident manifestPath ag)
           in if cleanupPath = '''' then ag
              else ag\<lparr>ag_world := snd (remove_managed_cleanup_path env filePath cleanupPath (ag_world ag))\<rparr>))"

section \<open>Restoring\<close>

definition chunk_statuses :: "string set" where
  "chunk_statuses = {StatusPending, StatusSending, StatusDone, StatusFailed, StatusCanceled}"

text \<open>The loop of \<open>validP2PHistoryManifest\<close> over the chunks: the end of the plan, or an error.\<close>

fun check_p2p_chunks :: "int64 \<Rightarrow> int64 \<Rightarrow> int64 \<Rightarrow> chunk_state list \<Rightarrow> int64 result" where
  "check_p2p_chunks tot i offset [] = Inr offset"
| "check_p2p_chunks tot i offset (c # cs) =
     (if cs_index c \<noteq> i \<or> cs_offset c \<noteq> offset \<or> cs_size c \<le> 0 \<or> tot - offset < cs_size c \<or> cs_bytes_done c < 0
         \<or> cs_size c < cs_bytes_done c \<or> cs_attempts c < 0 then Inl ''invalid p2p chunk plan''
      else if cs_status c \<notin> chunk_statuses then Inl ''invalid p2p chunk status''
      else check_p2p_chunks tot (i + 1) (offset + cs_size c) cs)"

definition sender_manifest_root :: "string \<Rightarrow> string" where
  "sender_manifest_root profile =
     join_path [if trim_space profile = '''' then ''C:'' @ bs # ''Users'' @ bs # ''Public'' else profile,
       ''Downloads'', ''MultiSend'', ''manifests'']"

definition p2p_manifest_matches :: "string \<Rightarrow> string \<Rightarrow> string \<Rightarrow> string \<Rightarrow> manifest \<Rightarrow> bool" where
  "p2p_manifest_matches cwd manifestPath filePath targetAddr mf =
     (let identity = trim_suffix (base_name manifestPath) ''.manifest.json'' in
      \<not> (identity = base_name manifestPath \<or> identity \<noteq> src_identity (mf_source mf)
         \<or> \<not> same_path cwd (src_abs_path (mf_source mf)) filePath \<or> tgt_address (mf_target mf) \<noteq> targetAddr
         \<or> mf_total_bytes mf \<le> 0 \<or> mf_chunks mf = []))"

definition check_p2p_manifest :: "string \<Rightarrow> string \<Rightarrow> string \<Rightarrow> string \<Rightarrow> manifest \<Rightarrow> manifest result" where
  "check_p2p_manifest cwd manifestPath filePath targetAddr mf =
     (if mf_type mf \<noteq> ''p2p'' \<or> \<not> valid_id ''tx-'' (mf_transfer_id mf) then Inl ''invalid p2p manifest''
      else if \<not> p2p_manifest_matches cwd manifestPath filePath targetAddr mf then Inl ''manifest does not match job''
      else case check_p2p_chunks (mf_total_bytes mf) 0 0 (mf_chunks mf) of
             Inl e \<Rightarrow> Inl e
           | Inr offset \<Rightarrow> if offset \<noteq> mf_total_bytes mf then Inl ''p2p chunk plan size mismatch'' else Inr mf)"

definition valid_p2p_history_manifest :: "agent_env \<Rightarrow> string \<Rightarrow> string \<Rightarrow> string \<Rightarrow> manifest io" where
  "valid_p2p_history_manifest env path filePath targetAddr =
     (if \<not> is_abs (trim_space path) then io_fail ''invalid manifest path''
      else let manifestPath = abs_path (ae_cwd env) (trim_space path) in
      io_bind (fs_lstat manifestPath) (\<lambda>n.
        case n of
          Some (File _) \<Rightarrow>
            if \<not> path_within (ae_cwd env) manifestPath (sender_manifest_root (ae_profile env))
            then io_fail ''manifest outside sender history''
            else io_bind (load_file (ae_unmarshal env) manifestPath) (\<lambda>mf.
                   io_lift (check_p2p_manifest (ae_cwd env) manifestPath filePath targetAddr mf))
        | _ \<Rightarrow> io_fail ''invalid manifest file''))"

text \<open>\<open>sourceMatchesManifest\<close>: \<open>file\<close> and \<open>readOk\<close> are what \<open>Stat\<close>, opening and reading the source give.\<close>

definition source_matches_manifest ::
    "(bytes \<Rightarrow> bytes) \<Rightarrow> string \<Rightarrow> source_file result \<Rightarrow> unit result \<Rightarrow> string \<Rightarrow> string \<Rightarrow> manifest \<Rightarrow> bool" where
  "source_matches_manifest sha cwd file readOk path targetAddr mf =
     (case file of
        Inl _ \<Rightarrow> False
      | Inr f \<Rightarrow>
          if sf_is_dir f \<or> int (length (sf_content f)) \<noteq> mf_total_bytes mf \<or> sf_mod_unix f \<noteq> src_mod_time (mf_source mf)
          then False
          else (case sender_identity sha (abs_path cwd path) file readOk targetAddr (mf_chunk_size mf) of
                  Inl _ \<Rightarrow> False | Inr identity \<Rightarrow> identity = src_identity (mf_source mf)))"

definition validate_restored_job_options :: "agent_env \<Rightarrow> persisted_job \<Rightarrow> string \<Rightarrow> unit io" where
  "validate_restored_job_options env r filePath =
     (if pj_receive_rel_path r \<noteq> '''' \<and> (case validate_receive_rel_path (pj_receive_rel_path r) of Inl _ \<Rightarrow> True | Inr _ \<Rightarrow> False)
      then io_fail ''invalid restored receive path''
      else if pj_lab r \<and> (case validate_lab_receive_path (ae_cwd env) (cfg_receive_path (ae_cfg env)) (pj_lab_path r) of
                            Inl _ \<Rightarrow> True | Inr _ \<Rightarrow> False)
      then io_fail ''invalid restored lab path''
      else if pj_publish_name r \<noteq> '''' \<and> sanitize_publish_name (pj_publish_name r) \<noteq> pj_publish_name r
      then io_fail ''invalid restored publish name''
      else if pj_folder_result r \<noteq> '''' \<and> pj_folder_result r \<noteq> ''zip'' \<and> pj_folder_result r \<noteq> ''extract''
      then io_fail ''invalid restored folder result''
      else if trim_space (pj_cleanup_path r) = '''' then io_return ()
      else io_bind (validate_managed_cleanup_path env filePath (pj_cleanup_path r)) (\<lambda>_. io_return ()))"

definition valid_target :: "string \<Rightarrow> unit result" where
  "valid_target addr =
     (case split_host_port addr of
        Inl _ \<Rightarrow> Inl ''invalid job target''
      | Inr (host, portText) \<Rightarrow>
          if trim_space host = '''' then Inl ''invalid job target''
          else case parse_int portText of
                 Inl _ \<Rightarrow> Inl ''invalid job target port''
               | Inr port \<Rightarrow> if port < 1 \<or> 65535 < port then Inl ''invalid job target port'' else Inr ())"

text \<open>The state before the manifest is looked at.\<close>

definition restored_state :: "gotime \<Rightarrow> string \<Rightarrow> persisted_job \<Rightarrow> job_state" where
  "restored_state now filePath r =
     (let d = pj_details r;
          startedAt = (if jd_started_at d = 0 then now else jd_started_at d);
          d = d\<lparr>jd_file_path := filePath, jd_mbps_now := 0, jd_mbps_avg := 0, jd_mbps30s := 0,
                jd_cable := (jd_cable d)\<lparr>cp_mbps_now := 0\<rparr>, jd_wifi := (jd_wifi d)\<lparr>cp_mbps_now := 0\<rparr>, jd_eta_seconds := - 1\<rparr>
      in \<lparr>js_details = d, js_file_path = filePath, js_target_addr = pj_target_addr r, js_lab = pj_lab r,
          js_lab_path = pj_lab_path r, js_receive_rel_path = pj_receive_rel_path r,
          js_publish_name = pj_publish_name r, js_folder_result = pj_folder_result r,
          js_cleanup_path = pj_cleanup_path r, js_chunk_size = pj_chunk_size r, js_started_at = startedAt,
          js_last_at = now, js_last_total = 0, js_last_cable = 0, js_last_wifi = 0, js_samples = [], js_cancel = None\<rparr>)"

text \<open>The verdict on a job whose manifest is there: done, resumable, or lost because the source has changed.\<close>

definition restored_verdict :: "bool \<Rightarrow> manifest \<Rightarrow> job_details \<Rightarrow> job_details" where
  "restored_verdict sourceOk mf d =
     (if all_done mf then
        d\<lparr>jd_status := ''done'', jd_message := '''', jd_resume_supported := False, jd_percent := 100,
          jd_bytes_sent := jd_total_bytes d, jd_eta_seconds := 0\<rparr>
      else if sourceOk then
        d\<lparr>jd_status := ''canceled'', jd_message := ''interrupted by agent restart; ready to resume'',
          jd_completed_at := 0, jd_resume_supported := True\<rparr>
      else
        d\<lparr>jd_status := ''failed'', jd_message := ''source file changed or is unavailable; operation cannot be resumed'',
          jd_completed_at := 0, jd_resume_supported := False\<rparr>)"

text \<open>\<open>source\<close> gives, for a path, what opening and reading the file there gives.\<close>

definition job_state_from_history ::
    "agent_env \<Rightarrow> (bytes \<Rightarrow> bytes) \<Rightarrow> (string \<Rightarrow> source_file result \<times> unit result) \<Rightarrow> gotime \<Rightarrow> persisted_job \<Rightarrow> string \<Rightarrow> job_state io" where
  "job_state_from_history env sha source now r recordPath =
     (let ident = jd_id (pj_details r) in
      if \<not> valid_id ''job-'' ident \<or> base_name recordPath \<noteq> ident @ ''.json'' then io_fail ''invalid job history id''
      else if \<not> is_abs (trim_space (pj_file_path r)) \<or> trim_space (pj_target_addr r) = ''''
      then io_fail ''invalid job request context''
      else let filePath = abs_path (ae_cwd env) (trim_space (pj_file_path r)) in
      io_bind (io_lift (valid_target (pj_target_addr r))) (\<lambda>_.
      io_bind (validate_restored_job_options env r filePath) (\<lambda>_.
        let st = restored_state now filePath r in
        io_bind (io_try (valid_p2p_history_manifest env (jd_manifest_path (js_details st)) filePath (pj_target_addr r))) (\<lambda>res.
          case res of
            Inl _ \<Rightarrow> io_return (upd_details (\<lambda>d. d\<lparr>jd_status := ''failed'',
                jd_message := ''history manifest unavailable; operation cannot be resumed'', jd_resume_supported := False\<rparr>) st)
          | Inr mf \<Rightarrow> (\<lambda>w.
              let (st, w) = refresh_state env st w; (file, readOk) = source filePath in
              (Inr (upd_details (restored_verdict
                 (source_matches_manifest sha (ae_cwd env) file readOk filePath (pj_target_addr r) mf) mf) st), w))))))"

text \<open>
  \<open>recentOperationHistory\<close>: the newest files of the directory whose name ends in \<open>.json\<close>. \<open>mtime\<close> gives the
  modification time of a file, or nothing when \<open>Info\<close> fails.
\<close>

definition recent_operation_history :: "(string \<Rightarrow> gotime option) \<Rightarrow> string \<Rightarrow> world \<Rightarrow> string list \<times> world" where
  "recent_operation_history mtime dir w =
     (case fs_read_dir dir w of
        (Inl _, w) \<Rightarrow> ([], w)
      | (Inr entries, w) \<Rightarrow>
          (let files = map (\<lambda>(name, _). join_path [dir, name])
                 (filter (\<lambda>(name, n). n \<noteq> Dir \<and> n \<noteq> Symlink \<and> has_suffix (to_lower name) ''.json'') entries);
               files = filter (\<lambda>p. mtime p \<noteq> None) files
           in (take max_history (sort_key (\<lambda>p. - the (mtime p)) files), w)))"

fun restore_job_files ::
    "agent_env \<Rightarrow> (bytes \<Rightarrow> bytes) \<Rightarrow> (string \<Rightarrow> source_file result \<times> unit result) \<Rightarrow> (bytes \<Rightarrow> persisted_job result) \<Rightarrow>
     gotime \<Rightarrow> string list \<Rightarrow> agent \<Rightarrow> agent" where
  "restore_job_files env sha source decode now [] ag = ag"
| "restore_job_files env sha source decode now (p # ps) ag =
     (let (res, w) = io_bind (fs_read p) (\<lambda>b.
            case decode b of
              Inl e \<Rightarrow> io_fail e
            | Inr r \<Rightarrow> if pj_version r \<noteq> operation_history_version then io_fail ''version''
                       else job_state_from_history env sha source now r p) (ag_world ag);
          ag = ag\<lparr>ag_world := w\<rparr>;
          ag = (case res of
                  Inl _ \<Rightarrow> ag
                | Inr st \<Rightarrow> if map_of (ag_jobs ag) (job_ident st) = None then set_job (job_ident st) st ag else ag)
      in restore_job_files env sha source decode now ps ag)"

definition restore_job_history ::
    "agent_env \<Rightarrow> (bytes \<Rightarrow> bytes) \<Rightarrow> (string \<Rightarrow> source_file result \<times> unit result) \<Rightarrow> (bytes \<Rightarrow> persisted_job result) \<Rightarrow>
     (string \<Rightarrow> gotime option) \<Rightarrow> gotime \<Rightarrow> agent \<Rightarrow> agent" where
  "restore_job_history env sha source decode mtime now ag =
     (let (files, w) = recent_operation_history mtime (operation_history_dir (ae_config_path env) ''jobs'') (ag_world ag);
          ag = restore_job_files env sha source decode now files (ag\<lparr>ag_world := w\<rparr>)
      in ag\<lparr>ag_jobs := prune_jobs (ag_jobs ag)\<rparr>)"

end
