(* ===== verification/JobRun.thy ===== *)
theory JobRun
  imports History
begin

text \<open>
  The life of the agent's jobs: the operations on the table of jobs, in any order, with the senders they start. At
  every moment a job that is running or being cancelled has exactly one sender and a finished one has
  none, a done job stays done, and a cancellation reaches the sender of its job.
\<close>

section \<open>Steps\<close>

text \<open>A goroutine that runs a sender: its job and its context.\<close>

record job_run =
  jr_agent :: agent
  jr_senders :: "(string \<times> nat) list"

text \<open>
  A new job has a new identifier (it is the time in nanoseconds). Progress may be reported at any time, also
  after the end of the sender: the ticker's goroutine stops on its own. The end of a sender is the steps of
  \<open>sender_ended\<close>, with those of other goroutines in between.
\<close>

inductive job_step :: "agent_env \<Rightarrow> job_run \<Rightarrow> job_run \<Rightarrow> bool" for env :: agent_env where
  Create: "map_of (ag_jobs (jr_agent s)) ident = None \<Longrightarrow>
    create_job env now ident sz path target opts cleanup (jr_agent s) = (ctx, ag) \<Longrightarrow>
    job_step env s \<lparr>jr_agent = ag, jr_senders = (ident, ctx) # jr_senders s\<rparr>"
| Progress: "job_step env s (s\<lparr>jr_agent := update_job_progress env now ident snap (jr_agent s)\<rparr>)"
| Manifest: "(ident, ctx) \<in> set (jr_senders s) \<Longrightarrow>
    job_step env s (s\<lparr>jr_agent := set_job_manifest env ident path (jr_agent s)\<rparr>)"
| Finish: "(ident, ctx) \<in> set (jr_senders s) \<Longrightarrow> status \<in> {''done'', ''failed'', ''canceled''} \<Longrightarrow>
    job_step env s \<lparr>jr_agent = finish_job env now ident status msg (jr_agent s),
                    jr_senders = remove1 (ident, ctx) (jr_senders s)\<rparr>"
| Cleanup: "job_step env s (s\<lparr>jr_agent := (jr_agent s)\<lparr>ag_world :=
    snd (remove_managed_cleanup_path env path cleanup (ag_world (jr_agent s)))\<rparr>\<rparr>)"
| Cancel: "cancel_job env now ident (jr_agent s) = (found, ag) \<Longrightarrow> job_step env s (s\<lparr>jr_agent := ag\<rparr>)"
| Resume: "resume_job env now ident (jr_agent s) = (Inr (ctx, opts), ag) \<Longrightarrow>
    job_step env s \<lparr>jr_agent = ag, jr_senders = (ident, ctx) # jr_senders s\<rparr>"
| Resume_Error: "resume_job env now ident (jr_agent s) = (Inl e, ag) \<Longrightarrow> job_step env s (s\<lparr>jr_agent := ag\<rparr>)"
| Forget: "forget_job env ident (jr_agent s) = (r, ag) \<Longrightarrow> job_step env s (s\<lparr>jr_agent := ag\<rparr>)"

inductive job_reach :: "agent_env \<Rightarrow> job_run \<Rightarrow> job_run \<Rightarrow> bool" for env s0 where
  Start: "job_reach env s0 s0"
| Step: "job_reach env s0 s \<Longrightarrow> job_step env s s' \<Longrightarrow> job_reach env s0 s'"

section \<open>What the operations do to the table\<close>

lemma persist_simps [simp]:
  "ag_jobs (persist env st ag) = ag_jobs ag" "ag_canceled (persist env st ag) = ag_canceled ag"
  "ag_next_ctx (persist env st ag) = ag_next_ctx ag"
  by (simp_all add: persist_def)

lemma set_job_simps [simp]:
  "ag_jobs (set_job ident st ag) = AList.update ident st (ag_jobs ag)" "ag_canceled (set_job ident st ag) = ag_canceled ag"
  "ag_next_ctx (set_job ident st ag) = ag_next_ctx ag"
  by (simp_all add: set_job_def)

lemma cancel_ctx_simps [simp]:
  "ag_jobs (cancel_ctx c ag) = ag_jobs ag" "ag_next_ctx (cancel_ctx c ag) = ag_next_ctx ag"
  "ag_world (cancel_ctx c ag) = ag_world ag"
  by (simp_all add: cancel_ctx_def split: option.splits)

lemma upd_details_simps [simp]:
  "js_details (upd_details f st) = f (js_details st)" "js_cancel (upd_details f st) = js_cancel st"
  "js_started_at (upd_details f st) = js_started_at st" "js_file_path (upd_details f st) = js_file_path st"
  "js_cleanup_path (upd_details f st) = js_cleanup_path st"
  by (simp_all add: upd_details_def)

text \<open>Refreshing a job changes its counters only.\<close>

lemma apply_manifest_simps [simp]:
  "jd_id (apply_manifest mf d) = jd_id d" "jd_status (apply_manifest mf d) = jd_status d"
  "jd_manifest_path (apply_manifest mf d) = jd_manifest_path d"
  "jd_resume_supported (apply_manifest mf d) = jd_resume_supported d"
  by (simp_all add: apply_manifest_def Let_def)

lemma refresh_job_same:
  "refresh_job env d w = (d', w') \<Longrightarrow> jd_id d' = jd_id d \<and> jd_status d' = jd_status d"
  by (auto simp: refresh_job_def split: if_splits prod.splits sum.splits)

lemma refresh_state_same:
  assumes "refresh_state env st w = (st', w')"
  shows "job_ident st' = job_ident st" "jd_status (js_details st') = jd_status (js_details st)"
    "js_cancel st' = js_cancel st" "job_terminal st' = job_terminal st"
  using assms refresh_job_same [of env "js_details st" w]
  by (auto simp: refresh_state_def job_ident_def job_terminal_def split: prod.splits)

lemma window_same [simp]:
  "job_ident (update_window now s st) = job_ident st" "jd_status (js_details (update_window now s st)) = jd_status (js_details st)"
  "js_cancel (update_window now s st) = js_cancel st"
  "job_ident (update_rates now s st) = job_ident st" "jd_status (js_details (update_rates now s st)) = jd_status (js_details st)"
  "js_cancel (update_rates now s st) = js_cancel st"
  by (simp_all add: update_window_def update_rates_def Let_def job_ident_def)

lemma create_job_stores:
  assumes "create_job env now ident sz path target opts cleanup ag = (ctx, ag')"
  shows "ctx = ag_next_ctx ag \<and> ag_next_ctx ag' = Suc ctx \<and> ag_canceled ag' = ag_canceled ag \<and>
    (\<exists>st. ag_jobs ag' = prune_jobs (AList.update ident st (ag_jobs ag)) \<and> job_ident st = ident
       \<and> jd_status (js_details st) = ''running'' \<and> js_cancel st = Some ctx)"
  using assms by (fastforce simp: create_job_def Let_def job_ident_def new_details_def)

lemma resume_job_stores:
  assumes "resume_job env now ident ag = (Inr (ctx, opts), ag')"
  obtains st0 st where "map_of (ag_jobs ag) ident = Some st0" "jd_status (js_details st0) \<in> {''canceled'', ''failed''}"
    "jd_resume_supported (js_details st0)" "ctx = ag_next_ctx ag" "ag_next_ctx ag' = Suc ctx" "ag_canceled ag' = ag_canceled ag"
    "ag_jobs ag' = AList.update ident st (ag_jobs ag)" "job_ident st = job_ident st0"
    "jd_status (js_details st) = ''running''" "js_cancel st = Some ctx"
  using assms by (auto simp: resume_job_def Let_def job_ident_def split: option.splits if_splits)

lemma resume_job_error: "resume_job env now ident ag = (Inl e, ag') \<Longrightarrow> ag' = ag"
  by (auto simp: resume_job_def Let_def split: option.splits if_splits)

lemma cancel_job_stores:
  assumes "cancel_job env now ident ag = (found, ag')"
  shows "ag_next_ctx ag' = ag_next_ctx ag \<and>
    (case map_of (ag_jobs ag) ident of
       None \<Rightarrow> \<not> found \<and> ag' = ag
     | Some st0 \<Rightarrow> found \<and> (if job_terminal st0 then ag' = ag
         else ag_canceled ag' = (case js_cancel st0 of None \<Rightarrow> ag_canceled ag | Some k \<Rightarrow> k # ag_canceled ag)
           \<and> (\<exists>st. ag_jobs ag' = AList.update ident st (ag_jobs ag) \<and> job_ident st = job_ident st0
               \<and> jd_status (js_details st) = ''canceling'' \<and> js_cancel st = js_cancel st0)))"
  using assms by (fastforce simp: cancel_job_def cancel_ctx_def Let_def job_ident_def split: option.splits if_splits)

lemma finish_job_stores:
  shows "ag_next_ctx (finish_job env now ident status msg ag) = ag_next_ctx ag"
    "map_of (ag_jobs ag) ident = None \<Longrightarrow> finish_job env now ident status msg ag = ag"
    "map_of (ag_jobs ag) ident = Some st0 \<Longrightarrow>
       \<exists>st. ag_jobs (finish_job env now ident status msg ag) = prune_jobs (AList.update ident st (ag_jobs ag))
         \<and> job_ident st = job_ident st0 \<and> jd_status (js_details st) = status \<and> js_cancel st = None"
proof -
  show "ag_next_ctx (finish_job env now ident status msg ag) = ag_next_ctx ag"
    by (auto simp: finish_job_def Let_def split: option.splits prod.splits)
  show "map_of (ag_jobs ag) ident = None \<Longrightarrow> finish_job env now ident status msg ag = ag"
    by (simp add: finish_job_def)
  assume st0: "map_of (ag_jobs ag) ident = Some st0"
  let ?st1 = "upd_details (\<lambda>d. d\<lparr>jd_status := status, jd_message := msg,
       jd_last_error := (if msg \<noteq> '''' \<and> status = ''failed'' then msg else jd_last_error d),
       jd_updated_at := rfc3339 now, jd_completed_at := rfc3339 now, jd_eta_seconds := 0, jd_mbps_now := 0,
       jd_cable := (jd_cable d)\<lparr>cp_mbps_now := 0\<rparr>, jd_wifi := (jd_wifi d)\<lparr>cp_mbps_now := 0\<rparr>\<rparr>) st0"
  obtain st w where r: "refresh_state env (?st1\<lparr>js_cancel := None\<rparr>) (ag_world ag) = (st, w)" by force
  have "job_ident (?st1\<lparr>js_cancel := None\<rparr>) = job_ident st0" by (simp add: job_ident_def)
  then show "\<exists>st. ag_jobs (finish_job env now ident status msg ag) = prune_jobs (AList.update ident st (ag_jobs ag))
         \<and> job_ident st = job_ident st0 \<and> jd_status (js_details st) = status \<and> js_cancel st = None"
    using st0 r refresh_state_same [OF r] by (intro exI [of _ st]) (simp add: finish_job_def Let_def)
qed

lemma set_job_manifest_stores:
  "ag_next_ctx (set_job_manifest env ident path ag) = ag_next_ctx ag"
  "ag_canceled (set_job_manifest env ident path ag) = ag_canceled ag"
  "ag_jobs (set_job_manifest env ident path ag) = ag_jobs ag \<or>
     (\<exists>st0 st. map_of (ag_jobs ag) ident = Some st0 \<and> ag_jobs (set_job_manifest env ident path ag) = AList.update ident st (ag_jobs ag)
        \<and> job_ident st = job_ident st0 \<and> jd_status (js_details st) = jd_status (js_details st0) \<and> js_cancel st = js_cancel st0)"
proof -
  show "ag_next_ctx (set_job_manifest env ident path ag) = ag_next_ctx ag"
    "ag_canceled (set_job_manifest env ident path ag) = ag_canceled ag"
    by (auto simp: set_job_manifest_def Let_def split: option.splits prod.splits)
  show "ag_jobs (set_job_manifest env ident path ag) = ag_jobs ag \<or>
     (\<exists>st0 st. map_of (ag_jobs ag) ident = Some st0 \<and> ag_jobs (set_job_manifest env ident path ag) = AList.update ident st (ag_jobs ag)
        \<and> job_ident st = job_ident st0 \<and> jd_status (js_details st) = jd_status (js_details st0) \<and> js_cancel st = js_cancel st0)"
  proof (cases "path = '''' \<or> map_of (ag_jobs ag) ident = None")
    case True
    then show ?thesis by (auto simp: set_job_manifest_def)
  next
    case False
    then obtain st0 where st0: "map_of (ag_jobs ag) ident = Some st0" by blast
    obtain st w where r: "refresh_state env (upd_details (\<lambda>d. d\<lparr>jd_manifest_path := path\<rparr>) st0) (ag_world ag) = (st, w)" by force
    have "job_ident (upd_details (\<lambda>d. d\<lparr>jd_manifest_path := path\<rparr>) st0) = job_ident st0" by (simp add: job_ident_def)
    then show ?thesis using st0 r False refresh_state_same [OF r]
      by (intro disjI2 exI [of _ st0] exI [of _ st]) (simp add: set_job_manifest_def)
  qed
qed

lemma update_job_progress_stores:
  "ag_next_ctx (update_job_progress env now ident s ag) = ag_next_ctx ag"
  "ag_canceled (update_job_progress env now ident s ag) = ag_canceled ag"
  "ag_jobs (update_job_progress env now ident s ag) = ag_jobs ag \<or>
     (\<exists>st0 st. map_of (ag_jobs ag) ident = Some st0 \<and> \<not> job_terminal st0
        \<and> ag_jobs (update_job_progress env now ident s ag) = AList.update ident st (ag_jobs ag)
        \<and> job_ident st = job_ident st0 \<and> jd_status (js_details st) = jd_status (js_details st0) \<and> js_cancel st = js_cancel st0)"
proof -
  show "ag_next_ctx (update_job_progress env now ident s ag) = ag_next_ctx ag"
    "ag_canceled (update_job_progress env now ident s ag) = ag_canceled ag"
    by (auto simp: update_job_progress_def Let_def split: option.splits prod.splits)
  show "ag_jobs (update_job_progress env now ident s ag) = ag_jobs ag \<or>
     (\<exists>st0 st. map_of (ag_jobs ag) ident = Some st0 \<and> \<not> job_terminal st0
        \<and> ag_jobs (update_job_progress env now ident s ag) = AList.update ident st (ag_jobs ag)
        \<and> job_ident st = job_ident st0 \<and> jd_status (js_details st) = jd_status (js_details st0) \<and> js_cancel st = js_cancel st0)"
  proof (cases "map_of (ag_jobs ag) ident")
    case None
    then show ?thesis by (simp add: update_job_progress_def)
  next
    case (Some st0)
    show ?thesis
    proof (cases "job_terminal st0")
      case True
      then show ?thesis using Some by (simp add: update_job_progress_def)
    next
      case False
      obtain st1 w where r: "refresh_state env (upd_details (copy_snapshot s) st0) (ag_world ag) = (st1, w)" by force
      let ?st2 = "upd_details (\<lambda>d. d\<lparr>jd_eta_seconds := eta d, jd_updated_at := rfc3339 now\<rparr>) (update_window now s (update_rates now s st1))"
      let ?st = "?st2\<lparr>js_last_at := now, js_last_total := jd_bytes_sent (js_details ?st2), js_last_cable := ps_cable_bytes s,
                      js_last_wifi := ps_wifi_bytes s\<rparr>"
      have c: "job_ident (upd_details (copy_snapshot s) st0) = job_ident st0" "job_ident ?st = job_ident (update_window now s (update_rates now s st1))"
        by (simp_all add: job_ident_def copy_snapshot_def)
      have d: "jd_status (js_details (upd_details (copy_snapshot s) st0)) = jd_status (js_details st0)" by (simp add: copy_snapshot_def)
      have "ag_jobs (update_job_progress env now ident s ag) = AList.update ident ?st (ag_jobs ag)"
        using Some False r by (simp add: update_job_progress_def Let_def)
      then show ?thesis using Some False refresh_state_same [OF r] c d
        by (intro disjI2 exI [of _ st0] exI [of _ ?st]) simp
    qed
  qed
qed

lemma forget_job_deletes:
  assumes "forget_job env ident ag = (r, ag')"
  shows "ag_next_ctx ag' = ag_next_ctx ag \<and> ag_canceled ag' = ag_canceled ag \<and> (ag_jobs ag' = ag_jobs ag \<or>
    (\<exists>st. map_of (ag_jobs ag) ident = Some st \<and> job_terminal st \<and> ag_jobs ag' = AList.delete ident (ag_jobs ag)))"
  using assms by (auto simp: forget_job_def Let_def split: if_splits option.splits prod.splits sum.splits)

section \<open>The invariant\<close>

text \<open>The context of the sender that a job should have.\<close>

definition ctx_of :: "job_state \<Rightarrow> nat list" where
  "ctx_of st = (if job_terminal st then [] else case js_cancel st of None \<Rightarrow> [] | Some k \<Rightarrow> [k])"

definition run_ctx :: "(string, job_state) gomap \<Rightarrow> string \<Rightarrow> nat list" where
  "run_ctx m i = (case map_of m i of None \<Rightarrow> [] | Some st \<Rightarrow> ctx_of st)"

definition live_ok :: "job_state \<Rightarrow> bool" where
  "live_ok st \<longleftrightarrow> job_terminal st \<or> js_cancel st \<noteq> None \<and> jd_status (js_details st) \<in> {''running'', ''canceling''}"

definition jobs_ok :: "(string, job_state) gomap \<Rightarrow> bool" where
  "jobs_ok m \<longleftrightarrow> table_ok job_ident m \<and> length (filter job_terminal (map snd m)) \<le> max_history
     \<and> (\<forall>i st. map_of m i = Some st \<longrightarrow> live_ok st)"

definition senders_of :: "string \<Rightarrow> (string \<times> nat) list \<Rightarrow> nat list" where
  "senders_of i rs = map snd (filter (\<lambda>r. fst r = i) rs)"

definition job_inv :: "job_run \<Rightarrow> bool" where
  "job_inv s \<longleftrightarrow> jobs_ok (ag_jobs (jr_agent s))
     \<and> (\<forall>i. senders_of i (jr_senders s) = run_ctx (ag_jobs (jr_agent s)) i)
     \<and> (\<forall>r\<in>set (jr_senders s). snd r < ag_next_ctx (jr_agent s))"

lemma senders_of_simps [simp]:
  "senders_of i [] = []" "senders_of i ((j, k) # rs) = (if j = i then k # senders_of i rs else senders_of i rs)"
  by (simp_all add: senders_of_def)

lemma senders_of_remove1: "senders_of i (remove1 (j, k) rs) = (if i = j then remove1 k (senders_of i rs) else senders_of i rs)"
  by (induction rs) (auto simp: senders_of_def image_iff)

lemma senders_of_mem: "(i, k) \<in> set rs \<Longrightarrow> k \<in> set (senders_of i rs)"
  by (force simp: senders_of_def)

lemma update_terminals:
  assumes "map_of m k = Some st0" "job_terminal st \<longrightarrow> job_terminal st0"
  shows "length (filter job_terminal (map snd (AList.update k st m))) \<le> length (filter job_terminal (map snd m))"
  using assms by (induction m) auto

text \<open>Storing a record, with or without pruning.\<close>

lemma jobs_ok_update:
  assumes "jobs_ok m" "map_of m k = Some st0" "job_ident st = job_ident st0" "live_ok st" "job_terminal st \<longrightarrow> job_terminal st0"
  shows "jobs_ok (AList.update k st m)" "\<And>i. run_ctx (AList.update k st m) i = (if i = k then ctx_of st else run_ctx m i)"
proof -
  have t: "table_ok job_ident m" using assms(1) by (simp add: jobs_ok_def)
  have "job_ident st = k" using table_ok_ident [OF t assms(2)] assms(3) by simp
  then have "table_ok job_ident (AList.update k st m)" using table_ok_update [OF t] by blast
  moreover have "length (filter job_terminal (map snd (AList.update k st m))) \<le> max_history"
    using update_terminals [OF assms(2,5)] assms(1) unfolding jobs_ok_def by linarith
  moreover have "live_ok st'" if "map_of (AList.update k st m) i = Some st'" for i st'
    using that assms(1,4) by (auto simp: jobs_ok_def update_conv' split: if_splits)
  ultimately show "jobs_ok (AList.update k st m)" unfolding jobs_ok_def by blast
  show "run_ctx (AList.update k st m) i = (if i = k then ctx_of st else run_ctx m i)" for i
    by (simp add: run_ctx_def update_conv')
qed

lemma jobs_ok_prune:
  assumes "jobs_ok m" "job_ident st = k" "live_ok st"
  shows "jobs_ok (prune_jobs (AList.update k st m))"
    "\<And>i. run_ctx (prune_jobs (AList.update k st m)) i = (if i = k then ctx_of st else run_ctx m i)"
proof -
  have t: "table_ok job_ident m" using assms(1) by (simp add: jobs_ok_def)
  note p = jobs_table.store_prune [OF t assms(2)]
  show "jobs_ok (prune_jobs (AList.update k st m))"
  proof -
    have "live_ok st'" if "map_of (prune_jobs (AList.update k st m)) i = Some st'" for i st'
      using p(2) [OF that] assms(1,3) by (auto simp: jobs_ok_def split: if_splits)
    then show ?thesis using p(1,5) unfolding jobs_ok_def by blast
  qed
  show "run_ctx (prune_jobs (AList.update k st m)) i = (if i = k then ctx_of st else run_ctx m i)" for i
  proof (cases "map_of (prune_jobs (AList.update k st m)) i")
    case (Some st')
    then show ?thesis using p(2) [OF Some] by (auto simp: run_ctx_def)
  next
    case None
    then have "i = k \<Longrightarrow> job_terminal st" "\<And>st'. i \<noteq> k \<Longrightarrow> map_of m i = Some st' \<Longrightarrow> job_terminal st'"
      using p(3) [of i] p(4) by fastforce+
    then show ?thesis using None by (auto simp: run_ctx_def ctx_of_def split: option.splits)
  qed
qed

lemma jobs_ok_delete:
  assumes "jobs_ok m" "map_of m k = Some st" "job_terminal st"
  shows "jobs_ok (AList.delete k m)" "run_ctx (AList.delete k m) i = run_ctx m i"
proof -
  have "length (filter job_terminal (map snd (AList.delete k m))) \<le> length (filter job_terminal (map snd m))" for m
    by (induction m) auto
  then have "length (filter job_terminal (map snd (AList.delete k m))) \<le> max_history"
    using assms(1) order_trans unfolding jobs_ok_def by blast
  moreover have "AList.delete k m = filter (\<lambda>r. fst r \<noteq> k) m" by (auto simp: AList.delete_eq intro!: filter_cong)
  then have "table_ok job_ident (AList.delete k m)" using assms(1) by (simp add: jobs_ok_def table_ok_filter)
  moreover have "live_ok st'" if "map_of (AList.delete k m) i = Some st'" for i st'
    using that assms(1) by (auto simp: jobs_ok_def delete_conv' split: if_splits)
  ultimately show "jobs_ok (AList.delete k m)" unfolding jobs_ok_def by blast
  show "run_ctx (AList.delete k m) i = run_ctx m i"
    using assms by (auto simp: run_ctx_def delete_conv' ctx_of_def)
qed

lemma job_inv_update:
  assumes "job_inv s" "map_of (ag_jobs (jr_agent s)) k = Some st0" "ag_jobs ag = AList.update k st (ag_jobs (jr_agent s))"
    and "ag_next_ctx ag = ag_next_ctx (jr_agent s)" "job_ident st = job_ident st0"
    and "jd_status (js_details st) = jd_status (js_details st0) \<or> \<not> job_terminal st0 \<and> jd_status (js_details st) = ''canceling''"
    and "js_cancel st = js_cancel st0"
  shows "job_inv (s\<lparr>jr_agent := ag\<rparr>)"
proof -
  have ok: "jobs_ok (ag_jobs (jr_agent s))" using assms(1) by (simp add: job_inv_def)
  then have l: "live_ok st0" using assms(2) by (simp add: jobs_ok_def)
  have e: "job_terminal st = job_terminal st0" using assms(6) by (auto simp: job_terminal_def)
  have "live_ok st" using l assms(6,7) e by (auto simp: live_ok_def)
  note u = jobs_ok_update [OF ok assms(2,5) this]
  have "ctx_of st = run_ctx (ag_jobs (jr_agent s)) k" using assms(2,7) e by (simp add: ctx_of_def run_ctx_def)
  then show ?thesis using assms(1,3,4) u e by (auto simp: job_inv_def)
qed

lemma job_inv_same:
  "job_inv s \<Longrightarrow> ag_jobs ag = ag_jobs (jr_agent s) \<Longrightarrow> ag_next_ctx ag = ag_next_ctx (jr_agent s) \<Longrightarrow> job_inv (s\<lparr>jr_agent := ag\<rparr>)"
  by (simp add: job_inv_def)

lemma job_inv_step:
  assumes "job_step env s s'" "job_inv s"
  shows "job_inv s'"
  using assms(1)
proof cases
  case (Create ident now sz path target opts cleanup ctx ag)
  from create_job_stores [OF Create(3)] obtain st where st: "ctx = ag_next_ctx (jr_agent s)" "ag_next_ctx ag = Suc ctx"
    "ag_jobs ag = prune_jobs (AList.update ident st (ag_jobs (jr_agent s)))" "job_ident st = ident"
    "jd_status (js_details st) = ''running''" "js_cancel st = Some ctx" by blast
  have c: "live_ok st" "ctx_of st = [ctx]" using st by (simp_all add: live_ok_def ctx_of_def job_terminal_def)
  have ok: "jobs_ok (ag_jobs (jr_agent s))" using assms(2) by (simp add: job_inv_def)
  have "run_ctx (ag_jobs (jr_agent s)) ident = []" using Create(2) by (simp add: run_ctx_def)
  then show ?thesis using assms(2) jobs_ok_prune [OF ok st(4) c(1)] c(2)
    unfolding Create(1) by (auto simp: job_inv_def st(1-3) less_Suc_eq)
next
  case (Progress now ident snap)
  show ?thesis unfolding Progress
    using update_job_progress_stores [of env now ident snap "jr_agent s"] job_inv_same [OF assms(2)]
      job_inv_update [OF assms(2)] by blast
next
  case (Manifest ident ctx path)
  show ?thesis unfolding Manifest(1)
    using set_job_manifest_stores [of env ident path "jr_agent s"] job_inv_same [OF assms(2)]
      job_inv_update [OF assms(2)] by blast
next
  case (Finish ident ctx status now msg)
  have ok: "jobs_ok (ag_jobs (jr_agent s))" using assms(2) by (simp add: job_inv_def)
  have mem: "ctx \<in> set (run_ctx (ag_jobs (jr_agent s)) ident)"
    using senders_of_mem [OF Finish(2)] assms(2) by (simp add: job_inv_def)
  then obtain st0 where st0: "map_of (ag_jobs (jr_agent s)) ident = Some st0" "run_ctx (ag_jobs (jr_agent s)) ident = [ctx]"
    by (cases "map_of (ag_jobs (jr_agent s)) ident") (auto simp: run_ctx_def ctx_of_def split: option.splits if_splits)
  from finish_job_stores(3) [OF st0(1), of env now status msg] obtain st where
    st: "ag_jobs (finish_job env now ident status msg (jr_agent s)) = prune_jobs (AList.update ident st (ag_jobs (jr_agent s)))"
      "job_ident st = job_ident st0" "jd_status (js_details st) = status" by blast
  have t: "job_terminal st" using st(3) Finish(3) by (simp add: job_terminal_def)
  have "job_ident st = ident" using table_ok_ident [of job_ident "ag_jobs (jr_agent s)" ident st0] st0(1) st(2) ok
    by (simp add: jobs_ok_def)
  note p = jobs_ok_prune [OF ok this, unfolded live_ok_def, OF disjI1 [OF t]]
  have "ctx_of st = []" using t by (simp add: ctx_of_def)
  then show ?thesis using assms(2) p st0(2)
    unfolding Finish(1) by (auto simp: job_inv_def st(1) finish_job_stores(1) senders_of_remove1 dest: notin_set_remove1)
next
  case (Cleanup path cleanup)
  show ?thesis unfolding Cleanup by (rule job_inv_same [OF assms(2)]) simp_all
next
  case (Cancel now ident found ag)
  show ?thesis
  proof (cases "map_of (ag_jobs (jr_agent s)) ident")
    case None
    then show ?thesis using cancel_job_stores [OF Cancel(2)] assms(2) job_inv_same [OF assms(2)] unfolding Cancel(1) by simp
  next
    case (Some st0)
    show ?thesis
    proof (cases "job_terminal st0")
      case True
      then show ?thesis using cancel_job_stores [OF Cancel(2)] Some assms(2) unfolding Cancel(1) by simp
    next
      case False
      then obtain st where "ag_jobs ag = AList.update ident st (ag_jobs (jr_agent s))" "job_ident st = job_ident st0"
        "jd_status (js_details st) = ''canceling''" "js_cancel st = js_cancel st0" "ag_next_ctx ag = ag_next_ctx (jr_agent s)"
        using cancel_job_stores [OF Cancel(2)] Some by auto
      then show ?thesis unfolding Cancel(1) using job_inv_update [OF assms(2) Some] False by blast
    qed
  qed
next
  case (Resume now ident ctx opts ag)
  from Resume(2) obtain st0 st where st: "map_of (ag_jobs (jr_agent s)) ident = Some st0"
    "jd_status (js_details st0) \<in> {''canceled'', ''failed''}" "ctx = ag_next_ctx (jr_agent s)" "ag_next_ctx ag = Suc ctx"
    "ag_jobs ag = AList.update ident st (ag_jobs (jr_agent s))" "job_ident st = job_ident st0"
    "jd_status (js_details st) = ''running''" "js_cancel st = Some ctx" by (rule resume_job_stores)
  have ok: "jobs_ok (ag_jobs (jr_agent s))" using assms(2) by (simp add: job_inv_def)
  have c: "live_ok st" "ctx_of st = [ctx]" "\<not> job_terminal st" "job_terminal st0" using st
    by (auto simp: live_ok_def ctx_of_def job_terminal_def)
  have "run_ctx (ag_jobs (jr_agent s)) ident = []" using st(1) c(4) by (simp add: run_ctx_def ctx_of_def)
  then show ?thesis using assms(2) jobs_ok_update [OF ok st(1,6) c(1)] c(2,3)
    unfolding Resume(1) by (auto simp: job_inv_def st(3-5) less_Suc_eq)
next
  case (Resume_Error now ident e ag)
  then show ?thesis using resume_job_error assms(2) job_inv_same by blast
next
  case (Forget ident r ag)
  have ok: "jobs_ok (ag_jobs (jr_agent s))" using assms(2) by (simp add: job_inv_def)
  show ?thesis using forget_job_deletes [OF Forget(2)] jobs_ok_delete [OF ok] assms(2)
    unfolding Forget(1) by (auto simp: job_inv_def)
qed

lemma job_inv_reach: "job_reach env s0 s \<Longrightarrow> job_inv s0 \<Longrightarrow> job_inv s"
  by (induction rule: job_reach.induct) (auto intro: job_inv_step)

section \<open>The restored table\<close>

lemma io_bind_last: "io_bind f g w = (Inr y, w') \<Longrightarrow> \<exists>x w1. g x w1 = (Inr y, w')"
  by (auto simp: io_bind_Inr)

lemma verdict_terminal: "job_terminal (upd_details (restored_verdict ok mf) st)"
  by (simp add: job_terminal_def restored_verdict_def)

lemma restored_job:
  assumes "job_state_from_history env sha source now r p w = (Inr st, w')"
  shows "job_terminal st" "valid_id ''job-'' (job_ident st)" "base_name p = job_ident st @ ''.json''"
proof -
  let ?fp = "abs_path (ae_cwd env) (trim_space (pj_file_path r))"
  have v: "valid_id ''job-'' (jd_id (pj_details r))" "base_name p = jd_id (pj_details r) @ ''.json''"
    using assms by (auto simp: job_state_from_history_def io_fail_def Let_def split: if_splits)
  have i: "job_ident (restored_state now ?fp r) = jd_id (pj_details r)" by (simp add: restored_state_def job_ident_def Let_def)
  define K where "K = (\<lambda>res :: manifest result. case res of
      Inl _ \<Rightarrow> io_return (upd_details (\<lambda>d. d\<lparr>jd_status := ''failed'',
                jd_message := ''history manifest unavailable; operation cannot be resumed'', jd_resume_supported := False\<rparr>) (restored_state now ?fp r))
    | Inr mf \<Rightarrow> (\<lambda>w. let (st, w) = refresh_state env (restored_state now ?fp r) w; (file, readOk) = source ?fp in
              (Inr (upd_details (restored_verdict
                 (source_matches_manifest sha (ae_cwd env) file readOk ?fp (pj_target_addr r) mf) mf) st), w)))"
  obtain res w1 where k: "K res w1 = (Inr st, w')"
  proof -
    have "io_bind (io_lift (valid_target (pj_target_addr r))) (\<lambda>_.
      io_bind (validate_restored_job_options env r ?fp) (\<lambda>_.
        io_bind (io_try (valid_p2p_history_manifest env (jd_manifest_path (js_details (restored_state now ?fp r))) ?fp (pj_target_addr r))) K)) w
        = (Inr st, w')"
      using assms unfolding job_state_from_history_def Let_def io_fail_def K_def by (simp split: if_splits)
    then obtain w2 where "io_bind (validate_restored_job_options env r ?fp) (\<lambda>_.
        io_bind (io_try (valid_p2p_history_manifest env (jd_manifest_path (js_details (restored_state now ?fp r))) ?fp (pj_target_addr r))) K) w2
        = (Inr st, w')" by (blast dest: io_bind_last)
    then obtain w3 where "io_bind (io_try (valid_p2p_history_manifest env (jd_manifest_path (js_details (restored_state now ?fp r))) ?fp (pj_target_addr r))) K w3
        = (Inr st, w')" by (blast dest: io_bind_last)
    from io_bind_last [OF this] obtain res w1 where "K res w1 = (Inr st, w')" by blast
    then show ?thesis by (rule that)
  qed
  have c: "case res of
      Inl _ \<Rightarrow> st = upd_details (\<lambda>d. d\<lparr>jd_status := ''failed'',
                jd_message := ''history manifest unavailable; operation cannot be resumed'', jd_resume_supported := False\<rparr>) (restored_state now ?fp r)
    | Inr mf \<Rightarrow> \<exists>ok w2 st1. refresh_state env (restored_state now ?fp r) w1 = (st1, w2) \<and> st = upd_details (restored_verdict ok mf) st1"
    using k by (cases res) (auto simp: K_def io_return_def Let_def split: prod.splits)
  show "job_terminal st" using c verdict_terminal by (auto simp: job_terminal_def [of "upd_details f x" for f x] split: sum.splits)
  have j: "job_ident (upd_details (restored_verdict ok mf) x) = job_ident x" for ok mf x
    by (simp add: job_ident_def restored_verdict_def)
  have "job_ident st = jd_id (pj_details r)"
  proof (cases res)
    case (Inl e)
    then show ?thesis using c i by (simp add: job_ident_def)
  next
    case (Inr mf)
    then obtain ok w2 st1 where "refresh_state env (restored_state now ?fp r) w1 = (st1, w2)" "st = upd_details (restored_verdict ok mf) st1"
      using c by auto
    then show ?thesis using refresh_state_same(1) i by (metis j)
  qed
  then show "valid_id ''job-'' (job_ident st)" "base_name p = job_ident st @ ''.json''" using v by simp_all
qed

lemma set_alist_update: "set (AList.update k v m) \<subseteq> insert (k, v) (set m)"
  by (induction m) auto

lemma restore_files_ok:
  "table_ok job_ident (ag_jobs ag) \<Longrightarrow> \<forall>r\<in>set (ag_jobs ag). job_terminal (snd r) \<Longrightarrow>
   table_ok job_ident (ag_jobs (restore_job_files env sha source decode now ps ag))
   \<and> (\<forall>r\<in>set (ag_jobs (restore_job_files env sha source decode now ps ag)). job_terminal (snd r))"
proof (induction ps arbitrary: ag)
  case (Cons p ps)
  obtain res w where io: "io_bind (fs_read p) (\<lambda>b.
            case decode b of
              Inl e \<Rightarrow> io_fail e
            | Inr r \<Rightarrow> if pj_version r \<noteq> operation_history_version then io_fail ''version''
                       else job_state_from_history env sha source now r p) (ag_world ag) = (res, w)" by force
  show ?case
  proof (cases "\<exists>st. res = Inr st \<and> map_of (ag_jobs ag) (job_ident st) = None")
    case False
    then have "restore_job_files env sha source decode now (p # ps) ag = restore_job_files env sha source decode now ps (ag\<lparr>ag_world := w\<rparr>)"
      using io by (auto simp: Let_def split: sum.splits)
    then show ?thesis using Cons.IH [of "ag\<lparr>ag_world := w\<rparr>"] Cons.prems by (simp only:) simp
  next
    case True
    then obtain st where st: "res = Inr st" "map_of (ag_jobs ag) (job_ident st) = None" by blast
    then have e: "restore_job_files env sha source decode now (p # ps) ag
        = restore_job_files env sha source decode now ps (set_job (job_ident st) st (ag\<lparr>ag_world := w\<rparr>))"
      using io by (simp add: Let_def)
    obtain b w1 where "(case decode b of
              Inl e \<Rightarrow> io_fail e
            | Inr r \<Rightarrow> if pj_version r \<noteq> operation_history_version then io_fail ''version''
                       else job_state_from_history env sha source now r p) w1 = (Inr st, w)"
      using io_bind_last [OF io [unfolded st(1)]] by blast
    then obtain r where "job_state_from_history env sha source now r p w1 = (Inr st, w)"
      by (cases "decode b") (auto simp: io_fail_def split: if_splits)
    then have t: "job_terminal st" by (rule restored_job(1))
    have "table_ok job_ident (AList.update (job_ident st) st (ag_jobs ag))" using Cons.prems(1) by (rule table_ok_update) simp
    moreover have "\<forall>r\<in>set (AList.update (job_ident st) st (ag_jobs ag)). job_terminal (snd r)"
      using Cons.prems(2) t set_alist_update [of "job_ident st" st "ag_jobs ag"] by auto
    ultimately show ?thesis unfolding e by (intro Cons.IH) simp_all
  qed
qed simp

lemma restore_inv:
  assumes "ag_jobs ag = []"
  shows "job_inv \<lparr>jr_agent = restore_job_history env sha source decode mtime now ag, jr_senders = []\<rparr>"
proof -
  obtain files w where f: "recent_operation_history mtime (operation_history_dir (ae_config_path env) ''jobs'') (ag_world ag) = (files, w)" by force
  let ?ag = "restore_job_files env sha source decode now files (ag\<lparr>ag_world := w\<rparr>)"
  have t: "table_ok job_ident (ag_jobs ?ag)" "\<forall>r\<in>set (ag_jobs ?ag). job_terminal (snd r)"
    using restore_files_ok [of "ag\<lparr>ag_world := w\<rparr>"] assms by (simp_all add: table_ok_def)
  have r: "ag_jobs (restore_job_history env sha source decode mtime now ag) = prune_jobs (ag_jobs ?ag)"
    using f by (simp add: restore_job_history_def Let_def)
  have m: "job_terminal st" if "map_of (prune_jobs (ag_jobs ?ag)) i = Some st" for i st
  proof -
    have "(i, st) \<in> set (ag_jobs ?ag)" using map_of_SomeD [OF jobs_table.prune_sub [OF t(1) that]] .
    then show ?thesis using t(2) by fastforce
  qed
  then have "run_ctx (prune_jobs (ag_jobs ?ag)) i = []" for i by (auto simp: run_ctx_def ctx_of_def split: option.splits)
  then show ?thesis using jobs_table.prune_ok [OF t(1)] jobs_table.prune_cap [OF t(1)] m
    by (auto simp: job_inv_def r jobs_ok_def live_ok_def)
qed

section \<open>What a step does to a job\<close>

definition status_of :: "job_state \<Rightarrow> string" where "status_of st = jd_status (js_details st)"

lemma status_terminal: "job_terminal st \<longleftrightarrow> status_of st \<in> {''done'', ''failed'', ''canceled''}"
  by (simp add: job_terminal_def status_of_def)

text \<open>The next state of a job, if it is still there: its status may change unless the job is done.\<close>

definition follows :: "job_state \<Rightarrow> job_state option \<Rightarrow> bool" where
  "follows st next' \<longleftrightarrow> (case next' of None \<Rightarrow> True | Some st' \<Rightarrow> status_of st = ''done'' \<longrightarrow> status_of st' = ''done'')"

lemma follows_same: "follows st (Some st)" by (simp add: follows_def)

lemma follows_update:
  assumes "map_of m i = Some st0" "i = k \<Longrightarrow> follows st0 (Some st)"
  shows "follows st0 (map_of (AList.update k st m) i)"
  using assms follows_same by (auto simp: update_conv')

lemma follows_prune:
  assumes "jobs_ok m" "job_ident st = k" "map_of m i = Some st0" "i = k \<Longrightarrow> follows st0 (Some st)"
  shows "follows st0 (map_of (prune_jobs (AList.update k st m)) i)"
proof -
  have t: "table_ok job_ident m" using assms(1) by (simp add: jobs_ok_def)
  show ?thesis
  proof (cases "map_of (prune_jobs (AList.update k st m)) i")
    case (Some st')
    then show ?thesis using jobs_table.store_prune(2) [OF t assms(2) Some] assms(3,4) follows_same by (auto split: if_splits)
  qed (simp add: follows_def)
qed

lemma step_follows:
  assumes "job_step env s s'" "job_inv s" "map_of (ag_jobs (jr_agent s)) i = Some st0"
  shows "follows st0 (map_of (ag_jobs (jr_agent s')) i)"
  using assms(1)
proof cases
  case (Create ident now sz path target opts cleanup ctx ag)
  from create_job_stores [OF Create(3)] obtain st where
    st: "ag_jobs ag = prune_jobs (AList.update ident st (ag_jobs (jr_agent s)))" "job_ident st = ident" by blast
  have "jobs_ok (ag_jobs (jr_agent s))" "i \<noteq> ident" using assms(2,3) Create(2) by (auto simp: job_inv_def)
  then have "follows st0 (map_of (prune_jobs (AList.update ident st (ag_jobs (jr_agent s)))) i)"
    by (intro follows_prune [OF _ st(2) assms(3)]) simp_all
  then show ?thesis unfolding Create(1) by (simp add: st(1))
next
  case (Progress now ident snap)
  show ?thesis unfolding Progress using update_job_progress_stores(3) [of env now ident snap "jr_agent s"] assms(3)
    by (auto simp: follows_same intro!: follows_update) (auto simp: follows_def status_of_def)
next
  case (Manifest ident ctx path)
  show ?thesis unfolding Manifest(1) using set_job_manifest_stores(3) [of env ident path "jr_agent s"] assms(3)
    by (auto simp: follows_same intro!: follows_update) (auto simp: follows_def status_of_def)
next
  case (Finish ident ctx status now msg)
  have ok: "jobs_ok (ag_jobs (jr_agent s))" using assms(2) by (simp add: job_inv_def)
  have mem: "ctx \<in> set (run_ctx (ag_jobs (jr_agent s)) ident)"
    using senders_of_mem [OF Finish(2)] assms(2) by (simp add: job_inv_def)
  then obtain st1 where st1: "map_of (ag_jobs (jr_agent s)) ident = Some st1" "\<not> job_terminal st1"
    by (cases "map_of (ag_jobs (jr_agent s)) ident") (auto simp: run_ctx_def ctx_of_def split: if_splits)
  from finish_job_stores(3) [OF st1(1), of env now status msg] obtain st where
    st: "ag_jobs (finish_job env now ident status msg (jr_agent s)) = prune_jobs (AList.update ident st (ag_jobs (jr_agent s)))"
      "job_ident st = job_ident st1" by blast
  have "job_ident st = ident" using table_ok_ident [of job_ident "ag_jobs (jr_agent s)" ident st1] st1(1) st(2) ok
    by (simp add: jobs_ok_def)
  moreover have "i = ident \<Longrightarrow> follows st0 (Some st)" using st1 assms(3) by (auto simp: follows_def status_terminal)
  ultimately show ?thesis unfolding Finish(1) by (simp add: st(1) follows_prune [OF ok _ assms(3)])
next
  case (Cleanup path cleanup)
  then show ?thesis using assms(3) by (simp add: follows_same)
next
  case (Cancel now ident found ag)
  show ?thesis using cancel_job_stores [OF Cancel(2)] assms(3) unfolding Cancel(1)
    by (auto simp: follows_same status_terminal intro!: follows_update split: option.splits if_splits) (auto simp: follows_def)
next
  case (Resume now ident ctx opts ag)
  from Resume(2) obtain st1 st where "map_of (ag_jobs (jr_agent s)) ident = Some st1"
    "jd_status (js_details st1) \<in> {''canceled'', ''failed''}" "ag_jobs ag = AList.update ident st (ag_jobs (jr_agent s))"
    by (rule resume_job_stores)
  then show ?thesis unfolding Resume(1) using assms(3)
    by (auto intro!: follows_update) (auto simp: follows_def status_of_def)
next
  case (Resume_Error now ident e ag)
  then show ?thesis using resume_job_error [OF Resume_Error(2)] assms(3) by (simp add: follows_same)
next
  case (Forget ident r ag)
  then show ?thesis using forget_job_deletes [OF Forget(2)] assms(3) by (auto simp: follows_same delete_conv') (simp add: follows_def)
qed

section \<open>Properties\<close>

text \<open>
  C4: one sender per active job. From the table that a restart restores, whatever operations, progress
  reports and endings of senders follow, in whatever order: a job that is running or being cancelled has
  exactly one sender, the one that its cancel function reaches; a finished job has none; every sender
  belongs to a job of the table; and at most 500 finished jobs are remembered.
\<close>

theorem one_sender_per_job:
  assumes "ag_jobs ag = []"
    and "job_reach env \<lparr>jr_agent = restore_job_history env sha source decode mtime now ag, jr_senders = []\<rparr> s"
  shows "(\<forall>ident st. map_of (ag_jobs (jr_agent s)) ident = Some st \<longrightarrow>
      (if job_terminal st then filter (\<lambda>r. fst r = ident) (jr_senders s) = []
       else \<exists>k. js_cancel st = Some k \<and> filter (\<lambda>r. fst r = ident) (jr_senders s) = [(ident, k)]))
    \<and> (\<forall>r\<in>set (jr_senders s). map_of (ag_jobs (jr_agent s)) (fst r) \<noteq> None)
    \<and> length (filter job_terminal (map snd (ag_jobs (jr_agent s)))) \<le> 500"
proof -
  have inv: "job_inv s" using job_inv_reach [OF assms(2)] restore_inv [OF assms(1)] by blast
  have f: "filter (\<lambda>r. fst r = i) rs = map (Pair i) (senders_of i rs)" for i and rs :: "(string \<times> nat) list"
    by (induction rs) (auto simp: senders_of_def)
  have s: "senders_of i (jr_senders s) = run_ctx (ag_jobs (jr_agent s)) i" for i using inv by (simp add: job_inv_def)
  have l: "live_ok st" if "map_of (ag_jobs (jr_agent s)) i = Some st" for i st
    using inv that by (simp add: job_inv_def jobs_ok_def)
  have 1: "if job_terminal st then filter (\<lambda>r. fst r = i) (jr_senders s) = []
       else \<exists>k. js_cancel st = Some k \<and> filter (\<lambda>r. fst r = i) (jr_senders s) = [(i, k)]"
    if "map_of (ag_jobs (jr_agent s)) i = Some st" for i st
    using l [OF that] that by (auto simp: f s run_ctx_def ctx_of_def live_ok_def)
  have 2: "map_of (ag_jobs (jr_agent s)) (fst r) \<noteq> None" if "r \<in> set (jr_senders s)" for r
    using senders_of_mem [of "fst r" "snd r" "jr_senders s"] that
    by (cases "map_of (ag_jobs (jr_agent s)) (fst r)") (simp_all add: s run_ctx_def)
  show ?thesis using 1 2 inv by (simp add: job_inv_def jobs_ok_def max_history_def)
qed

text \<open>
  C6: done is final. In every reachable state a done job stays done under every operation, until it is
  forgotten or pruned; no late sender, cancellation, resume or progress report reopens it.
\<close>

theorem done_job_stays_done:
  assumes "ag_jobs ag = []"
    and "job_reach env \<lparr>jr_agent = restore_job_history env sha source decode mtime now ag, jr_senders = []\<rparr> s"
    and "job_step env s s'" "map_of (ag_jobs (jr_agent s)) ident = Some st" "jd_status (js_details st) = ''done''"
  shows "case map_of (ag_jobs (jr_agent s')) ident of None \<Rightarrow> True | Some st' \<Rightarrow> jd_status (js_details st') = ''done''"
proof -
  have "job_inv s" using job_inv_reach [OF assms(2)] restore_inv [OF assms(1)] by blast
  from step_follows [OF assms(3) this assms(4)] show ?thesis
    using assms(5) by (auto simp: follows_def status_of_def split: option.splits)
qed


section \<open>A run\<close>

definition jr_env :: agent_env where
  "jr_env = \<lparr>ae_cfg = default_config demo_env, ae_config_path = '''', ae_cwd = ''C:'' @ [bs], ae_temp_dir = ''C:'' @ bs # ''t'',
     ae_profile = '''', ae_encode = (\<lambda>p. Inr ''j''), ae_unmarshal = (\<lambda>b. Inl ''no'')\<rparr>"

definition jr_ag :: agent where
  "jr_ag = \<lparr>ag_jobs = [], ag_canceled = [], ag_next_ctx = 0, ag_world = demo_world (\<lambda>n. False) []\<rparr>"

definition jr_restored :: agent where
  "jr_restored = restore_job_history jr_env (\<lambda>b. b) (\<lambda>p. (Inl ''none'', Inr ())) (\<lambda>b. Inl ''no'') (\<lambda>p. None) 5 jr_ag"

definition jr_running :: job_run where
  "jr_running = \<lparr>jr_agent = snd (create_job jr_env 5 ''job-1'' 10 ''f'' ''h:1'' zero_send_options '''' jr_restored), jr_senders = [(''job-1'', 0)]\<rparr>"

definition jr_finished :: job_run where
  "jr_finished = \<lparr>jr_agent = finish_job jr_env 6 ''job-1'' ''done'' '''' (jr_agent jr_running), jr_senders = []\<rparr>"

lemma jr_facts:
  "ag_jobs jr_ag = []" "ag_jobs jr_restored = []" "fst (create_job jr_env 5 ''job-1'' 10 ''f'' ''h:1'' zero_send_options '''' jr_restored) = 0"
  "map_option (\<lambda>st. (job_terminal st, status_of st)) (map_of (ag_jobs (jr_agent jr_running)) ''job-1'') = Some (False, ''running'')"
  "map_option status_of (map_of (ag_jobs (jr_agent jr_finished)) ''job-1'') = Some ''done''"
  by code_simp+

lemma jr_reach:
  "job_reach jr_env \<lparr>jr_agent = jr_restored, jr_senders = []\<rparr> jr_running"
  "job_reach jr_env \<lparr>jr_agent = jr_restored, jr_senders = []\<rparr> jr_finished"
proof -
  have "create_job jr_env 5 ''job-1'' 10 ''f'' ''h:1'' zero_send_options '''' jr_restored = (0, jr_agent jr_running)"
    using jr_facts(3) by (simp add: jr_running_def prod_eq_iff)
  from job_step.Create [where s = "\<lparr>jr_agent = jr_restored, jr_senders = []\<rparr>", simplified, OF _ this]
  have "job_step jr_env \<lparr>jr_agent = jr_restored, jr_senders = []\<rparr> jr_running"
    by (simp add: jr_facts(2) jr_running_def)
  from job_reach.Step [OF job_reach.Start this]
  show r: "job_reach jr_env \<lparr>jr_agent = jr_restored, jr_senders = []\<rparr> jr_running" .
  have "job_step jr_env jr_running jr_finished"
    using job_step.Finish [of "''job-1''" 0 jr_running "''done''" jr_env 6 "''''"] by (simp add: jr_finished_def jr_running_def)
  with r show "job_reach jr_env \<lparr>jr_agent = jr_restored, jr_senders = []\<rparr> jr_finished" by (rule job_reach.Step)
qed

theorem one_sender_per_job_witness:
  "\<exists>st. map_of (ag_jobs (jr_agent jr_running)) ''job-1'' = Some st \<and> js_cancel st = Some 0"
proof -
  obtain st where st: "map_of (ag_jobs (jr_agent jr_running)) ''job-1'' = Some st" "\<not> job_terminal st"
    using jr_facts(4) by auto
  show ?thesis using one_sender_per_job [OF jr_facts(1) jr_reach(1) [unfolded jr_restored_def]] st
    by (fastforce simp: jr_running_def)
qed

theorem done_job_stays_done_witness:
  "case map_of (ag_jobs (update_job_progress jr_env 9 ''job-1'' (emit 1 2 3 0 0 [] demo_manifest []) (jr_agent jr_finished))) ''job-1'' of
     None \<Rightarrow> True | Some st \<Rightarrow> jd_status (js_details st) = ''done''"
proof -
  obtain st where st: "map_of (ag_jobs (jr_agent jr_finished)) ''job-1'' = Some st" "jd_status (js_details st) = ''done''"
    using jr_facts(5) by (auto simp: status_of_def)
  from done_job_stays_done [OF jr_facts(1) jr_reach(2) [unfolded jr_restored_def] job_step.Progress st]
  show ?thesis by simp
qed


end
