(* ===== verification/HistoryChecks.thy ===== *)
theory HistoryChecks
  imports JobRun
begin

text \<open>
  Properties of the history: what the check of a stored manifest accepts, what a removal of a staging
  directory can touch, what the restored status of a job depends on, and what the counters of a
  job lose when they are read from the manifest.
\<close>

section \<open>Stored manifests\<close>

definition chunk_plausible :: "chunk_state \<Rightarrow> bool" where
  "chunk_plausible c \<longleftrightarrow> chunk_bytes_ok c \<and> 0 \<le> cs_attempts c \<and> cs_status c \<in> chunk_statuses"

lemma check_p2p_chunks_iff:
  "off \<le> tot \<Longrightarrow> check_p2p_chunks tot i off cs = Inr tot \<longleftrightarrow> tiling i off tot (map cs_geom cs) \<and> list_all chunk_plausible cs"
proof (induction cs arbitrary: i off)
  case (Cons c cs)
  show ?case
  proof (cases "cs_size c \<le> tot - off")
    case True
    then show ?thesis using Cons.IH [of "off + cs_size c" "i + 1"]
      by (auto simp: cs_geom_def chunk_plausible_def chunk_bytes_ok_def)
  qed (auto simp: cs_geom_def)
qed auto


section \<open>Staging directories\<close>

text \<open>
  C8: removing a staging directory touches nothing else. Whatever paths a request or a history record names
  and whatever fails, a path of the file system changes only if it is the named directory or lies below it, that directory
  is one that the program made for staging (a child of the temporary directory or of the launcher's root
  with the right prefix), it is not a file or a link, and the source file of the job lies in it.
\<close>

theorem cleanup_stays_in_staging:
  assumes "node_at (snd (remove_managed_cleanup_path env filePath cleanupPath w)) q \<noteq> node_at w q"
  shows "\<exists>dir. dir = abs_path (ae_cwd env) cleanupPath \<and> managed_staging env dir \<and> below dir q
    \<and> path_within (ae_cwd env) (abs_path (ae_cwd env) filePath) dir \<and> (node_at w dir = None \<or> node_at w dir = Some Dir)"
proof -
  let ?d = "abs_path (ae_cwd env) cleanupPath"
  have t: "node_at (snd (validate_managed_cleanup_path env filePath cleanupPath w)) p = node_at w p" for p
    by (auto simp: validate_managed_cleanup_path_def io_return_def io_fail_def Let_def io_bind_def fs_lstat_def
        split: option.splits node.splits if_splits)
  show ?thesis
  proof (cases "validate_managed_cleanup_path env filePath cleanupPath w")
    case (Pair r w1)
    with t have w1: "node_at w1 p = node_at w p" for p by (metis snd_conv)
    show ?thesis
    proof (cases r)
      case (Inl e)
      then show ?thesis using assms Pair w1 by (simp add: remove_managed_cleanup_path_def io_bind_def)
    next
      case (Inr c)
      have c: "c \<noteq> ''''" "node_at (snd (fs_remove_all c w1)) q \<noteq> node_at w1 q"
        using assms Pair Inr w1
        by (auto simp: remove_managed_cleanup_path_def io_bind_def io_return_def split: if_splits)
      then have b: "below c q" using remove_all_frame by metis
      have "c = ?d \<and> managed_staging env ?d \<and> path_within (ae_cwd env) (abs_path (ae_cwd env) filePath) ?d
          \<and> (node_at w ?d = None \<or> node_at w ?d = Some Dir)"
        using Pair Inr c(1)
        by (auto simp: validate_managed_cleanup_path_def io_return_def io_fail_def Let_def io_bind_def fs_lstat_def
            split: option.splits node.splits if_splits)
      with b show ?thesis by auto
    qed
  qed
qed

section \<open>The restored status\<close>

text \<open>
  the restored status forgets the recorded one. A job gets the same state after a restart whatever status
  and message its record has: a job recorded as done is restored as canceled and resumable when its
  manifest, which a later transfer of the same file to the same target shares, is not complete.
\<close>

theorem restored_status_ignores_record:
  "job_state_from_history env sha source now (r\<lparr>pj_details := (pj_details r)\<lparr>jd_status := st, jd_message := msg\<rparr>\<rparr>) p w
     = job_state_from_history env sha source now r p w"
proof -
  let ?r = "r\<lparr>pj_details := (pj_details r)\<lparr>jd_status := st, jd_message := msg\<rparr>\<rparr>"
  let ?f = "\<lambda>d. d\<lparr>jd_status := st, jd_message := msg\<rparr>"
  have 0: "validate_restored_job_options env ?r fp = validate_restored_job_options env r fp" for fp
    by (simp add: validate_restored_job_options_def)
  have 1: "restored_state now fp ?r = upd_details ?f (restored_state now fp r)" for fp
    by (simp add: restored_state_def upd_details_def Let_def)
  have a: "apply_manifest mf (?f d) = ?f (apply_manifest mf d)" for mf d by (simp add: apply_manifest_def Let_def)
  have 2: "refresh_state env (upd_details ?f x) w = (upd_details ?f (fst (refresh_state env x w)), snd (refresh_state env x w))" for x w
    by (auto simp: refresh_state_def refresh_job_def upd_details_def a split: prod.splits sum.splits)
  have 3: "upd_details (restored_verdict ok mf) (upd_details ?f x) = upd_details (restored_verdict ok mf) x" for ok mf x
    by (simp add: upd_details_def restored_verdict_def)
  have 4: "jd_manifest_path (js_details (upd_details ?f x)) = jd_manifest_path (js_details x)" for x by simp
  have 5: "upd_details (\<lambda>d. d\<lparr>jd_status := s, jd_message := m, jd_resume_supported := b\<rparr>) (upd_details ?f x)
      = upd_details (\<lambda>d. d\<lparr>jd_status := s, jd_message := m, jd_resume_supported := b\<rparr>) x" for s m b x
    by (simp add: upd_details_def)
  show ?thesis unfolding job_state_from_history_def Let_def 1 4
    by (simp add: 0 2 3 5 case_prod_beta' cong: if_cong sum.case_cong)
qed

section \<open>Counters from the manifest\<close>

lemma loaded_statuses:
  assumes "load_file dec path w = (Inr mf, w')"
  shows "filter (\<lambda>c. cs_status c = StatusSending) (mf_chunks mf) = []"
proof -
  obtain b w1 where "io_lift (load_manifest (dec b)) w1 = (Inr mf, w')"
    using io_bind_last [OF assms [unfolded load_file_def]] by blast
  then obtain m where "mf = normalize_for_resume 3 m"
    by (cases "dec b") (auto simp: io_lift_def load_manifest_def)
  then show ?thesis
    by (auto simp: normalize_for_resume_def map_chunks_def filter_empty_conv resume_load_chunk_def)
qed

text \<open>
  a job never shows a chunk that is being sent. The counters that the sender reports are overwritten with those
  of the manifest file, and loading a manifest turns the chunks in flight into pending ones: whenever the
  manifest can be read the number of sending chunks is zero, also in the middle of a transfer.
\<close>

theorem refresh_hides_sending:
  assumes "jd_manifest_path d \<noteq> ''''" "fst (load_file (ae_unmarshal env) (jd_manifest_path d) w) = Inr mf"
  shows "jd_chunks_sending (fst (refresh_job env d w)) = 0
    \<and> jd_chunks_done (fst (refresh_job env d w)) = count_status StatusDone mf"
proof -
  obtain w' where l: "load_file (ae_unmarshal env) (jd_manifest_path d) w = (Inr mf, w')"
    using assms(2) by (metis prod.collapse)
  then show ?thesis using assms(1) loaded_statuses [OF l]
    by (simp add: refresh_job_def apply_manifest_def Let_def count_status_def)
qed

section \<open>Witnesses\<close>

definition hc_env :: agent_env where
  "hc_env = jr_env\<lparr>ae_unmarshal := (\<lambda>b. Inr demo_manifest)\<rparr>"

definition hc_dir :: string where "hc_dir = ''C:'' @ bs # ''t'' @ bs # ''multisend-pull-1''"

definition hc_world :: world where
  "hc_world = demo_world (\<lambda>n. False) [(hc_dir, Dir), (hc_dir @ bs # ''a.zip'', File ''z''), (''C:'' @ bs # ''t'' @ bs # ''x'', File ''k''),
     (demo_path, File ''m'')]"

lemma hc_facts:
  "node_at (snd (remove_managed_cleanup_path hc_env (hc_dir @ bs # ''a.zip'') hc_dir hc_world)) (hc_dir @ bs # ''a.zip'') = None"
  "node_at hc_world (hc_dir @ bs # ''a.zip'') = Some (File ''z'')"
  "fst (load_file (ae_unmarshal hc_env) demo_path hc_world) = Inr (normalize_for_resume 3 demo_manifest)"
  by code_simp+

theorem cleanup_stays_in_staging_witness: "managed_staging hc_env (abs_path (ae_cwd hc_env) hc_dir)"
proof -
  have "node_at (snd (remove_managed_cleanup_path hc_env (hc_dir @ bs # ''a.zip'') hc_dir hc_world)) (hc_dir @ bs # ''a.zip'')
      \<noteq> node_at hc_world (hc_dir @ bs # ''a.zip'')" by (simp add: hc_facts)
  from cleanup_stays_in_staging [OF this] show ?thesis by blast
qed

theorem refresh_hides_sending_witness:
  "jd_chunks_sending (fst (refresh_job hc_env ((new_details 5 ''job-1'' 10 ''f'')\<lparr>jd_manifest_path := demo_path, jd_chunks_sending := 3\<rparr>) hc_world)) = 0"
proof -
  let ?d = "(new_details 5 ''job-1'' 10 ''f'')\<lparr>jd_manifest_path := demo_path, jd_chunks_sending := 3\<rparr>"
  have "jd_manifest_path ?d \<noteq> ''''" by (simp add: demo_path_def)
  moreover have "fst (load_file (ae_unmarshal hc_env) (jd_manifest_path ?d) hc_world) = Inr (normalize_for_resume 3 demo_manifest)"
    by (simp add: hc_facts(3))
  ultimately show ?thesis using refresh_hides_sending [of ?d hc_env hc_world] by blast
qed

end
