(* ===== verification/Pulls.thy ===== *)
theory Pulls
  imports History Receiver
begin

text \<open>
  Pulling files from another agent, \<open>cmd/multisend-agent/pull.go\<close> and the pulls of \<open>history.go\<close>: the parsing of
  the source, the peer and its control address, the bearer token, the request that is sent to
  the peer, the table of pulls, and the packing of a remote folder into an archive. The answers of the
  other agent, the parser of URLs, the name service, links and the JSON codec are parameters.
\<close>

section \<open>Tokens\<close>

text \<open>\<open>strings.Fields\<close>.\<close>

function str_fields :: "string \<Rightarrow> string list" where
  "str_fields s =
     (let t = dropWhile is_space s in
      if t = '''' then [] else takeWhile (\<lambda>c. \<not> is_space c) t # str_fields (dropWhile (\<lambda>c. \<not> is_space c) t))"
  by auto
termination
proof (relation "measure length", simp)
  fix s t :: string assume t: "t = dropWhile is_space s" "t \<noteq> ''''"
  then have "\<not> is_space (hd t)" by (metis hd_dropWhile)
  then have "length (dropWhile (\<lambda>c. \<not> is_space c) t) < length t"
    using length_dropWhile_le [of "\<lambda>c. \<not> is_space c" "tl t"] t(2) by (cases t) auto
  also have "\<dots> \<le> length s" unfolding t(1) by (rule length_dropWhile_le)
  finally show "(dropWhile (\<lambda>c. \<not> is_space c) t, s) \<in> measure length" by simp
qed

declare str_fields.simps [simp del]

definition control_api_token :: "config \<Rightarrow> string" where
  "control_api_token cfg = (if \<not> cfg_require_auth cfg then '''' else trim_space (cfg_node_secret cfg))"

text \<open>\<open>setBearerToken\<close>: the value of the header \<open>Authorization\<close>, empty when it is not set.\<close>

definition bearer_header :: "string \<Rightarrow> string" where
  "bearer_header token = (let token = trim_space token in if token \<noteq> '''' then ''Bearer '' @ token else '''')"

definition control_auth_ok :: "config \<Rightarrow> string \<Rightarrow> bool" where
  "control_auth_ok cfg authorization =
     (let secret = trim_space (cfg_node_secret cfg) in
      if \<not> cfg_require_auth cfg then True
      else if secret = '''' then False
      else case str_fields authorization of
             [scheme, provided] \<Rightarrow> equal_fold scheme ''Bearer'' \<and> provided = secret
           | _ \<Rightarrow> False)"

section \<open>The source\<close>


text \<open>\<open>url.PathUnescape\<close>.\<close>

fun path_unescape :: "string \<Rightarrow> string option" where
  "path_unescape [] = Some []"
| "path_unescape (c # s) =
     (if c = CHR ''%'' then
        (case s of
           a # b # r \<Rightarrow>
             (case (hex_val a, hex_val b) of
                (Some x, Some y) \<Rightarrow> map_option ((#) (char_of (16 * x + y))) (path_unescape r)
              | _ \<Rightarrow> None)
         | _ \<Rightarrow> None)
      else map_option ((#) c) (path_unescape s))"

definition slashes_to_backslashes :: "string \<Rightarrow> string" where
  "slashes_to_backslashes s = replace_all ''/'' [bs] s"

definition parse_file_source :: "(string \<Rightarrow> parsed_url result) \<Rightarrow> string \<Rightarrow> (string \<times> string) result" where
  "parse_file_source parse_url raw =
     (let raw = trim_space raw in
      if has_prefix raw [bs, bs] then
        (let trimmed = trim_left_by (\<lambda>c. c = bs) raw;
             host = trim_space (takeWhile (\<lambda>c. c \<noteq> bs) trimmed);
             rest = trim_space (drop 1 (dropWhile (\<lambda>c. c \<noteq> bs) trimmed))
         in if bs \<notin> set trimmed \<or> host = '''' \<or> rest = '''' then Inl ''UNC path must be host and share''
            else Inr (host, [bs, bs] @ host @ bs # rest))
      else
        (let unc = ''file://'' @ [bs, bs];
             raw = (if has_prefix raw unc then ''file://'' @ replace_all [bs] ''/'' (trim_prefix raw unc) else raw)
         in case parse_url raw of
              Inl e \<Rightarrow> Inl (''invalid source_url: '' @ e)
            | Inr u \<Rightarrow>
                if \<not> equal_fold (pu_scheme u) ''file'' then Inl ''source_url must use file://''
                else let host = trim_space (pu_host u) in
                if host = '''' then Inl ''file:// host is required''
                else let p = trim_space (pu_escaped_path u);
                         p = (if p = '''' then trim_space (pu_path u) else p) in
                if p = '''' then Inl ''file path is required''
                else case path_unescape p of
                  None \<Rightarrow> Inl ''invalid file path encoding''
                | Some unescaped \<Rightarrow>
                    (let trimmed = trim_left_by is_sep (trim_space unescaped) in
                     if trimmed = '''' then Inl ''file path is required''
                     else Inr (host, trim_space ([bs, bs] @ host @ bs # slashes_to_backslashes trimmed)))))"

section \<open>Peers\<close>

definition peer_named :: "string \<Rightarrow> peer \<Rightarrow> bool" where
  "peer_named target p \<longleftrightarrow> equal_fold (peer_addr p) target \<or> equal_fold (hl_name (peer_hello p)) target
     \<or> equal_fold (hl_node_id (peer_hello p)) target \<or> list_ex (\<lambda>ip. equal_fold ip target) (hl_ips (peer_hello p))"

text \<open>\<open>lookup\<close> is \<open>net.LookupIP\<close> with its addresses in text form, empty for an error.\<close>

definition find_peer_by_host :: "(string \<Rightarrow> string list) \<Rightarrow> peer list \<Rightarrow> string \<Rightarrow> peer option" where
  "find_peer_by_host lookup ps host =
     (let target = to_lower (trim_space host) in
      if target = '''' then None
      else case find (peer_named target) ps of
        Some p \<Rightarrow> Some p
      | None \<Rightarrow>
          (case find (\<lambda>ip. list_ex (\<lambda>p. list_ex (\<lambda>pip. equal_fold pip ip) (hl_ips (peer_hello p))) ps) (lookup target) of
             None \<Rightarrow> None
           | Some ip \<Rightarrow> find (\<lambda>p. list_ex (\<lambda>pip. equal_fold pip ip) (hl_ips (peer_hello p))) ps))"

definition remote_control_base :: "peer \<Rightarrow> string" where
  "remote_control_base p =
     (if hl_control_port (peer_hello p) \<le> 0 then ''''
      else ''http://'' @ peer_ip p @ '':'' @ itoa (hl_control_port (peer_hello p)))"

definition is_remote_allowed :: "peer list \<Rightarrow> string \<Rightarrow> bool" where
  "is_remote_allowed ps remoteAddr =
     (let host = (case split_host_port (trim_space remoteAddr) of Inl _ \<Rightarrow> trim_space remoteAddr | Inr (h, _) \<Rightarrow> h) in
      if parse_ip host = None then False
      else list_ex (\<lambda>p. peer_addr p = host \<or> host \<in> set (hl_ips (peer_hello p))) ps)"

section \<open>The output directory\<close>

text \<open>\<open>filepath.Rel\<close> on absolute paths: up from the base to the common part, then down.\<close>

fun common_length :: "string list \<Rightarrow> string list \<Rightarrow> nat" where
  "common_length (x # xs) (y # ys) = (if equal_fold x y then Suc (common_length xs ys) else 0)"
| "common_length _ _ = 0"

definition rel_path :: "string \<Rightarrow> string \<Rightarrow> string result" where
  "rel_path base targ =
     (if equal_fold (clean base) (clean targ) then Inr ''.''
      else if \<not> equal_fold (volume base) (volume targ) \<or> rooted base \<noteq> rooted targ then Inl ''cannot make relative''
      else
        (let b = clean_components base; t = clean_components targ; k = common_length b t
         in Inr (join_with bs (map (\<lambda>_. ''..'') (drop k b) @ drop k t))))"

definition relative_output :: "string \<Rightarrow> string \<Rightarrow> string \<Rightarrow> string result" where
  "relative_output cwd rootResolved outResolved =
     (if \<not> is_under cwd outResolved rootResolved then Inl ''output_dir must stay inside the receive path''
      else case rel_path rootResolved outResolved of
        Inl e \<Rightarrow> Inl e
      | Inr rel \<Rightarrow> let rel = clean rel in if rel = ''.'' then Inr ''.'' else validate_receive_rel_path rel)"

definition validate_output_under_receive :: "(string \<Rightarrow> string result) \<Rightarrow> string \<Rightarrow> string \<Rightarrow> string \<Rightarrow> string io" where
  "validate_output_under_receive links cwd outputDir receiveRoot =
     io_bind (resolve_path_with_existing_parent links cwd outputDir) (\<lambda>outResolved.
     io_bind (io_lift (resolve_existing_path links cwd receiveRoot)) (\<lambda>rootResolved.
     io_lift (relative_output cwd rootResolved outResolved)))"

section \<open>Packing a folder\<close>

text \<open>
  \<open>zipDirectory\<close>: the walk visits the tree in the lexical order of its components; each visit looks at the
  entry (\<open>Info\<close>), and a directory is then read. The archive so far is kept when the walk stops; \<open>zipper\<close> turns it
  into bytes. The first error of the walk, of closing the writer and of closing the file is returned.
\<close>

fun zip_walk :: "string \<Rightarrow> (string \<times> node) list \<Rightarrow> zip_entry list \<Rightarrow> (zip_entry list \<times> unit result) io" where
  "zip_walk src [] acc = io_return (acc, Inr ())"
| "zip_walk src ((p, n) # rest) acc =
     io_bind (io_try fs_step) (\<lambda>info.
       case info of
         Inl e \<Rightarrow> io_return (acc, Inl e)
       | Inr _ \<Rightarrow>
           (let rel = map (\<lambda>c. if c = bs then CHR ''/'' else c) (drop (Suc (length src)) p) in
            case n of
              Symlink \<Rightarrow> io_return (acc, Inl ''symbolic link is not supported'')
            | Dir \<Rightarrow>
                (let acc = (if p = src then acc else acc @ [\<lparr>ze_name = rel @ ''/'', ze_dir = True, ze_data = Inr ('''', True)\<rparr>])
                 in io_bind (io_try fs_step) (\<lambda>entries.
                      case entries of Inl e \<Rightarrow> io_return (acc, Inl e) | Inr _ \<Rightarrow> zip_walk src rest acc))
            | File _ \<Rightarrow>
                if p = src then zip_walk src rest acc
                else io_bind (io_try (fs_read p)) (\<lambda>content.
                  case content of
                    Inl e \<Rightarrow> io_return (acc @ [\<lparr>ze_name = rel, ze_dir = False, ze_data = Inr ('''', True)\<rparr>], Inl e)
                  | Inr b \<Rightarrow> zip_walk src rest (acc @ [\<lparr>ze_name = rel, ze_dir = False, ze_data = Inr (b, True)\<rparr>]))))"

definition tree_of :: "string \<Rightarrow> world \<Rightarrow> (string \<times> node) list" where
  "tree_of src w =
     sort_key (\<lambda>(p, _). components p) (filter (\<lambda>(p, n). below src p \<and> node_at w p = Some n) (w_nodes w))"

definition zip_directory :: "(zip_entry list \<Rightarrow> bytes) \<Rightarrow> string \<Rightarrow> string \<Rightarrow> string \<Rightarrow> unit io" where
  "zip_directory zipper cwd sourceDir zipPath =
     (let src = abs_path cwd sourceDir in
      io_bind (fs_create zipPath) (\<lambda>_.
      io_bind (\<lambda>w. zip_walk src (tree_of src w) [] w) (\<lambda>(entries, walkErr).
      io_bind (io_try (fs_append zipPath (zipper entries))) (\<lambda>zipCloseErr.
      io_bind (io_try fs_step) (\<lambda>fileCloseErr.
      io_lift (case walkErr of Inl e \<Rightarrow> Inl e
               | Inr _ \<Rightarrow> (case zipCloseErr of Inl e \<Rightarrow> Inl e | Inr _ \<Rightarrow> fileCloseErr)))))))"

record prepared_source =
  ps_source_type :: string
  ps_publish_name :: string
  ps_folder_result :: string
  ps_cleanup_path :: string

text \<open>\<open>os.MkdirTemp\<close>.\<close>

definition fs_mkdir_temp :: "string \<Rightarrow> string \<Rightarrow> string io" where
  "fs_mkdir_temp dir pre w =
     (let p = temp_name dir pre '''' (w_random w (w_tick w)) in
      if faulty w \<or> node_at w p \<noteq> None then (Inl ''temp failed'', tick w)
      else (Inr p, put_node p Dir (tick w)))"

definition prepare_remote_send_source ::
    "agent_env \<Rightarrow> (zip_entry list \<Rightarrow> bytes) \<Rightarrow> string \<Rightarrow> string \<Rightarrow> (string \<times> prepared_source) io" where
  "prepare_remote_send_source env zipper sourcePath folderResult =
     io_bind (fs_lstat sourcePath) (\<lambda>info.
       case info of
         None \<Rightarrow> io_fail ''source path not accessible''
       | Some Symlink \<Rightarrow> io_fail ''source symlink is not supported''
       | Some (File _) \<Rightarrow> io_return (sourcePath, \<lparr>ps_source_type = ''file'', ps_publish_name = base_name sourcePath,
            ps_folder_result = ''zip'', ps_cleanup_path = ''''\<rparr>)
       | Some Dir \<Rightarrow>
           io_bind (fs_mkdir_temp (ae_temp_dir env) ''multisend-pull-'') (\<lambda>tmpDir.
           let base = sanitize_publish_name (base_name sourcePath);
               base = (if base = '''' then ''folder'' else base);
               zipPath = join_path [tmpDir, base @ ''.zip'']
           in io_bind (io_on_error (zip_directory zipper (ae_cwd env) sourcePath zipPath) (fs_remove_all tmpDir)) (\<lambda>_.
              io_return (zipPath, \<lparr>ps_source_type = ''folder'', ps_publish_name = base @ ''.zip'',
                ps_folder_result = normalize_pull_folder_result folderResult, ps_cleanup_path = tmpDir\<rparr>))))"

section \<open>The table of pulls\<close>

record pull_state =
  pu_id :: string
  pu_source_url :: string
  pu_output_dir :: string
  pu_output_path :: string
  pu_source_type :: string
  pu_folder_result :: string
  pu_remote_node_id :: string
  pu_remote_peer_addr :: string
  pu_remote_job_id :: string
  pu_status :: string
  pu_message :: string
  pu_started_at :: gotime
  pu_updated_at :: gotime

record persisted_pull =
  pp_version :: int
  pp_state :: pull_state

text \<open>What a pull needs besides the environment of the agent.\<close>

record pull_env = agent_env +
  pe_encode :: "persisted_pull \<Rightarrow> bytes result"
  pe_links :: "string \<Rightarrow> string result"
  pe_lookup :: "string \<Rightarrow> string list"
  pe_parse_url :: "string \<Rightarrow> parsed_url result"

record puller =
  pl_pulls :: "(string, pull_state) gomap"
  pl_world :: world

definition pull_terminal :: "pull_state \<Rightarrow> bool" where
  "pull_terminal st \<longleftrightarrow> pu_status st \<in> {''done'', ''failed'', ''canceled''}"

definition prune_pulls :: "(string, pull_state) gomap \<Rightarrow> (string, pull_state) gomap" where
  "prune_pulls m = prune_records max_history pull_terminal pu_started_at pu_id m"

interpretation pulls_table: pruned_table prune_pulls pull_terminal pu_id max_history
  unfolding prune_pulls_def by (rule pruned_table_records)

definition persist_pull :: "pull_env \<Rightarrow> pull_state \<Rightarrow> world \<Rightarrow> world" where
  "persist_pull env st w =
     (if \<not> valid_id ''pull-'' (pu_id st) then w
      else let dir = operation_history_dir (ae_config_path env) ''pulls'' in
        if dir = '''' then w
        else snd (save_json_atomic (record_path dir (pu_id st))
               (pe_encode env \<lparr>pp_version = operation_history_version, pp_state = st\<rparr>) w))"

section \<open>Starting a pull\<close>

text \<open>A value of the decoded answer, and how \<open>%v\<close> prints it; a number or object has the text it is printed with.\<close>

datatype json_value = JNull | JText string | JOther string

fun fmt_v :: "json_value option \<Rightarrow> string" where
  "fmt_v None = ''<nil>''"
| "fmt_v (Some JNull) = ''<nil>''"
| "fmt_v (Some (JText s)) = s"
| "fmt_v (Some (JOther s)) = s"

record remote_send_request =
  rq_url :: string
  rq_file_path :: string
  rq_target_node_id :: string
  rq_receive_rel_path :: string
  rq_folder_result :: string
  rq_chunk_size_mb :: int64
  rq_token :: string

text \<open>\<open>createPull\<close> up to the request that is posted: the request, the peer and the output directory.\<close>

definition pull_request ::
    "pull_env \<Rightarrow> peer list \<Rightarrow> string \<Rightarrow> string \<Rightarrow> int64 \<Rightarrow> (remote_send_request \<times> peer \<times> string) io" where
  "pull_request env ps sourceURL outputDir chunkSizeMB =
     (let cfg = ae_cfg env in
      io_bind (io_lift (validate_chunk_size_mb chunkSizeMB)) (\<lambda>_.
      let outputDir = (if trim_space outputDir = '''' then cfg_receive_path cfg else outputDir) in
      io_bind (io_lift (parse_file_source (pe_parse_url env) sourceURL)) (\<lambda>(host, sourcePath).
      case find_peer_by_host (pe_lookup env) ps host of
        None \<Rightarrow> io_fail ''peer not found for host''
      | Some peer \<Rightarrow>
          if hl_control_port (peer_hello peer) \<le> 0 then io_fail ''peer sem suporte a Receber com MultiSend''
          else
            io_bind (validate_output_under_receive (pe_links env) (ae_cwd env) outputDir (cfg_receive_path cfg)) (\<lambda>relPath.
            if remote_control_base peer = '''' then io_fail ''peer control endpoint unavailable''
            else io_return (\<lparr>rq_url = remote_control_base peer @ ''/remote-send'', rq_file_path = sourcePath,
              rq_target_node_id = cfg_node_id cfg, rq_receive_rel_path = relPath,
              rq_folder_result = normalize_pull_folder_result (cfg_pull_folder_result cfg),
              rq_chunk_size_mb = chunkSizeMB, rq_token = control_api_token cfg\<rparr>, peer, outputDir)))))"

text \<open>The state of the pull after the answer of the peer.\<close>

definition pull_started ::
    "int64 \<Rightarrow> gotime \<Rightarrow> string \<Rightarrow> remote_send_request \<Rightarrow> peer \<Rightarrow> string \<Rightarrow> (string, json_value) gomap \<Rightarrow> pull_state result" where
  "pull_started nano now sourceURL rq peer outputDir resp =
     (let remoteJobID = fmt_v (map_of resp ''job_id'') in
      if trim_space remoteJobID = '''' then Inl ''remote send did not return job_id''
      else
        (let sourceType = fmt_v (map_of resp ''source_type'');
             publishName = sanitize_publish_name (fmt_v (map_of resp ''publish_name''));
             publishName = (if publishName = '''' then base_name (rq_file_path rq) else publishName);
             expected = join_path [outputDir, publishName];
             expected = (if sourceType = ''folder'' \<and> rq_folder_result rq = ''extract'' then trim_suffix expected ''.zip'' else expected)
         in Inr \<lparr>pu_id = ''pull-'' @ itoa nano, pu_source_url = sourceURL, pu_output_dir = outputDir,
              pu_output_path = expected, pu_source_type = sourceType, pu_folder_result = rq_folder_result rq,
              pu_remote_node_id = hl_node_id (peer_hello peer), pu_remote_peer_addr = peer_addr peer,
              pu_remote_job_id = remoteJobID, pu_status = ''running'', pu_message = '''', pu_started_at = now, pu_updated_at = now\<rparr>))"

text \<open>Writing a state: the entry of the map is the record itself, so a state that is still in the map changes there.\<close>

definition store_pull :: "pull_env \<Rightarrow> pull_state \<Rightarrow> puller \<Rightarrow> puller" where
  "store_pull env st pl =
     pl\<lparr>pl_pulls := prune_pulls (AList.update (pu_id st) st (pl_pulls pl)), pl_world := persist_pull env st (pl_world pl)\<rparr>"

text \<open>\<open>post\<close> is the answer of the peer to the request.\<close>

definition create_pull ::
    "pull_env \<Rightarrow> peer list \<Rightarrow> (remote_send_request \<Rightarrow> (string, json_value) gomap result) \<Rightarrow> int64 \<Rightarrow> gotime \<Rightarrow> string \<Rightarrow> string \<Rightarrow>
     int64 \<Rightarrow> puller \<Rightarrow> pull_state result \<times> puller" where
  "create_pull env ps post nano now sourceURL outputDir chunkSizeMB pl =
     (case pull_request env ps sourceURL outputDir chunkSizeMB (pl_world pl) of
        (Inl e, w) \<Rightarrow> (Inl e, pl\<lparr>pl_world := w\<rparr>)
      | (Inr (rq, peer, outputDir), w) \<Rightarrow>
          (let pl = pl\<lparr>pl_world := w\<rparr> in
           case post rq of
             Inl e \<Rightarrow> (Inl e, pl)
           | Inr resp \<Rightarrow>
               (case pull_started nano now sourceURL rq peer outputDir resp of
                  Inl e \<Rightarrow> (Inl e, pl)
                | Inr st \<Rightarrow> (Inr st, store_pull env st pl))))"

section \<open>Following a pull\<close>

text \<open>What is shown of a pull; the channels carry the state, counters, rates and address of the remote ones.\<close>

record pull_view =
  pv_id :: string
  pv_status :: string
  pv_message :: string
  pv_percent :: rat
  pv_bytes_done :: int64
  pv_total_bytes :: int64
  pv_output_path :: string
  pv_source_type :: string
  pv_folder_result :: string
  pv_manifest_path :: string
  pv_resume_supported :: bool
  pv_chunks_total :: int64
  pv_chunks_done :: int64
  pv_chunks_failed :: int64
  pv_chunks_pending :: int64
  pv_chunks_sending :: int64
  pv_mbps_avg :: rat
  pv_cable :: channel_progress
  pv_wifi :: channel_progress

definition view_of :: "pull_state \<Rightarrow> string \<Rightarrow> job_details \<Rightarrow> pull_view" where
  "view_of st outputPath d =
     \<lparr>pv_id = pu_id st, pv_status = jd_status d, pv_message = jd_message d, pv_percent = jd_percent d,
      pv_bytes_done = jd_bytes_sent d, pv_total_bytes = jd_total_bytes d, pv_output_path = outputPath,
      pv_source_type = pu_source_type st, pv_folder_result = pu_folder_result st, pv_manifest_path = jd_manifest_path d,
      pv_resume_supported = True, pv_chunks_total = jd_chunks_total d, pv_chunks_done = jd_chunks_done d,
      pv_chunks_failed = jd_chunks_failed d, pv_chunks_pending = jd_chunks_pending d,
      pv_chunks_sending = jd_chunks_sending d, pv_mbps_avg = jd_mbps_avg d, pv_cable = jd_cable d, pv_wifi = jd_wifi d\<rparr>"

text \<open>
  \<open>pullViewFromRemote\<close>. The caller holds a pointer to the state: when the pull has been forgotten in the
  meantime the state is no longer in the table, but its record is written all the same.
\<close>

definition pull_view_from_remote ::
    "pull_env \<Rightarrow> peer list \<Rightarrow> (string \<Rightarrow> string \<Rightarrow> job_details result) \<Rightarrow> gotime \<Rightarrow> pull_state \<Rightarrow> puller \<Rightarrow>
     pull_view result \<times> puller" where
  "pull_view_from_remote env ps get now st pl =
     (case find_peer_by_host (pe_lookup env) ps (pu_remote_peer_addr st) of
        None \<Rightarrow> (Inl ''remote peer unavailable'', pl)
      | Some peer \<Rightarrow>
          if remote_control_base peer = '''' then (Inl ''remote control unavailable'', pl)
          else
            (case get (remote_control_base peer @ ''/remote-jobs/'' @ pu_remote_job_id st) (control_api_token (ae_cfg env)) of
               Inl e \<Rightarrow> (Inl e, pl)
             | Inr d \<Rightarrow>
                 (let st = st\<lparr>pu_status := jd_status d, pu_message := jd_message d, pu_updated_at := now\<rparr>;
                      outputPath = (if trim_space (pu_output_path st) = ''''
                                    then join_path [pu_output_dir st, base_name (jd_file_path d)] else pu_output_path st);
                      m = (if map_of (pl_pulls pl) (pu_id st) = None then pl_pulls pl
                           else AList.update (pu_id st) st (pl_pulls pl))
                  in (Inr (view_of st outputPath d),
                      pl\<lparr>pl_pulls := prune_pulls m, pl_world := persist_pull env st (pl_world pl)\<rparr>))))"

definition refresh_pull ::
    "pull_env \<Rightarrow> peer list \<Rightarrow> (string \<Rightarrow> string \<Rightarrow> job_details result) \<Rightarrow> gotime \<Rightarrow> string \<Rightarrow> puller \<Rightarrow> pull_view result \<times> puller" where
  "refresh_pull env ps get now ident pl =
     (case map_of (pl_pulls pl) ident of
        None \<Rightarrow> (Inl ''pull job not found'', pl)
      | Some st \<Rightarrow> pull_view_from_remote env ps get now st pl)"

definition pull_remote_action ::
    "pull_env \<Rightarrow> peer list \<Rightarrow> (string \<Rightarrow> string \<Rightarrow> unit result) \<Rightarrow> (string \<Rightarrow> string \<Rightarrow> job_details result) \<Rightarrow> gotime \<Rightarrow> string \<Rightarrow>
     string \<Rightarrow> puller \<Rightarrow> pull_view result \<times> puller" where
  "pull_remote_action env ps post get now ident action pl =
     (case map_of (pl_pulls pl) ident of
        None \<Rightarrow> (Inl ''pull job not found'', pl)
      | Some st \<Rightarrow>
          (case find_peer_by_host (pe_lookup env) ps (pu_remote_peer_addr st) of
             None \<Rightarrow> (Inl ''remote peer unavailable'', pl)
           | Some peer \<Rightarrow>
               if remote_control_base peer = '''' then (Inl ''remote control unavailable'', pl)
               else
                 (case post (remote_control_base peer @ ''/remote-jobs/'' @ pu_remote_job_id st @ ''/'' @ action)
                         (control_api_token (ae_cfg env)) of
                    Inl e \<Rightarrow> (Inl e, pl)
                  | Inr _ \<Rightarrow> pull_view_from_remote env ps get now st pl)))"

text \<open>\<open>listPulls\<close>: the newest first; a pull whose peer does not answer is shown as failed. \<open>now\<close> is the time of all.\<close>

fun view_pulls ::
    "pull_env \<Rightarrow> peer list \<Rightarrow> (string \<Rightarrow> string \<Rightarrow> job_details result) \<Rightarrow> gotime \<Rightarrow> pull_state list \<Rightarrow> puller \<Rightarrow>
     (string \<times> pull_view result) list \<times> puller" where
  "view_pulls env ps get now [] pl = ([], pl)"
| "view_pulls env ps get now (st # sts) pl =
     (let (v, pl) = pull_view_from_remote env ps get now st pl;
          (vs, pl) = view_pulls env ps get now sts pl
      in ((pu_id st, v) # vs, pl))"

definition list_pulls ::
    "pull_env \<Rightarrow> peer list \<Rightarrow> (string \<Rightarrow> string \<Rightarrow> job_details result) \<Rightarrow> gotime \<Rightarrow> puller \<Rightarrow> (string \<times> pull_view result) list \<times> puller" where
  "list_pulls env ps get now pl =
     view_pulls env ps get now (sort_key (\<lambda>st. - pu_started_at st) (map snd (pl_pulls pl))) pl"

section \<open>Forgetting and restoring\<close>

definition forget_pull :: "pull_env \<Rightarrow> string \<Rightarrow> puller \<Rightarrow> unit result \<times> puller" where
  "forget_pull env ident pl =
     (if \<not> valid_id ''pull-'' ident then (Inl ''invalid pull id'', pl)
      else case map_of (pl_pulls pl) ident of None \<Rightarrow> (Inl ''pull job not found'', pl) | Some st \<Rightarrow>
      if \<not> pull_terminal st then (Inl ''active pull cannot be removed'', pl)
      else let dir = operation_history_dir (ae_config_path env) ''pulls'' in
      if trim_space dir = '''' then (Inl ''operation history is unavailable'', pl)
      else
        (case fs_remove_if_exists (record_path dir ident) (pl_world pl) of
           (Inl e, w) \<Rightarrow> (Inl e, pl\<lparr>pl_world := w\<rparr>)
         | (Inr _, w) \<Rightarrow> (Inr (), pl\<lparr>pl_world := w, pl_pulls := AList.delete ident (pl_pulls pl)\<rparr>)))"

text \<open>The body of the loop of \<open>restorePullHistory\<close>: the state a record gives, if it is accepted.\<close>

definition restored_pull :: "pull_env \<Rightarrow> gotime \<Rightarrow> string \<Rightarrow> persisted_pull \<Rightarrow> pull_state option" where
  "restored_pull env now path r =
     (let st = pp_state r; receive = cfg_receive_path (ae_cfg env);
          outputDir = abs_path (ae_cwd env) (trim_space (pu_output_dir st)) in
      if pp_version r \<noteq> operation_history_version then None
      else if \<not> valid_id ''pull-'' (pu_id st) \<or> \<not> valid_id ''job-'' (pu_remote_job_id st) \<or> base_name path \<noteq> pu_id st @ ''.json''
      then None
      else if (case parse_file_source (pe_parse_url env) (pu_source_url st) of Inl _ \<Rightarrow> True | Inr _ \<Rightarrow> False) then None
      else if \<not> is_abs (trim_space (pu_output_dir st)) \<or> \<not> path_within (ae_cwd env) outputDir receive
           \<or> trim_space (pu_remote_peer_addr st) = '''' then None
      else if trim_space (pu_output_path st) \<noteq> ''''
           \<and> (\<not> is_abs (pu_output_path st) \<or> \<not> path_within (ae_cwd env) (pu_output_path st) receive) then None
      else
        (let st = st\<lparr>pu_output_dir := outputDir\<rparr> in
         Some (if pu_status st \<in> {''running'', ''canceling'', ''resuming''}
               then st\<lparr>pu_status := ''canceled'', pu_message := ''interrupted by agent restart; reconnect to resume'',
                       pu_updated_at := now\<rparr>
               else st)))"

fun restore_pull_files ::
    "pull_env \<Rightarrow> (bytes \<Rightarrow> persisted_pull result) \<Rightarrow> gotime \<Rightarrow> string list \<Rightarrow> puller \<Rightarrow> puller" where
  "restore_pull_files env decode now [] pl = pl"
| "restore_pull_files env decode now (p # ps) pl =
     (let (res, w) = fs_read p (pl_world pl);
          pl = pl\<lparr>pl_world := w\<rparr>;
          st = (case res of Inl _ \<Rightarrow> None
                | Inr b \<Rightarrow> (case decode b of Inl _ \<Rightarrow> None | Inr r \<Rightarrow> restored_pull env now p r));
          pl = (case st of
                  None \<Rightarrow> pl
                | Some st \<Rightarrow> if map_of (pl_pulls pl) (pu_id st) = None
                             then pl\<lparr>pl_pulls := AList.update (pu_id st) st (pl_pulls pl)\<rparr> else pl)
      in restore_pull_files env decode now ps pl)"

definition restore_pull_history ::
    "pull_env \<Rightarrow> (bytes \<Rightarrow> persisted_pull result) \<Rightarrow> (string \<Rightarrow> gotime option) \<Rightarrow> gotime \<Rightarrow> puller \<Rightarrow> puller" where
  "restore_pull_history env decode mtime now pl =
     (let (files, w) = recent_operation_history mtime (operation_history_dir (ae_config_path env) ''pulls'') (pl_world pl);
          pl = restore_pull_files env decode now files (pl\<lparr>pl_world := w\<rparr>)
      in pl\<lparr>pl_pulls := prune_pulls (pl_pulls pl)\<rparr>)"

end
