(* ===== verification/PullChecks.thy ===== *)
theory PullChecks
  imports Pulls
begin

text \<open>
  What the pulls of theory Pulls guarantee: when the token of a request is accepted, where the pulled
  file goes, what is restored of the history, and what happens when the answer of the peer is incomplete.
\<close>

section \<open>The token of a request\<close>

lemma fields_Nil [simp]: "str_fields '''' = []"
  by (simp add: str_fields.simps)

lemma fields_space [simp]: "is_space c \<Longrightarrow> str_fields (c # s) = str_fields s"
  by (subst (1 2) str_fields.simps) simp

lemma takeWhile_word:
  assumes "list_all (\<lambda>c. \<not> is_space c) w" "s = '''' \<or> is_space (hd s)"
  shows "takeWhile (\<lambda>c. \<not> is_space c) (w @ s) = w" "dropWhile (\<lambda>c. \<not> is_space c) (w @ s) = s"
  using assms by (induction w; cases s; simp)+

lemma fields_word:
  assumes "w \<noteq> ''''" "list_all (\<lambda>c. \<not> is_space c) w" "s = '''' \<or> is_space (hd s)"
  shows "str_fields (w @ s) = w # str_fields s"
proof -
  have "dropWhile is_space (w @ s) = w @ s" using assms(1,2) by (cases w) auto
  then show ?thesis using takeWhile_word [OF assms(2,3)] assms(1) by (subst str_fields.simps) (simp add: Let_def)
qed

lemma fields_some: "\<not> list_all is_space s \<Longrightarrow> str_fields s \<noteq> []"
  by (subst str_fields.simps) (auto simp: Let_def dropWhile_eq_Nil_conv list_all_iff)

lemma trimmed_ends:
  assumes "trim_space t \<noteq> []"
  shows "\<not> is_space (hd (trim_space t))" "\<not> is_space (last (trim_space t))"
  using trim_by_ends [of is_space t] assms by (simp_all add: trim_space_def)

lemma fields_bearer:
  assumes "t \<noteq> ''''" "\<not> is_space (hd t)" "\<not> is_space (last t)"
  shows "str_fields (''Bearer '' @ t) = [''Bearer'', t] \<and> list_all (\<lambda>c. \<not> is_space c) t
    \<or> length (str_fields (''Bearer '' @ t)) > 2 \<and> \<not> list_all (\<lambda>c. \<not> is_space c) t"
proof -
  have b: "str_fields (''Bearer '' @ t) = ''Bearer'' # str_fields t"
  proof -
    have "str_fields (''Bearer'' @ CHR '' '' # t) = ''Bearer'' # str_fields (CHR '' '' # t)"
      by (rule fields_word) (simp_all, code_simp, simp add: is_space_def)
    then show ?thesis by (simp add: is_space_def)
  qed
  let ?w = "takeWhile (\<lambda>c. \<not> is_space c) t" and ?s = "dropWhile (\<lambda>c. \<not> is_space c) t"
  have w: "?w \<noteq> ''''" "list_all (\<lambda>c. \<not> is_space c) ?w" "?s = '''' \<or> is_space (hd ?s)"
    using assms(1,2) hd_dropWhile [of "\<lambda>c. \<not> is_space c" t] by (cases t; auto simp: list_all_iff dest: set_takeWhileD)+
  have f: "str_fields t = ?w # str_fields ?s" using fields_word [OF w] by simp
  show ?thesis
  proof (cases "?s = ''''")
    case True
    then have "?w = t" by (metis append_Nil2 takeWhile_dropWhile_id)
    then show ?thesis using b f True w(2) by (simp add: list_all_iff)
  next
    case False
    then have "last ?s = last t" by (metis last_appendR takeWhile_dropWhile_id)
    then have "\<not> list_all is_space ?s" using assms(3) last_in_set [OF False] unfolding list_all_iff by metis
    then have "str_fields ?s \<noteq> []" by (rule fields_some)
    moreover have "\<not> list_all (\<lambda>c. \<not> is_space c) t" using False by (auto simp: list_all_iff dropWhile_eq_Nil_conv)
    ultimately show ?thesis using b f by (cases "str_fields ?s") auto
  qed
qed

text \<open>
  C14: when a request of one agent is authorised by another. With the requirement on, the control API
  accepts the token that the other agent sends exactly if that agent requires authentication too, both have the
  same non-empty secret up to surrounding blanks, and the secret has no blank inside: a pass phrase of
  several words is sent but never accepted.
\<close>

theorem request_authorised_iff:
  "control_auth_ok srv (bearer_header (control_api_token cli)) \<longleftrightarrow>
     (if cfg_require_auth srv then cfg_require_auth cli \<and> trim_space (cfg_node_secret srv) = trim_space (cfg_node_secret cli)
        \<and> trim_space (cfg_node_secret srv) \<noteq> '''' \<and> list_all (\<lambda>c. \<not> is_space c) (trim_space (cfg_node_secret srv))
      else True)"
proof (cases "cfg_require_auth srv \<and> control_api_token cli \<noteq> ''''")
  case False
  then show ?thesis
    by (auto simp: control_auth_ok_def bearer_header_def Let_def control_api_token_def split: if_splits)
next
  case True
  then have c: "cfg_require_auth cli" "control_api_token cli = trim_space (cfg_node_secret cli)"
    by (auto simp: control_api_token_def split: if_splits)
  let ?t = "trim_space (cfg_node_secret cli)"
  have ne: "?t \<noteq> ''''" using True c(2) by simp
  then have b: "bearer_header (control_api_token cli) = ''Bearer '' @ ?t" by (simp add: bearer_header_def c(2))
  have eq: "equal_fold ''Bearer'' ''Bearer''" by simp
  from fields_bearer [OF ne trimmed_ends [OF ne]] show ?thesis
  proof
    assume "str_fields (''Bearer '' @ ?t) = [''Bearer'', ?t] \<and> list_all (\<lambda>c. \<not> is_space c) ?t"
    then show ?thesis unfolding control_auth_ok_def b Let_def using True c(1) eq by auto
  next
    assume a: "length (str_fields (''Bearer '' @ ?t)) > 2 \<and> \<not> list_all (\<lambda>c. \<not> is_space c) ?t"
    then have "\<not> control_auth_ok srv (''Bearer '' @ ?t)"
      using True by (auto simp: control_auth_ok_def Let_def split: list.splits)
    then show ?thesis unfolding b using a True by auto
  qed
qed

section \<open>The output directory\<close>

definition tidy :: "string \<Rightarrow> bool" where
  "tidy c \<longleftrightarrow> plain c \<and> CHR '':'' \<notin> set c \<and> trim_space c = c"

lemma tidy_plain: "list_all tidy ds \<Longrightarrow> list_all plain ds"
  by (auto simp: list_all_iff tidy_def)

lemma hd_join: "ds \<noteq> [] \<Longrightarrow> hd ds \<noteq> [] \<Longrightarrow> hd (join_with d ds) = hd (hd ds)"
  by (cases ds; cases "tl ds") auto

lemma last_join: "ds \<noteq> [] \<Longrightarrow> last ds \<noteq> [] \<Longrightarrow> last (join_with d ds) = last (last ds)"
  by (cases ds rule: rev_cases) (auto simp: join_with_snoc)

lemma tidy_ends: "tidy c \<Longrightarrow> c \<noteq> '''' \<and> \<not> is_space (hd c) \<and> \<not> is_space (last c)"
  using trim_by_ends [of is_space c] by (auto simp: tidy_def plain_def trim_space_def)

text \<open>A relative path of tidy components is left alone by everything that looks at it.\<close>

lemma tidy_join:
  assumes "list_all tidy ds" "ds \<noteq> []"
  shows "trim_space (join_with bs ds) = join_with bs ds" "clean (join_with bs ds) = join_with bs ds"
    "validate_receive_rel_path (join_with bs ds) = Inr (join_with bs ds)" "join_with bs ds \<noteq> ''.''"
proof -
  let ?j = "join_with bs ds"
  have p: "list_all plain ds" by (rule tidy_plain [OF assms(1)])
  have h: "tidy (hd ds)" "tidy (last ds)" using assms by (auto simp: list_all_iff)
  have ends: "hd ?j = hd (hd ds)" "last ?j = last (last ds)"
    using hd_join [OF assms(2)] last_join [OF assms(2)] tidy_ends [OF h(1)] tidy_ends [OF h(2)] by auto
  have ne: "?j \<noteq> ''''" using p assms(2) by (cases ds; cases "tl ds") (auto simp: plain_def)
  show t: "trim_space ?j = ?j"
    using ne ends tidy_ends [OF h(1)] tidy_ends [OF h(2)] trim_by_id [of ?j is_space] by (simp add: trim_space_def)
  have "CHR '':'' \<notin> set ?j"
    using set_join_with [of bs ds] assms(1) by (fastforce simp: list_all_iff tidy_def)
  then have v: "volume ?j = ''''" by (auto simp: volume_def split: list.splits)
  have nr: "\<not> rooted ?j"
    using h(1) ends(1) ne v by (cases "hd ds") (auto simp: rooted_def after_volume_def tidy_def plain_def)
  have c: "components ?j = ds" using parts_of_join [OF p assms(2)] v by (simp add: components_def after_volume_def)
  show cl: "clean ?j = ?j" using v nr c assms(2) p ne by (simp add: clean_def clean_components_def resolve_id render_def)
  have "split_on bs ?j = ds" using p assms(2) plain_not_bs by (intro split_join) (auto simp: list_all_iff)
  moreover have "split_on bs ''.'' = [''.'']" "split_on bs ''..'' = [''..'']" by code_simp+
  moreover have "ds \<noteq> [''.'']" "ds \<noteq> [''..'']" using p by (auto simp: plain_def)
  ultimately have dot: "?j \<noteq> ''.''" and ddot: "?j \<noteq> ''..''" by metis+
  then show "?j \<noteq> ''.''" by simp
  have "\<not> prefix (join_with bs [''..''] @ [bs]) ?j"
  proof
    assume "prefix (join_with bs [''..''] @ [bs]) ?j"
    then obtain rest where "ds = [''..''] @ rest"
      using join_with_prefix [of bs "[''..'']" ds] p assms(2) plain_not_bs by (auto simp: list_all_iff bs_def)
    then show False using p by (simp add: plain_def)
  qed
  then have "\<not> has_prefix ?j (''..'' @ [bs])" by (simp add: has_prefix_def)
  then show "validate_receive_rel_path ?j = Inr ?j"
    using t cl v ne dot ddot by (simp add: validate_receive_rel_path_def Let_def is_abs_def)
qed

lemma common_length_prefix: "map to_lower ps = map to_lower rs @ rest \<Longrightarrow> common_length rs ps = length rs"
proof (induction rs arbitrary: ps)
  case (Cons r rs)
  then show ?case by (cases ps) (auto simp: equal_fold_def)
qed simp

text \<open>
  C16: the puller and the sender agree on where a pulled file goes. When the check accepts an output directory
  below the receive path (a drive and components without colons and without blanks at their ends), the relative
  path it puts into the request passes the check on the other side unchanged, and joined to the receive path it is
  the output directory again, up to letter case.
\<close>

theorem pull_output_roundtrip:
  assumes "relative_output cwd rt out = Inr rel" "resolved rt" "resolved out" "list_all tidy (clean_components out)"
  shows "validate_receive_rel_path rel = Inr rel \<and> equal_fold (if rel = ''.'' then rt else join_path [rt, rel]) out"
proof -
  obtain v v' rs ps where d: "drive v" "list_all plain rs" "rt = abs_of v rs" "drive v'" "list_all plain ps" "out = abs_of v' ps"
    using assms(2,3) unfolding resolved_def by blast
  have vf: "equal_fold v' v" and u: "map to_lower ps = map to_lower rs \<or> (\<exists>rest. rest \<noteq> [] \<and> map to_lower ps = map to_lower rs @ rest)"
    using assms(1) is_under_abs_of [OF d(4,1,5,2), of cwd] unfolding relative_output_def d(3,6) by (auto split: if_splits)
  have dot: "validate_receive_rel_path ''.'' = Inr ''.''" by code_simp
  show ?thesis
  proof (cases "map to_lower ps = map to_lower rs")
    case True
    then have "equal_fold rt out" using vf unfolding d(3,6) by (simp add: abs_of_def equal_fold_def to_lower_join)
    moreover from this have "rel_path rt out = Inr ''.''" using d by (simp add: rel_path_def)
    moreover have "clean ''.'' = ''.''" by code_simp
    ultimately have "equal_fold rt out" "rel = ''.''"
      using assms(1) by (auto simp: relative_output_def Let_def split: if_splits)
    then show ?thesis using dot by simp
  next
    case False
    then obtain rest where r: "rest \<noteq> []" "map to_lower ps = map to_lower rs @ rest" using u by blast
    define ds where "ds = drop (length rs) ps"
    have len: "length rs \<le> length ps" using arg_cong [OF r(2), of length] by simp
    have lower: "map to_lower ds = rest" "map to_lower (take (length rs) ps) = map to_lower rs"
      using arg_cong [OF r(2), of "drop (length rs)"] arg_cong [OF r(2), of "take (length rs)"]
      by (simp_all add: ds_def drop_map take_map)
    then have ds: "ds \<noteq> []" using r(1) by auto
    have tidy: "list_all tidy ds" using assms(4) d(4,5,6) unfolding ds_def by (auto simp: list_all_iff dest: in_set_dropD)
    have "\<not> equal_fold rt out"
      using False join_with_inject [of bs "map to_lower rs" "map to_lower ps"] d(2,5) d(1,4) unfolding d(3,6)
      by (auto simp: abs_of_def equal_fold_def to_lower_join drive_def list_all_iff plain_not_bs plain_def)
    then have "rel_path rt out = Inr (join_with bs ds)"
      using d common_length_prefix [OF r(2)] vf by (simp add: rel_path_def ds_def equal_fold_def)
    then have rel: "rel = join_with bs ds"
      using assms(1) tidy_join [OF tidy ds] by (auto simp: relative_output_def Let_def split: if_splits)
    have "join_path [rt, rel] = abs_of v (rs @ ds)"
      unfolding d(3) by (rule join_abs_of_rel [OF d(1,2) tidy_plain [OF tidy] ds]) (simp add: rel)
    moreover have "map to_lower (rs @ ds) = map to_lower ps" using lower(1) r(2) by simp
    ultimately have "equal_fold (join_path [rt, rel]) out"
      using vf unfolding d(6) by (simp add: abs_of_def equal_fold_def to_lower_join)
    then show ?thesis using tidy_join [OF tidy ds] rel by simp
  qed
qed

theorem pull_output_roundtrip_witness:
  "equal_fold (join_path [''C:'' @ bs # ''R'', ''a'' @ bs # ''b'']) (''c:'' @ bs # ''r'' @ bs # ''a'' @ bs # ''b'')"
proof -
  let ?root = "''C:'' @ bs # ''R''" and ?out = "''c:'' @ bs # ''r'' @ bs # ''a'' @ bs # ''b''"
  have e: "?root = abs_of ''C:'' [''R'']" "?out = abs_of ''c:'' [''r'', ''a'', ''b'']" by (simp_all add: abs_of_def)
  have d: "drive ''C:''" "drive ''c:''" by (simp_all add: drive_def, code_simp, code_simp)
  have p: "list_all plain [''R'']" "list_all plain [''r'', ''a'', ''b'']" by code_simp+
  have r: "resolved ?root" "resolved ?out" unfolding e resolved_def using d p by blast+
  have ro: "relative_output '''' ?root ?out = Inr (''a'' @ bs # ''b'')" "list_all tidy (clean_components ?out)"
    and ne: "''a'' @ bs # ''b'' \<noteq> ''.''" by code_simp+
  from pull_output_roundtrip [OF ro(1) r ro(2)] show ?thesis unfolding if_not_P [OF ne] by blast
qed

section \<open>The restored history\<close>

definition pull_safe :: "pull_env \<Rightarrow> pull_state \<Rightarrow> bool" where
  "pull_safe env st \<longleftrightarrow> valid_id ''pull-'' (pu_id st) \<and> valid_id ''job-'' (pu_remote_job_id st)
     \<and> pu_status st \<notin> {''running'', ''canceling'', ''resuming''}
     \<and> is_under (ae_cwd env) (pu_output_dir st) (cfg_receive_path (ae_cfg env))
     \<and> (trim_space (pu_output_path st) = '''' \<or> is_under (ae_cwd env) (pu_output_path st) (cfg_receive_path (ae_cfg env)))"

lemma restored_pull_safe:
  assumes "restored_pull env now p r = Some st" "is_abs (cfg_receive_path (ae_cfg env))"
  shows "pull_safe env st"
proof -
  let ?o = "abs_path (ae_cwd env) (trim_space (pu_output_dir (pp_state r)))"
  have ab: "is_abs (trim_space (pu_output_dir (pp_state r)))"
    using assms(1) by (auto simp: restored_pull_def Let_def split: if_splits)
  then obtain v cs where "drive v" "?o = abs_of v cs" using abs_path_resolved [OF ab, of "ae_cwd env"] by blast
  then have "is_abs ?o" by simp
  then show ?thesis using assms path_within_eq [of ?o] path_within_eq [of "pu_output_path (pp_state r)"]
    by (auto simp: restored_pull_def Let_def pull_safe_def split: if_splits)
qed

definition pulls_ok :: "pull_env \<Rightarrow> (string, pull_state) gomap \<Rightarrow> bool" where
  "pulls_ok env m \<longleftrightarrow> table_ok pu_id m \<and> (\<forall>k st. map_of m k = Some st \<longrightarrow> pull_safe env st)"

lemma pulls_ok_insert:
  assumes "pulls_ok env m" "pull_safe env st"
  shows "pulls_ok env (AList.update (pu_id st) st m)"
proof -
  have "table_ok pu_id (AList.update (pu_id st) st m)" using assms(1) table_ok_update [of pu_id m st "pu_id st"] by (simp add: pulls_ok_def)
  then show ?thesis using assms by (auto simp: pulls_ok_def update_conv' split: if_splits)
qed

lemma restore_pull_files_ok:
  assumes "is_abs (cfg_receive_path (ae_cfg env))"
  shows "pulls_ok env (pl_pulls pl) \<Longrightarrow> pulls_ok env (pl_pulls (restore_pull_files env decode now ps pl))"
proof (induction ps arbitrary: pl)
  case (Cons p ps)
  show ?case
    by (simp add: Let_def case_prod_beta')
      (rule Cons.IH, use Cons.prems in \<open>auto split: option.splits sum.splits intro!: pulls_ok_insert
        dest!: restored_pull_safe [OF _ assms]\<close>)
qed simp

text \<open>
  C15: what a restart accepts of the history of pulls. Whatever the files in the history say, every restored
  pull has well-formed identifiers, is not active, and writes its output under the receive path; and at
  most five hundred finished pulls are kept.
\<close>

theorem restored_pulls_safe:
  assumes "is_abs (cfg_receive_path (ae_cfg env))" "pl_pulls pl = []"
    and "map_of (pl_pulls (restore_pull_history env decode mtime now pl)) k = Some st"
  shows "pu_id st = k \<and> valid_id ''pull-'' k \<and> valid_id ''job-'' (pu_remote_job_id st)
    \<and> pu_status st \<notin> {''running'', ''canceling'', ''resuming''}
    \<and> is_under (ae_cwd env) (pu_output_dir st) (cfg_receive_path (ae_cfg env))
    \<and> (trim_space (pu_output_path st) = '''' \<or> is_under (ae_cwd env) (pu_output_path st) (cfg_receive_path (ae_cfg env)))
    \<and> length (filter pull_terminal (map snd (pl_pulls (restore_pull_history env decode mtime now pl)))) \<le> 500"
proof -
  obtain files w where f: "recent_operation_history mtime (operation_history_dir (ae_config_path env) ''pulls'') (pl_world pl) = (files, w)"
    by force
  let ?pl = "restore_pull_files env decode now files (pl\<lparr>pl_world := w\<rparr>)"
  have r: "pl_pulls (restore_pull_history env decode mtime now pl) = prune_pulls (pl_pulls ?pl)"
    by (simp add: restore_pull_history_def f Let_def)
  have "pulls_ok env (pl_pulls (pl\<lparr>pl_world := w\<rparr>))" using assms(2) by (simp add: pulls_ok_def table_ok_def)
  then have ok: "pulls_ok env (pl_pulls ?pl)" by (rule restore_pull_files_ok [OF assms(1)])
  then have t: "table_ok pu_id (pl_pulls ?pl)" by (simp add: pulls_ok_def)
  have "map_of (pl_pulls ?pl) k = Some st" using pulls_table.prune_sub [OF t] assms(3) r by simp
  then have "pull_safe env st" "pu_id st = k" using ok table_ok_ident [OF t] by (auto simp: pulls_ok_def)
  then show ?thesis using pulls_table.prune_cap [OF t] r by (auto simp: pull_safe_def max_history_def)
qed

section \<open>Witness\<close>

definition pk_dir :: string where
  "pk_dir = ''C:'' @ bs # ''m'' @ bs # ''history'' @ bs # ''pulls''"

definition pk_state :: pull_state where
  "pk_state = \<lparr>pu_id = ''pull-1'', pu_source_url = bs # bs # ''h'' @ bs # ''s'', pu_output_dir = ''C:'' @ bs # ''r'' @ bs # ''x'',
     pu_output_path = '''', pu_source_type = ''file'', pu_folder_result = ''zip'', pu_remote_node_id = ''n'', pu_remote_peer_addr = ''h'',
     pu_remote_job_id = ''job-7'', pu_status = ''running'', pu_message = '''', pu_started_at = 5, pu_updated_at = 5\<rparr>"

definition pk_env :: pull_env where
  "pk_env = \<lparr>ae_cfg = (default_config Config.demo_env)\<lparr>cfg_receive_path := ''C:'' @ bs # ''r''\<rparr>,
     ae_config_path = ''C:'' @ bs # ''m'' @ bs # ''c.json'', ae_cwd = ''C:'' @ [bs], ae_temp_dir = ''C:'' @ bs # ''t'', ae_profile = '''',
     ae_encode = (\<lambda>p. Inr ''j''), ae_unmarshal = (\<lambda>b. Inl ''no''), pe_encode = (\<lambda>p. Inr ''p''), pe_links = Inr,
     pe_lookup = (\<lambda>h. []), pe_parse_url = (\<lambda>u. Inl ''no'')\<rparr>"

definition pk_start :: puller where
  "pk_start = \<lparr>pl_pulls = [], pl_world = demo_world (\<lambda>n. False) [(pk_dir, Dir), (pk_dir @ bs # ''pull-1.json'', File ''p'')]\<rparr>"

definition pk_after :: puller where
  "pk_after = restore_pull_history pk_env (\<lambda>b. Inr \<lparr>pp_version = 1, pp_state = pk_state\<rparr>) (\<lambda>p. Some 3) 9 pk_start"

lemma pk_restored: "map_option pu_status (map_of (pl_pulls pk_after) ''pull-1'') = Some ''canceled''"
  by code_simp

theorem restored_pulls_safe_witness:
  "case map_of (pl_pulls pk_after) ''pull-1'' of None \<Rightarrow> False | Some st \<Rightarrow> valid_id ''job-'' (pu_remote_job_id st)"
proof -
  obtain st where st: "map_of (pl_pulls pk_after) ''pull-1'' = Some st" using pk_restored by auto
  have "is_abs (cfg_receive_path (ae_cfg pk_env))" "pl_pulls pk_start = []" by code_simp+
  from restored_pulls_safe [OF this st [unfolded pk_after_def]] st show ?thesis by simp
qed

end
