(* ===== verification/ChildPath.thy ===== *)
theory ChildPath
  imports ReceiverFinal
begin

text \<open>
  A path directly below a directory: what \<open>Dir\<close>, \<open>Join\<close> and the last character say of it. Two components that keep
  a session directory with a manifest and chunks in it rest on these facts.
\<close>

definition child_of :: "string \<Rightarrow> string \<Rightarrow> bool" where
  "child_of p d \<longleftrightarrow> (\<exists>v ds n. drive v \<and> list_all plain ds \<and> plain n \<and> d = abs_of v ds \<and> p = abs_of v (ds @ [n]))"

lemma child_dir: "child_of p d \<Longrightarrow> dir_name p = d"
  by (auto simp: child_of_def)

lemma child_resolved: "child_of p d \<Longrightarrow> resolved p"
proof -
  assume "child_of p d"
  then obtain v ds n where "drive v" "list_all plain ds" "plain n" "p = abs_of v (ds @ [n])"
    unfolding child_of_def by blast
  then show ?thesis unfolding resolved_def by (intro exI [of _ v] exI [of _ "ds @ [n]"]) simp
qed

lemma base_name_cases: "base_name p = [bs] \<or> list_all (\<lambda>c. \<not> is_sep c) (base_name p) \<and> base_name p \<noteq> ''''"
proof -
  have "list_all (\<lambda>c. \<not> is_sep c) (rev (takeWhile (\<lambda>c. \<not> is_sep c) q))" for q
    by (auto simp: list_all_iff dest: set_takeWhileD)
  moreover have "list_all (\<lambda>c. \<not> is_sep c) ''.''" by code_simp
  ultimately show ?thesis by (auto simp: base_name_def Let_def)
qed

text \<open>A base name with something after it is one component below the directory.\<close>

lemma join_base:
  assumes "resolved d" "list_all (\<lambda>c. \<not> is_sep c) s" "s \<noteq> ''''" "last s \<noteq> CHR ''.''"
  shows "child_of (join_path [d, base_name p @ s]) d"
proof -
  obtain v ds where d: "drive v" "list_all plain ds" "d = abs_of v ds" using assms(1) unfolding resolved_def by blast
  consider "base_name p = [bs]" | "list_all (\<lambda>c. \<not> is_sep c) (base_name p)" "base_name p \<noteq> ''''"
    using base_name_cases by blast
  then show ?thesis
  proof cases
    case 1
    have "plain s" using assms by (auto simp: plain_def)
    moreover have "join_path [abs_of v ds, bs # s] = abs_of v (ds @ [s])"
      by (rule join_abs_of_rel) (use d calculation in auto)
    ultimately show ?thesis using d 1 by (auto simp: child_of_def)
  next
    case 2
    have "last (base_name p @ s) \<noteq> CHR ''.''" using assms(3,4) by simp
    then have "base_name p @ s \<noteq> ''.'' \<and> base_name p @ s \<noteq> ''..''" by (metis last.simps list.distinct(1))
    then have "plain (base_name p @ s)" using 2 assms(2,3) by (auto simp: plain_def)
    then show ?thesis using d unfolding child_of_def by auto
  qed
qed

lemma plain_child: "child_of d e \<Longrightarrow> plain n \<Longrightarrow> child_of (join_path [d, n]) d"
  unfolding child_of_def
  by (elim exE conjE) (rename_tac v ds m, rule_tac x = v in exI, rule_tac x = "ds @ [m]" in exI, rule_tac x = n in exI, simp)

lemma last_abs_of: "plain n \<Longrightarrow> last (abs_of v (cs @ [n])) = last n"
  by (simp add: abs_of_def join_with_snoc plain_def)

lemma last_child: "child_of d e \<Longrightarrow> plain n \<Longrightarrow> last (join_path [d, n]) = last n"
proof -
  assume "child_of d e" and n: "plain n"
  then obtain v ds m where d: "drive v" "list_all plain (ds @ [m])" "d = abs_of v (ds @ [m])"
    unfolding child_of_def by auto
  show ?thesis unfolding d(3) join_abs_of [OF d(1,2) n] by (rule last_abs_of [OF n])
qed

lemma child_neq: "child_of p d \<Longrightarrow> p \<noteq> d"
  using abs_of_inject unfolding child_of_def by fastforce

lemma clean_resolved: "resolved p \<Longrightarrow> clean p = p"
  unfolding resolved_def by auto

text \<open>A child of a directory that is not the top one is its path with a component after it.\<close>

lemma join_child: "child_of d e \<Longrightarrow> plain n \<Longrightarrow> join_path [d, n] = d @ bs # n"
proof -
  assume "child_of d e" and n: "plain n"
  then obtain v ds m where d: "drive v" "list_all plain (ds @ [m])" "d = abs_of v (ds @ [m])" unfolding child_of_def by auto
  show ?thesis unfolding d(3) join_abs_of [OF d(1,2) n] by (simp only: abs_of_def join_with_snoc) simp
qed

lemma child_append: "child_of d e \<Longrightarrow> child_of p d \<Longrightarrow> \<exists>n. p = d @ bs # n"
proof -
  assume d: "child_of d e" and "child_of p d"
  then obtain v ds n where p: "drive v" "list_all plain ds" "plain n" "d = abs_of v ds" "p = abs_of v (ds @ [n])"
    unfolding child_of_def by blast
  then have "p = join_path [d, n]" by simp
  then show ?thesis using join_child [OF d p(3)] by blast
qed

end
