(* ===== verification/MultiRecv.thy ===== *)
theory MultiRecv
  imports ReceiverDemo ChildPath
begin

text \<open>
  The stand-alone test receiver, \<open>cmd/multirecv/main.go\<close>: every connection brings one chunk, which goes to a
  temporary file, is checked against its hash, and is published beside the manifest of its session under
  \<open>manifestMu\<close>. The file system is the world of theory FileSys; the secret of the environment, HMAC,
  SHA-256 and the JSON codec are fields of \<open>multirecv_env\<close>. The listener is not modelled.
\<close>

section \<open>Code\<close>

record multirecv_env =
  mr_out_dir :: string
  mr_secret :: bytes
  mr_hmac :: "bytes \<Rightarrow> bytes \<Rightarrow> bytes"
  mr_sha :: "bytes \<Rightarrow> bytes"
  mr_marshal :: "manifest \<Rightarrow> bytes result"
  mr_unmarshal :: "bytes \<Rightarrow> manifest result"

definition validate_chunk_header :: "header \<Rightarrow> unit result" where
  "validate_chunk_header h =
     (case validate_header h of
        Inl e \<Rightarrow> Inl e
      | Inr _ \<Rightarrow>
          if length (h_chunk_sha256 h) \<noteq> sha256_size * 2 then Inl ''chunk_sha256 is required''
          else case hex_decode (h_chunk_sha256 h) of None \<Rightarrow> Inl ''invalid chunk_sha256'' | Some _ \<Rightarrow> Inr ())"

definition received_chunk :: "header \<Rightarrow> int64 \<Rightarrow> chunk_state" where
  "received_chunk h n = zero_chunk\<lparr>cs_index := h_chunk_index h, cs_offset := h_offset h,
     cs_size := h_part_size h, cs_status := StatusDone, cs_bytes_done := n\<rparr>"

definition multirecv_manifest :: "string \<Rightarrow> header \<Rightarrow> int64 \<Rightarrow> manifest" where
  "multirecv_manifest name h n =
     \<lparr>mf_schema_version = 1, mf_transfer_id = h_transfer_id h, mf_type = ''p2p'', mf_file_name = name,
      mf_total_bytes = h_total_bytes h, mf_chunk_size = h_part_size h, mf_created_at = 0, mf_updated_at = 0,
      mf_source = \<lparr>src_type = '''', src_address = '''', src_url = '''', src_identity = '''',
        src_abs_path = '''', src_mod_time = 0\<rparr>,
      mf_target = \<lparr>tgt_type = '''', tgt_address = '''', tgt_path = ''''\<rparr>,
      mf_chunks = [received_chunk h n]\<rparr>"

text \<open>The chunk is entered into a manifest that is there; its recorded position is left as it is.\<close>

definition enter_chunk :: "header \<Rightarrow> int64 \<Rightarrow> manifest \<Rightarrow> manifest" where
  "enter_chunk h n m =
     (if get_chunk m (h_chunk_index h) \<noteq> None
      then upd_chunk (h_chunk_index h) (\<lambda>c. c\<lparr>cs_status := StatusDone, cs_bytes_done := n\<rparr>) m
      else m\<lparr>mf_chunks := mf_chunks m @ [received_chunk h n]\<rparr>)"

definition publish_chunk ::
    "multirecv_env \<Rightarrow> gotime \<Rightarrow> string \<Rightarrow> string \<Rightarrow> string \<Rightarrow> header \<Rightarrow> int64 \<Rightarrow> unit io" where
  "publish_chunk env now sessionDir name tmp h n =
     (let mfPath = join_path [sessionDir, ''manifest.json''];
          outPath = chunk_file sessionDir name (h_chunk_index h) in
      io_bind (io_try (load_file (mr_unmarshal env) mfPath)) (\<lambda>loaded.
      io_bind (case loaded of
          Inr m \<Rightarrow>
            if mf_transfer_id m \<noteq> h_transfer_id h \<or> mf_file_name m \<noteq> name \<or> mf_total_bytes m \<noteq> h_total_bytes h
            then io_fail ''manifest identity mismatch'' else io_return (enter_chunk h n m)
        | Inl e \<Rightarrow>
            if e \<noteq> ''not exist'' then io_fail (''load manifest: '' @ e) else io_return (multirecv_manifest name h n)) (\<lambda>m.
      io_bind (fs_remove_if_exists outPath) (\<lambda>_.
      io_bind (fs_rename tmp outPath) (\<lambda>_.
      save_manifest (mr_marshal env) now mfPath m)))))"

text \<open>\<open>writeChunkError\<close>: its acknowledgement. Whether it reaches the sender makes no difference here.\<close>

definition chunk_error :: "header \<Rightarrow> string \<Rightarrow> chunk_ack" where
  "chunk_error h e = nack h ''failed'' e"

text \<open>From the copy to the acknowledgement, with the temporary file open.\<close>

definition take_chunk ::
    "multirecv_env \<Rightarrow> gotime \<Rightarrow> string \<Rightarrow> string \<Rightarrow> header \<Rightarrow> bytes \<Rightarrow> string \<Rightarrow> world \<Rightarrow> chunk_ack list \<times> world" where
  "take_chunk env now sessionDir name h payload tmp w =
     (let data = take (nat (h_part_size h)) payload in
      case copy_to_temp data h tmp w of
        (Inl _, w) \<Rightarrow> ([], snd (fs_step w))
      | (Inr _, w) \<Rightarrow>
      (case fs_step w of
        (Inl e, w) \<Rightarrow> ([chunk_error h (''close temporary chunk: '' @ e)], w)
      | (Inr _, w) \<Rightarrow>
          if \<not> equal_fold (hex_encode (mr_sha env data)) (h_chunk_sha256 h)
          then ([chunk_error h ''chunk hash mismatch''], w)
          else case publish_chunk env now sessionDir name tmp h (h_part_size h) w of
            (Inl e, w) \<Rightarrow> ([chunk_error h e], w)
          | (Inr _, w) \<Rightarrow> ([done_ack h (h_part_size h)], w)))"

definition multirecv_session_dir :: "multirecv_env \<Rightarrow> header \<Rightarrow> string" where
  "multirecv_session_dir env h =
     join_path [mr_out_dir env, base_name (h_file_name h) @ CHR ''_'' # h_transfer_id h]"

text \<open>
  \<open>handle\<close> after the header is read: the acknowledgements it writes. \<open>payload\<close> is what arrives before the
  connection ends.
\<close>

definition multirecv_handle ::
    "multirecv_env \<Rightarrow> gotime \<Rightarrow> header \<Rightarrow> bytes \<Rightarrow> world \<Rightarrow> chunk_ack list \<times> world" where
  "multirecv_handle env now h payload w =
     (case validate_chunk_header h of
        Inl e \<Rightarrow> ([chunk_error h e], w)
      | Inr _ \<Rightarrow>
          if \<not> verify_header (mr_hmac env) (mr_secret env) h
          then ([chunk_error h ''authentication failed'', chunk_error h ''authentication failed''], w)
          else
            (let name = base_name (h_file_name h); sessionDir = multirecv_session_dir env h in
             case fs_mkdir_all sessionDir w of
               (Inl _, w) \<Rightarrow> ([], w)
             | (Inr _, w) \<Rightarrow>
             (case fs_create_temp sessionDir ''.incoming-'' ''.tmp'' w of
               (Inl e, w) \<Rightarrow> ([chunk_error h (''create temporary chunk: '' @ e)], w)
             | (Inr tmp, w) \<Rightarrow>
                 (let (acks, w) = take_chunk env now sessionDir name h payload tmp w
                  in (acks, snd (fs_remove tmp w))))))"

section \<open>The paths of a connection\<close>

lemma temp_child:
  assumes "child_of d e"
  shows "child_of (temp_name d ''.incoming-'' ''.tmp'' k) d"
proof -
  obtain v ds n where d: "drive v" "list_all plain ds" "plain n" "d = abs_of v (ds @ [n])"
    using assms unfolding child_of_def by blast
  have "last d = last n" "d \<noteq> ''''" using d(3,4) by (simp_all add: abs_of_def join_with_snoc plain_def)
  moreover have "abs_of v ((ds @ [n]) @ [x]) = abs_of v (ds @ [n]) @ bs # x" for x
    by (simp only: abs_of_def join_with_snoc) simp
  ultimately have "temp_name d ''.incoming-'' ''.tmp'' k = abs_of v ((ds @ [n]) @ [''.incoming-'' @ itoa (int k) @ ''.tmp''])"
    using plain_last [OF d(3)] unfolding d(4) by (simp add: temp_name_def)
  moreover have "plain (''.incoming-'' @ itoa (int k) @ ''.tmp'')" by (rule plain_temp)
  ultimately show ?thesis using d unfolding child_of_def
    by (intro exI [of _ v] exI [of _ "ds @ [n]"] exI [of _ "''.incoming-'' @ itoa (int k) @ ''.tmp''"]) simp
qed

lemma chunk_suffix: "list_all (\<lambda>c. \<not> is_sep c) (''.chunk'' @ itoa06 k)" "last (''.chunk'' @ itoa06 k) \<noteq> CHR ''.''"
proof -
  have c: "\<not> is_sep c \<and> c \<noteq> CHR ''.''" if "c \<in> set (itoa06 k)" for c
    using itoa06_chars [OF that] digit_not_sep by blast
  then show "list_all (\<lambda>c. \<not> is_sep c) (''.chunk'' @ itoa06 k)" by (auto simp: list_all_iff is_sep_def bs_def)
  have "last (itoa06 k) \<in> set (itoa06 k)" by simp
  then show "last (''.chunk'' @ itoa06 k) \<noteq> CHR ''.''" using c by simp
qed

lemma chunk_child: "child_of d e \<Longrightarrow> child_of (chunk_file d (base_name f) k) d"
  unfolding chunk_file_def by (rule join_base [OF child_resolved chunk_suffix(1) _ chunk_suffix(2)]) simp_all

text \<open>The manifest, the chunk and the temporary file are different files.\<close>

lemma last_chunk_file:
  assumes "child_of d e"
  shows "is_digit (last (chunk_file d (base_name f) k)) \<or> last (chunk_file d (base_name f) k) = CHR ''-''"
proof -
  obtain v ds m where d: "drive v" "list_all plain ds" "plain m" "d = abs_of v (ds @ [m])"
    using assms unfolding child_of_def by blast
  let ?x = "''.chunk'' @ itoa06 (k + 1)"
  have l: "last (itoa06 (k + 1)) \<in> set (itoa06 (k + 1))" by simp
  consider "base_name f = [bs]" | "list_all (\<lambda>c. \<not> is_sep c) (base_name f)" "base_name f \<noteq> ''''"
    using base_name_cases by blast
  then have "last (chunk_file d (base_name f) k) = last ?x"
  proof cases
    case 1
    have x: "plain ?x" using chunk_suffix [of "k + 1"] by (auto simp: plain_def)
    have "join_path [d, bs # ?x] = abs_of v ((ds @ [m]) @ [?x])"
      unfolding d(4) by (intro join_abs_of_rel) (use d x in auto)
    then have "last (join_path [d, bs # ?x]) = last ?x" by (simp only: last_abs_of [OF x])
    then show ?thesis using 1 by (simp add: chunk_file_def)
  next
    case 2
    then have "plain (base_name f @ ?x)" using chunk_suffix [of "k + 1"] by (auto simp: plain_def)
    from last_child [OF assms this] show ?thesis by (simp add: chunk_file_def)
  qed
  moreover have "last ?x = last (itoa06 (k + 1))" by simp
  ultimately show ?thesis using itoa06_chars [OF l] by simp
qed

lemma multirecv_apart:
  assumes "child_of d e"
  shows "join_path [d, ''manifest.json''] \<noteq> chunk_file d (base_name f) k"
    "join_path [d, ''manifest.json''] @ ''.tmp'' \<noteq> chunk_file d (base_name f) k"
    "temp_name d ''.incoming-'' ''.tmp'' t \<noteq> chunk_file d (base_name f) k"
    "temp_name d ''.incoming-'' ''.tmp'' t \<noteq> join_path [d, ''manifest.json'']"
    "d \<noteq> chunk_file d (base_name f) k" "d \<noteq> join_path [d, ''manifest.json'']"
    "d \<noteq> temp_name d ''.incoming-'' ''.tmp'' t"
proof -
  have l: "last (chunk_file d (base_name f) k) \<noteq> CHR ''n''" "last (chunk_file d (base_name f) k) \<noteq> CHR ''p''"
    using last_chunk_file [OF assms, of f k] by (auto simp: is_digit_def)
  have m: "last (join_path [d, ''manifest.json'']) = CHR ''n''" using last_child [OF assms plain_names(1)] by simp
  have t: "last (temp_name d ''.incoming-'' ''.tmp'' t) = CHR ''p''" by (simp add: temp_name_def)
  show "join_path [d, ''manifest.json''] \<noteq> chunk_file d (base_name f) k" using l m by metis
  show "join_path [d, ''manifest.json''] @ ''.tmp'' \<noteq> chunk_file d (base_name f) k"
  proof
    assume "join_path [d, ''manifest.json''] @ ''.tmp'' = chunk_file d (base_name f) k"
    then have "last (chunk_file d (base_name f) k) = last (join_path [d, ''manifest.json''] @ ''.tmp'')" by simp
    then show False using l by simp
  qed
  show "temp_name d ''.incoming-'' ''.tmp'' t \<noteq> chunk_file d (base_name f) k" using l t by metis
  show "temp_name d ''.incoming-'' ''.tmp'' t \<noteq> join_path [d, ''manifest.json'']" using m t by auto
  show "d \<noteq> chunk_file d (base_name f) k" "d \<noteq> join_path [d, ''manifest.json'']" "d \<noteq> temp_name d ''.incoming-'' ''.tmp'' t"
    using child_neq [OF chunk_child [OF assms]] child_neq [OF plain_child [OF assms plain_names(1)]] child_neq [OF temp_child [OF assms]] by metis+
qed

section \<open>What a connection does\<close>

text \<open>The manifest that is saved: it names the transfer and has the chunk as done.\<close>

definition entered :: "string \<Rightarrow> header \<Rightarrow> int64 \<Rightarrow> manifest \<Rightarrow> bool" where
  "entered name h n m \<longleftrightarrow> mf_transfer_id m = h_transfer_id h \<and> mf_file_name m = name \<and> mf_total_bytes m = h_total_bytes h
     \<and> (\<exists>c\<in>set (mf_chunks m). cs_index c = h_chunk_index h \<and> cs_status c = StatusDone \<and> cs_bytes_done c = n)"

lemma upd_first_found: "List.find P xs = Some x \<Longrightarrow> f x \<in> set (upd_first P f xs)"
  by (induction xs) (auto split: if_splits)

lemma entered_new: "entered name h n (multirecv_manifest name h n)"
  by (simp add: entered_def multirecv_manifest_def received_chunk_def)

lemma entered_existing:
  assumes "mf_transfer_id m = h_transfer_id h" "mf_file_name m = name" "mf_total_bytes m = h_total_bytes h"
  shows "entered name h n (enter_chunk h n m)"
proof (cases "get_chunk m (h_chunk_index h)")
  case None
  then show ?thesis using assms by (simp add: entered_def enter_chunk_def received_chunk_def)
next
  case (Some c)
  then have "cs_index c = h_chunk_index h" by (auto simp: get_chunk_def dest!: find_SomeD)
  then show ?thesis using assms Some upd_first_found [OF Some [unfolded get_chunk_def], of "\<lambda>c. c\<lparr>cs_status := StatusDone, cs_bytes_done := n\<rparr>"]
    by (auto simp: entered_def enter_chunk_def upd_chunk_def intro!: bexI [rotated])
qed

lemma entered_saved: "entered name h n m \<Longrightarrow> entered name h n (m\<lparr>mf_updated_at := now\<rparr>)"
  by (simp add: entered_def)

definition session_paths :: "string \<Rightarrow> string \<Rightarrow> string \<Rightarrow> string set" where
  "session_paths d out tmp = {join_path [d, ''manifest.json''], join_path [d, ''manifest.json''] @ ''.tmp'', d, out, tmp}"

lemma touches_save:
  assumes "dir_name p \<noteq> p"
  shows "touches {p, p @ ''.tmp'', dir_name p} (save_manifest enc now p m)"
  unfolding touches_def
proof (intro allI impI)
  fix w q assume q: "q \<notin> {p, p @ ''.tmp'', dir_name p}"
  obtain r w' where s: "save_manifest enc now p m w = (r, w')" by force
  from save_manifest_cases [OF s assms] q s show "node_at (snd (save_manifest enc now p m w)) q = node_at w q"
    by (simp add: same_but_def)
qed

lemma publish_chunk_touches:
  assumes "child_of d e"
  shows "touches (session_paths d (chunk_file d name (h_chunk_index h)) tmp) (publish_chunk env now d name tmp h n)"
proof -
  let ?S = "session_paths d (chunk_file d name (h_chunk_index h)) tmp" and ?mf = "join_path [d, ''manifest.json'']"
  have d: "dir_name ?mf = d" "d \<noteq> ?mf"
    using child_dir [OF plain_child [OF assms plain_names(1)]] multirecv_apart(6) [OF assms] by auto
  have s: "touches ?S (save_manifest (mr_marshal env) now ?mf m)" for m
    by (rule touches_mono [OF touches_save]) (use d in \<open>auto simp: session_paths_def\<close>)
  have r: "touches ?S (fs_remove_if_exists (chunk_file d name (h_chunk_index h)))"
    "touches ?S (fs_rename tmp (chunk_file d name (h_chunk_index h)))" "touches ?S (io_return x)" "touches ?S (io_fail err)"
    "touches ?S (io_try (load_file (mr_unmarshal env) ?mf))" for x :: manifest and err
    by (rule touches_mono [OF touches_more(3)], simp add: session_paths_def)
      (rule touches_mono [OF touches_calls(7)], simp add: session_paths_def, rule touches_mono [OF touches_calls(11)], simp,
        rule touches_mono [OF touches_calls(12)], simp, rule touches_mono [OF touches_try [OF load_file_touches]], simp)
  show ?thesis unfolding publish_chunk_def Let_def
    by (intro touches_bind r s) (simp add: r split: sum.split)
qed

lemma fs_remove_if_exists_Inr: "fs_remove_if_exists p w = (Inr u, w') \<Longrightarrow> node_at w' q = (if q = p then None else node_at w q)"
  by (auto simp: fs_remove_if_exists_def io_bind_def io_try_def fs_remove_def io_return_def io_fail_def Let_def
      split: if_splits option.splits node.splits)

lemma publish_chunk_stored:
  assumes "child_of d e" "publish_chunk env now d (base_name f) tmp h n w = (Inr u, w')"
    and "tmp = temp_name d ''.incoming-'' ''.tmp'' t" "node_at w tmp = Some (File data)"
    and "\<And>m b. mr_marshal env m = Inr b \<Longrightarrow> mr_unmarshal env b = Inr m"
  shows "node_at w' (chunk_file d (base_name f) (h_chunk_index h)) = Some (File data)
    \<and> (\<exists>b m. node_at w' (join_path [d, ''manifest.json'']) = Some (File b) \<and> mr_unmarshal env b = Inr m
         \<and> entered (base_name f) h n m)"
proof -
  let ?mf = "join_path [d, ''manifest.json'']" and ?out = "chunk_file d (base_name f) (h_chunk_index h)"
  note apart = multirecv_apart [OF assms(1)]
  have dir: "dir_name ?mf = d" using child_dir [OF plain_child [OF assms(1) plain_names(1)]] .
  obtain loaded w1 m w2 u3 w3 u4 w4 where
    1: "io_try (load_file (mr_unmarshal env) ?mf) w = (Inr loaded, w1)" and
    2: "(case loaded of
          Inr m \<Rightarrow>
            if mf_transfer_id m \<noteq> h_transfer_id h \<or> mf_file_name m \<noteq> base_name f \<or> mf_total_bytes m \<noteq> h_total_bytes h
            then io_fail ''manifest identity mismatch'' else io_return (enter_chunk h n m)
        | Inl e \<Rightarrow>
            if e \<noteq> ''not exist'' then io_fail (''load manifest: '' @ e)
            else io_return (multirecv_manifest (base_name f) h n)) w1 = (Inr m, w2)" and
    3: "fs_remove_if_exists ?out w2 = (Inr u3, w3)" and 4: "fs_rename tmp ?out w3 = (Inr u4, w4)" and
    5: "save_manifest (mr_marshal env) now ?mf m w4 = (Inr u, w')"
    using assms(2) unfolding publish_chunk_def Let_def io_bind_Inr by blast
  have m: "entered (base_name f) h n m \<and> w2 = w1"
    using 2 entered_new entered_existing by (auto simp: io_return_def io_fail_def split: sum.splits if_splits)
  have "node_at w1 tmp = Some (File data)" using touchesD [OF touches_try [OF load_file_touches] 1, of tmp] assms(4) by simp
  then have "node_at w3 tmp = Some (File data)" using m fs_remove_if_exists_Inr [OF 3, of tmp] apart(3) assms(3) by auto
  then have out: "node_at w4 ?out = Some (File data)" using fs_rename_Inr [OF 4] by auto
  from save_manifest_cases [OF 5] dir apart(6)
  obtain b where s: "same_but {?mf, ?mf @ ''.tmp'', d} w4 w'"
    "mr_marshal env (m\<lparr>mf_updated_at := now\<rparr>) = Inr b" "node_at w' ?mf = Some (File b)" by auto
  have "?out \<notin> {?mf, ?mf @ ''.tmp'', d}"
    using apart(1,2,5) [of f "h_chunk_index h", THEN not_sym] by simp
  then have "node_at w' ?out = node_at w4 ?out" using s(1) by (simp add: same_but_def)
  then show ?thesis using out s(3) assms(5) [OF s(2)] entered_saved m by auto
qed

lemma valid_chunk_header: "validate_chunk_header h = Inr u \<Longrightarrow> h_transfer_id h \<noteq> '''' \<and> list_all id_char (h_transfer_id h)"
  by (auto simp: validate_chunk_header_def validate_header_def split: if_splits sum.splits)

lemma session_dir_child:
  assumes "resolved (mr_out_dir env)" "validate_chunk_header h = Inr u"
  shows "child_of (multirecv_session_dir env h) (mr_out_dir env)"
proof -
  note i = valid_chunk_header [OF assms(2)]
  have c: "\<not> is_sep c \<and> c \<noteq> CHR ''.''" if "id_char c" for c
    using that by (auto simp: id_char_def is_sep_def bs_def Let_def)
  have "last (h_transfer_id h) \<in> set (h_transfer_id h)" using i by simp
  then have "last (CHR ''_'' # h_transfer_id h) \<noteq> CHR ''.''" using i c by (auto simp: list_all_iff)
  moreover have "list_all (\<lambda>c. \<not> is_sep c) (CHR ''_'' # h_transfer_id h)"
    using i c by (auto simp: list_all_iff is_sep_def bs_def)
  ultimately show ?thesis unfolding multirecv_session_dir_def by (intro join_base assms(1)) simp_all
qed

lemma copy_to_temp_cases:
  assumes "copy_to_temp data h tmp w = (r, w')"
  shows "node_at w tmp = Some (File '''') \<Longrightarrow> r = Inr u \<Longrightarrow> node_at w' tmp = Some (File data) \<and> h_part_size h \<le> int (length data)"
    and "p \<noteq> tmp \<Longrightarrow> node_at w' p = node_at w p"
  using assms
  by (auto simp: copy_to_temp_def io_bind_def fs_append_def io_return_def io_fail_def split: prod.splits sum.splits if_splits option.splits node.splits)

lemma fs_step_node: "fs_step w = (r, w') \<Longrightarrow> node_at w' p = node_at w p"
  by (auto simp: fs_step_def split: if_splits)

text \<open>The acknowledgements of a chunk, and what is on disk when one of them says done.\<close>

lemma take_chunk_spec:
  assumes "take_chunk env now d (base_name f) h payload tmp w = (acks, w')" "child_of d e"
    and "tmp = temp_name d ''.incoming-'' ''.tmp'' t" "node_at w tmp = Some (File '''')"
  shows "p \<notin> session_paths d (chunk_file d (base_name f) (h_chunk_index h)) tmp \<Longrightarrow> node_at w' p = node_at w p"
    and "\<lbrakk>a \<in> set acks; ack_status a = ''done''; \<And>m b. mr_marshal env m = Inr b \<Longrightarrow> mr_unmarshal env b = Inr m; 0 \<le> h_part_size h\<rbrakk> \<Longrightarrow>
      let data = take (nat (h_part_size h)) payload in
      length data = nat (h_part_size h) \<and> equal_fold (hex_encode (mr_sha env data)) (h_chunk_sha256 h)
      \<and> node_at w' (chunk_file d (base_name f) (h_chunk_index h)) = Some (File data)
      \<and> (\<exists>b m. node_at w' (join_path [d, ''manifest.json'']) = Some (File b) \<and> mr_unmarshal env b = Inr m
           \<and> entered (base_name f) h (h_part_size h) m)"
proof -
  let ?data = "take (nat (h_part_size h)) payload" and ?out = "chunk_file d (base_name f) (h_chunk_index h)"
  let ?S = "session_paths d ?out tmp"
  have tmp: "tmp \<in> ?S" by (simp add: session_paths_def)
  have neg: "ack_status (chunk_error h msg) \<noteq> ''done''" for msg by (simp add: chunk_error_def nack_def)
  obtain r1 w1 where 1: "copy_to_temp ?data h tmp w = (r1, w1)" by force
  obtain r2 w2 where 2: "fs_step w1 = (r2, w2)" by force
  obtain r3 w3 where 3: "publish_chunk env now d (base_name f) tmp h (h_part_size h) w2 = (r3, w3)" by force
  note c = copy_to_temp_cases [OF 1] note s = fs_step_node [OF 2]
  note t = touchesD [OF publish_chunk_touches [OF assms(2)] 3]
  have w': "w' = w2 \<or> w' = w3" using assms(1) 1 2 3
    by (auto simp: take_chunk_def Let_def split: sum.splits if_splits)
  show "node_at w' p = node_at w p" if "p \<notin> ?S"
  proof -
    have "p \<noteq> tmp" using that tmp by blast
    then show ?thesis using w' c(2) [of p] s [of p] t [OF that] by auto
  qed
  assume a: "a \<in> set acks" "ack_status a = ''done''" and codec: "\<And>m b. mr_marshal env m = Inr b \<Longrightarrow> mr_unmarshal env b = Inr m"
    and n: "0 \<le> h_part_size h"
  then obtain u1 u2 u3 where r: "r1 = Inr u1" "r2 = Inr u2" "r3 = Inr u3" "w' = w3"
    "equal_fold (hex_encode (mr_sha env ?data)) (h_chunk_sha256 h)"
    using assms(1) 1 2 3 neg by (auto simp: take_chunk_def Let_def split: sum.splits if_splits)
  have d: "node_at w2 tmp = Some (File ?data)" "h_part_size h \<le> int (length ?data)"
    using c(1) [OF assms(4)] r(1) s [of tmp] by auto
  have len: "length ?data = nat (h_part_size h)" using d(2) n by (simp add: nat_le_iff split: if_splits)
  from publish_chunk_stored [OF assms(2) 3 [unfolded r(3)] assms(3) d(1) codec] r len
  show "let data = ?data in
      length data = nat (h_part_size h) \<and> equal_fold (hex_encode (mr_sha env data)) (h_chunk_sha256 h)
      \<and> node_at w' ?out = Some (File data)
      \<and> (\<exists>b m. node_at w' (join_path [d, ''manifest.json'']) = Some (File b) \<and> mr_unmarshal env b = Inr m
           \<and> entered (base_name f) h (h_part_size h) m)" by (simp add: Let_def)
qed

text \<open>The connection that gets as far as its temporary file.\<close>

lemma multirecv_handle_cases:
  assumes "multirecv_handle env now h payload w = (acks, w')"
  obtains (rejected) "\<forall>p. p \<noteq> multirecv_session_dir env h \<or> (\<exists>e. validate_chunk_header h = Inl e) \<longrightarrow> node_at w' p = node_at w p"
      "\<forall>a\<in>set acks. ack_status a = ''failed''"
  | (taken) u w1 t tmp w2 w3 where "validate_chunk_header h = Inr u"
      "\<forall>p. p \<noteq> multirecv_session_dir env h \<longrightarrow> node_at w1 p = node_at w p"
      "tmp = temp_name (multirecv_session_dir env h) ''.incoming-'' ''.tmp'' t" "node_at w2 tmp = Some (File '''')"
      "\<forall>p. p \<noteq> tmp \<longrightarrow> node_at w2 p = node_at w1 p"
      "take_chunk env now (multirecv_session_dir env h) (base_name (h_file_name h)) h payload tmp w2 = (acks, w3)"
      "w' = snd (fs_remove tmp w3)"
proof -
  let ?d = "multirecv_session_dir env h"
  have neg: "ack_status (chunk_error h msg) = ''failed''" for msg by (simp add: chunk_error_def nack_def)
  obtain r1 w1 where 1: "fs_mkdir_all ?d w = (r1, w1)" by force
  obtain r2 w2 where 2: "fs_create_temp ?d ''.incoming-'' ''.tmp'' w1 = (r2, w2)" by force
  have f1: "\<forall>p. p \<noteq> ?d \<longrightarrow> node_at w1 p = node_at w p" using fs_mkdir_all_frame [of _ ?d w] 1 by (metis snd_conv)
  show ?thesis
  proof (cases "\<exists>u. validate_chunk_header h = Inr u \<and> verify_header (mr_hmac env) (mr_secret env) h \<and> (\<exists>v. r1 = Inr v) \<and> (\<exists>p. r2 = Inr p)")
    case False
    then have "(\<forall>p. p \<noteq> ?d \<or> (\<exists>e. validate_chunk_header h = Inl e) \<longrightarrow> node_at w' p = node_at w p) \<and> (\<forall>a\<in>set acks. ack_status a = ''failed'')"
      using assms 1 2 f1 neg fs_create_temp_Inl [of ?d _ _ w1]
      by (auto simp: multirecv_handle_def Let_def split: sum.splits if_splits)
    then show ?thesis using rejected by blast
  next
    case True
    then obtain u v tmp where r: "validate_chunk_header h = Inr u" "r1 = Inr v" "r2 = Inr tmp"
      "verify_header (mr_hmac env) (mr_secret env) h" by blast
    obtain acks' w3 where 3: "take_chunk env now ?d (base_name (h_file_name h)) h payload tmp w2 = (acks', w3)" by force
    have "acks' = acks" "w' = snd (fs_remove tmp w3)" using assms 1 2 3 r by (simp_all add: multirecv_handle_def Let_def)
    then show ?thesis using taken [OF r(1) f1 _ _ _ 3 [unfolded \<open>acks' = acks\<close>]] fs_create_temp_Inr [OF 2 [unfolded r(3)]] by blast
  qed
qed

text \<open>
  no header can make the test receiver write outside its output directory. Whatever the names in the
  header and whatever call fails, a connection changes at most one directory, which lies directly in
  the output directory, and entries directly in that directory.
\<close>

theorem test_receiver_contained:
  assumes "multirecv_handle env now h payload w = (acks, w')" "resolved (mr_out_dir env)" "node_at w' p \<noteq> node_at w p"
  shows "dir_name (multirecv_session_dir env h) = mr_out_dir env
    \<and> (p = multirecv_session_dir env h \<or> dir_name p = multirecv_session_dir env h)"
  using assms(1)
proof (cases rule: multirecv_handle_cases)
  case rejected
  then have n: "p = multirecv_session_dir env h" "\<not> (\<exists>e. validate_chunk_header h = Inl e)" using assms(3) by blast+
  from n(2) have "validate_chunk_header h = Inr ()" by (cases "validate_chunk_header h") auto
  then show ?thesis using n(1) session_dir_child [OF assms(2)] child_dir by blast
next
  case (taken u w1 t tmp w2 w3)
  let ?d = "multirecv_session_dir env h" and ?out = "chunk_file (multirecv_session_dir env h) (base_name (h_file_name h)) (h_chunk_index h)"
  note d = session_dir_child [OF assms(2) taken(1)]
  have "node_at w' p = node_at w p" if "p \<notin> session_paths ?d ?out tmp"
  proof -
    have n: "p \<noteq> ?d" "p \<noteq> tmp" using that by (auto simp: session_paths_def)
    have "node_at w' p = node_at w3 p" using touches_calls(6) [of tmp] n unfolding taken(7) touches_def by simp
    also have "\<dots> = node_at w2 p" by (rule take_chunk_spec(1) [OF taken(6) d taken(3,4) that])
    finally show ?thesis using taken(2,5) n by simp
  qed
  then have "p \<in> session_paths ?d ?out tmp" using assms(3) by blast
  moreover have "dir_name (join_path [?d, ''manifest.json''] @ ''.tmp'') = ?d"
  proof -
    obtain v ds m where e: "drive v" "list_all plain (ds @ [m])" "?d = abs_of v (ds @ [m])" using d unfolding child_of_def by auto
    have "abs_of v ((ds @ [m]) @ [''manifest.json'']) @ ''.tmp'' = abs_of v ((ds @ [m]) @ [''manifest.json.tmp''])"
      by (simp only: abs_of_def join_with_snoc) simp
    then have "join_path [?d, ''manifest.json''] @ ''.tmp'' = join_path [?d, ''manifest.json.tmp'']"
      unfolding e(3) by (simp only: join_abs_of [OF e(1,2)] plain_names)
    then show ?thesis using child_dir [OF plain_child [OF d plain_names(2)]] by simp
  qed
  ultimately show ?thesis
    using child_dir [OF d] child_dir [OF plain_child [OF d plain_names(1)]] child_dir [OF chunk_child [OF d]] child_dir [OF temp_child [OF d]]
      taken(3) by (auto simp: session_paths_def)
qed


section \<open>A connection\<close>

definition rd_multi_man :: manifest where
  "rd_multi_man = (multirecv_manifest ''a.bin'' rd_head 2)\<lparr>mf_updated_at := 5\<rparr>"

definition rd_multi :: multirecv_env where
  "rd_multi = \<lparr>mr_out_dir = demo_root, mr_secret = '''', mr_hmac = (\<lambda>k m. m), mr_sha = demo_sha,
     mr_marshal = (\<lambda>m. if m = rd_multi_man then Inr ''m'' else Inl ''''),
     mr_unmarshal = (\<lambda>b. if b = ''m'' then Inr rd_multi_man else Inl '''')\<rparr>"

lemma rd_multi_start:
  "resolved (mr_out_dir rd_multi)" "validate_chunk_header rd_head = Inr ()" "multirecv_session_dir rd_multi rd_head = rd_dir"
  "verify_header (mr_hmac rd_multi) (mr_secret rd_multi) rd_head"
  "\<And>m b. mr_marshal rd_multi m = Inr b \<Longrightarrow> mr_unmarshal rd_multi b = Inr m"
proof -
  have "demo_root = abs_of ''C:'' [''r'']" "drive ''C:''" "list_all plain [''r'']" by code_simp+
  then have "resolved demo_root" unfolding resolved_def by blast
  then show "resolved (mr_out_dir rd_multi)" by (simp add: rd_multi_def)
  have "length (hex_encode (demo_sha ''ab'')) = 64" by (simp add: demo_sha_def)
  then show "validate_chunk_header rd_head = Inr ()"
    by (simp add: validate_chunk_header_def rd_demo_validate rd_demo_hash sha256_size_def)
  have "join_path [demo_root, ''a.bin'' @ CHR ''_'' # ''t1''] = rd_dir" by code_simp
  then show "multirecv_session_dir rd_multi rd_head = rd_dir"
    by (simp add: multirecv_session_dir_def rd_demo_header rd_multi_def)
qed (simp_all add: rd_multi_def verify_header_def split: if_splits)

lemma rd_multi_run:
  "fst (multirecv_handle rd_multi 5 rd_head ''ab'' (rd_world [] 11)) = [done_ack rd_head 2]"
  "node_at (snd (multirecv_handle rd_multi 5 rd_head ''ab'' (rd_world [] 11))) rd_chunk = Some (File ''ab'')"
proof -
  have m: "mr_sha rd_multi = demo_sha" "mr_marshal rd_multi ((multirecv_manifest ''a.bin'' rd_head 2)\<lparr>mf_updated_at := 5\<rparr>) = Inr ''m''"
    by (simp_all add: rd_multi_def rd_multi_man_def)
  show "fst (multirecv_handle rd_multi 5 rd_head ''ab'' (rd_world [] 11)) = [done_ack rd_head 2]"
    "node_at (snd (multirecv_handle rd_multi 5 rd_head ''ab'' (rd_world [] 11))) rd_chunk = Some (File ''ab'')"
    by (simp_all add: multirecv_handle_def take_chunk_def publish_chunk_def copy_to_temp_def load_file_def save_manifest_def
        save_atomic_def write_sync_close_def rd_multi_start rd_demo_header rd_demo_hash rd_demo_paths rd_demo_apart
        rd_demo_apart [THEN not_sym] m io_run load_manifest_def Let_def)
qed


theorem test_receiver_contained_witness: "dir_name rd_dir = demo_root"
proof -
  let ?w = "snd (multirecv_handle rd_multi 5 rd_head ''ab'' (rd_world [] 11))"
  have "node_at ?w rd_chunk \<noteq> node_at (rd_world [] 11) rd_chunk" by (simp add: rd_multi_run)
  then show ?thesis
    using test_receiver_contained [OF prod.collapse [symmetric] rd_multi_start(1), of 5 rd_head "''ab''" "rd_world [] 11" rd_chunk]
    by (simp add: rd_multi_start) (simp add: rd_multi_def)
qed

end
