(* ===== verification/Downloads.thy ===== *)
theory Downloads
  imports DownloadRun History
begin

text \<open>
  The table of downloads, \<open>internal/download/manager.go\<close>: probing the server, preparing, starting,
  cancelling and resuming a download, its statistics, restoring from the manifests on disk, cleaning up and
  forgetting. The workers of one download are in theory DownloadRun. The answers of the server, the parser of
  URLs and the JSON codec of manifests are parameters; each function under the lock is one operation.
\<close>

section \<open>Data\<close>

record chunk_failure_ref =
  cf_index :: int64
  cf_attempts :: int
  cf_last_error :: string
  cf_channel :: string

record download_job =
  dj_id :: string
  dj_url :: string
  dj_status :: string
  dj_message :: string
  dj_output_path :: string
  dj_manifest_path :: string
  dj_bytes_done :: int64
  dj_total_bytes :: int64
  dj_percent :: rat
  dj_mbps_now :: rat
  dj_mbps_avg :: rat
  dj_chunks_total :: int64
  dj_chunks_done :: int64
  dj_chunks_failed :: int64
  dj_chunks_pending :: int64
  dj_chunks_sending :: int64
  dj_resume_supported :: bool
  dj_pipeline_mode :: string
  dj_in_flight :: "(string, int) gomap"
  dj_queue_depth :: "(string, int) gomap"
  dj_idle_gap_ms :: "(string, int64) gomap"
  dj_channels :: "(string, channel_status) gomap"
  dj_failed_chunks :: "chunk_failure_ref list"

record start_request =
  sr_url :: string
  sr_output_dir :: string
  sr_file_name :: string
  sr_chunk_size_mb :: int64

record byte_sample =
  bsm_at :: gotime
  bsm_bytes :: int64

record download_state =
  ds_job :: download_job
  ds_mf :: manifest
  ds_cancel :: "nat option" \<comment> \<open>the context of the run\<close>
  ds_started_at :: gotime
  ds_last_at :: gotime
  ds_last_bytes :: int64
  ds_samples :: "byte_sample list"
  ds_channels :: "(string, channel_status) gomap"
  ds_ch_samples :: "(string, byte_sample list) gomap"
  ds_idle_gap_ms :: "(string, int64) gomap"
  ds_root_dir :: string

record downloader =
  dw_jobs :: "(string, download_state) gomap"
  dw_base_dir :: string
  dw_cfg :: config
  dw_root_recv :: string
  dw_last_reload :: gotime
  dw_canceled :: "nat list"
  dw_next_ctx :: nat
  dw_world :: world

text \<open>An answer of the server: its status and its header fields, the empty string for one that is absent.\<close>

record http_response =
  hp_status :: int
  hp_header :: "string \<Rightarrow> string"

record download_env =
  de_cwd :: string
  de_marshal :: "manifest \<Rightarrow> bytes result"
  de_unmarshal :: "bytes \<Rightarrow> manifest result"
  de_parse_url :: "string \<Rightarrow> parsed_url result"
  de_url_string :: "parsed_url \<Rightarrow> string"
  de_head :: "string \<Rightarrow> http_response result"
  de_range_get :: "string \<Rightarrow> http_response result"

section \<open>URLs\<close>

definition normalize_download_url :: "download_env \<Rightarrow> string \<Rightarrow> string" where
  "normalize_download_url env raw =
     (let u = trim_space raw in
      if u = '''' then ''''
      else case de_parse_url env u of
        Inl _ \<Rightarrow> u
      | Inr pu \<Rightarrow>
          if pu_path pu = ''/'' \<or> pu_path pu = '''' then u
          else if has_suffix (pu_path pu) ''/'' then
            (let trimmed = trim_right_by (\<lambda>c. c = CHR ''/'') (pu_path pu) in
             if trimmed \<noteq> '''' then de_url_string env (pu\<lparr>pu_path := trimmed\<rparr>) else u)
          else u)"

definition is_loopback_url :: "download_env \<Rightarrow> string \<Rightarrow> bool" where
  "is_loopback_url env raw =
     (case de_parse_url env raw of
        Inl _ \<Rightarrow> False
      | Inr u \<Rightarrow>
          (let host = (case split_host_port (pu_host u) of Inl _ \<Rightarrow> pu_host u | Inr (h, _) \<Rightarrow> h);
               host = trim_by (\<lambda>c. c = CHR ''['' \<or> c = CHR '']'') host
           in if equal_fold host ''localhost'' then True
              else case parse_ip host of None \<Rightarrow> False | Some b \<Rightarrow> ip_is_loopback b))"

section \<open>Probing the server\<close>

text \<open>What a probe finds: name, size, whether ranges are accepted, ETag and modification time.\<close>

record probe =
  pr_file_name :: string
  pr_total :: int64
  pr_accept_ranges :: bool
  pr_etag :: string
  pr_last_modified :: string

text \<open>\<open>total, _ := strconv.ParseInt(s, 10, 64)\<close>: out of range, the nearest bound comes with the error.\<close>

definition parse_int_or_bound :: "string \<Rightarrow> int64" where
  "parse_int_or_bound s =
     (case parse_int s of
        Inr v \<Rightarrow> v
      | Inl e \<Rightarrow> if e = ''value out of range'' then (if hd s = CHR ''-'' then min_i64 else max_i64) else 0)"

definition probed_name :: "download_env \<Rightarrow> string \<Rightarrow> string \<Rightarrow> http_response \<Rightarrow> string" where
  "probed_name env rawURL reqName res =
     (if trim_space reqName \<noteq> '''' then trim_space reqName
      else file_name_from_header_or_url (hp_header res ''Content-Disposition'')
             (case de_parse_url env rawURL of Inl _ \<Rightarrow> None | Inr u \<Rightarrow> Some (pu_path u)))"

definition head_download :: "download_env \<Rightarrow> string \<Rightarrow> string \<Rightarrow> probe result" where
  "head_download env rawURL reqName =
     (case de_head env rawURL of
        Inl e \<Rightarrow> Inl e
      | Inr res \<Rightarrow>
          Inr \<lparr>pr_file_name = probed_name env rawURL reqName res,
               pr_total = parse_int_or_bound (hp_header res ''Content-Length''),
               pr_accept_ranges = contains (to_lower (hp_header res ''Accept-Ranges'')) ''bytes'',
               pr_etag = hp_header res ''ETag'', pr_last_modified = hp_header res ''Last-Modified''\<rparr>)"

definition probe_download :: "download_env \<Rightarrow> string \<Rightarrow> string \<Rightarrow> probe result" where
  "probe_download env rawURL reqName =
     (let by_range =
        (case de_range_get env rawURL of
           Inl _ \<Rightarrow> Inl ''download_probe_failed''
         | Inr res \<Rightarrow>
             if hp_status res = 200 then Inl ''server ignored Range header''
             else if hp_status res \<noteq> 206 then Inl ''server does not support HEAD or Range GET''
             else (case split_on (CHR ''/'') (hp_header res ''Content-Range'') of
               [_, t] \<Rightarrow>
                 (case parse_int t of
                    Inl _ \<Rightarrow> Inl ''missing valid Content-Range''
                  | Inr tot \<Rightarrow>
                      if tot \<le> 0 then Inl ''missing valid Content-Range''
                      else Inr \<lparr>pr_file_name = probed_name env rawURL reqName res, pr_total = tot, pr_accept_ranges = True,
                        pr_etag = hp_header res ''ETag'', pr_last_modified = hp_header res ''Last-Modified''\<rparr>)
             | _ \<Rightarrow> Inl ''missing valid Content-Range''))
      in case head_download env rawURL reqName of
           Inr p \<Rightarrow> if 0 < pr_total p \<and> pr_accept_ranges p then Inr p else by_range
         | Inl e \<Rightarrow> by_range)"

section \<open>Statistics\<close>

text \<open>The channel of a state; a missing key of a Go map is the zero value.\<close>

definition zero_channel :: channel_status where
  "zero_channel = \<lparr>cst_state = '''', cst_interface_name = '''', cst_local_ip = '''', cst_bytes_sent = 0,
     cst_mbps_now = 0, cst_mbps_avg = 0, cst_failures = 0, cst_last_error = ''''\<rparr>"

definition put_channel :: "string \<Rightarrow> channel_status \<Rightarrow> download_state \<Rightarrow> download_state" where
  "put_channel name cs st = st\<lparr>ds_channels := AList.update name cs (ds_channels st)\<rparr>"

text \<open>\<open>st.job.Channels = cloneChannels(st.channels)\<close>.\<close>

definition show_channels :: "download_state \<Rightarrow> download_state" where
  "show_channels st = st\<lparr>ds_job := (ds_job st)\<lparr>dj_channels := ds_channels st\<rparr>\<rparr>"

definition set_offline :: "string \<Rightarrow> download_state \<Rightarrow> download_state" where
  "set_offline n st = put_channel n ((gomap_get (ds_channels st) n zero_channel)\<lparr>cst_state := ''offline''\<rparr>) st"

definition refresh_channel_states :: "local_channel list \<Rightarrow> download_state \<Rightarrow> download_state" where
  "refresh_channel_states channels st =
     (let st = foldl (\<lambda>st (name, ip). put_channel name
              ((gomap_get (ds_channels st) name zero_channel)
                 \<lparr>cst_state := ''active'', cst_local_ip := ip, cst_interface_name := name\<rparr>) st) st channels;
          st = foldl (\<lambda>st n. if has_channel channels n then st else set_offline n st) st [''cable'', ''wifi'']
      in show_channels st)"

definition bump_channel_failure :: "string \<Rightarrow> string \<Rightarrow> download_state \<Rightarrow> download_state" where
  "bump_channel_failure name err st =
     (let cs = gomap_get (ds_channels st) name zero_channel;
          n = i64 (cst_failures cs + 1);
          cs = cs\<lparr>cst_failures := n, cst_last_error := err,
                  cst_state := (if 3 \<le> n then ''cooldown'' else ''offline'')\<rparr>
      in show_channels (put_channel name cs st))"

definition sample_window :: "gotime \<Rightarrow> int64 \<Rightarrow> byte_sample list \<Rightarrow> byte_sample list" where
  "sample_window now bytes samples =
     dropWhile (\<lambda>x. bsm_at x < now - 30 * second) (samples @ [\<lparr>bsm_at = now, bsm_bytes = bytes\<rparr>])"

definition add_channel_sample :: "gotime \<Rightarrow> string \<Rightarrow> int64 \<Rightarrow> download_state \<Rightarrow> download_state" where
  "add_channel_sample now name bytes st =
     st\<lparr>ds_ch_samples := AList.update name (sample_window now bytes (gomap_get (ds_ch_samples st) name [])) (ds_ch_samples st)\<rparr>"

definition bump_channel_success :: "gotime \<Rightarrow> string \<Rightarrow> int64 \<Rightarrow> download_state \<Rightarrow> download_state" where
  "bump_channel_success now name bytes st =
     (let cs = gomap_get (ds_channels st) name zero_channel;
          cs = cs\<lparr>cst_state := ''active'', cst_bytes_sent := i64 (cst_bytes_sent cs + bytes), cst_last_error := ''''\<rparr>
      in show_channels (add_channel_sample now name (cst_bytes_sent cs) (put_channel name cs st)))"

text \<open>The size of the part file of a chunk that is being fetched, at most the size of the chunk; nothing when \<open>Stat\<close> fails.\<close>

definition part_progress :: "string \<Rightarrow> string \<Rightarrow> chunk_state \<Rightarrow> world \<Rightarrow> int64 option \<times> world" where
  "part_progress ident out c w =
     (case fs_stat (part_path_for ident out (cs_index c)) w of
        (Inl _, w) \<Rightarrow> (None, w)
      | (Inr (_, sz), w) \<Rightarrow> (Some (if cs_size c < sz then cs_size c else sz), w))"

fun sending_progress :: "string \<Rightarrow> string \<Rightarrow> chunk_state list \<Rightarrow> int64 \<Rightarrow> world \<Rightarrow> int64 \<times> world" where
  "sending_progress ident out [] done' w = (done', w)"
| "sending_progress ident out (c # cs) done' w =
     (if cs_status c \<noteq> StatusSending then sending_progress ident out cs done' w
      else case part_progress ident out c w of
             (None, w) \<Rightarrow> sending_progress ident out cs done' w
           | (Some n, w) \<Rightarrow> sending_progress ident out cs (i64 (done' + n)) w)"

definition estimate_progress :: "download_state \<Rightarrow> world \<Rightarrow> int64 \<times> world" where
  "estimate_progress st w =
     (let j = ds_job st;
          (n, w) = sending_progress (dj_id j) (dj_output_path j) (mf_chunks (ds_mf st)) (done_bytes (ds_mf st)) w
      in (if dj_total_bytes j < n then dj_total_bytes j else if n < 0 then 0 else n, w))"

fun channel_progress_loop ::
    "string \<Rightarrow> string \<Rightarrow> chunk_state list \<Rightarrow> (string, int64) gomap \<Rightarrow> world \<Rightarrow> (string, int64) gomap \<times> world" where
  "channel_progress_loop ident out [] m w = (m, w)"
| "channel_progress_loop ident out (c # cs) m w =
     (let ch = cs_channel c; add = (\<lambda>n. AList.update ch (i64 (gomap_get m ch 0 + n)) m) in
      if ch \<noteq> ''cable'' \<and> ch \<noteq> ''wifi'' then channel_progress_loop ident out cs m w
      else if cs_status c = StatusDone then channel_progress_loop ident out cs (add (cs_bytes_done c)) w
      else if cs_status c = StatusSending then
        (case part_progress ident out c w of
           (None, w) \<Rightarrow> channel_progress_loop ident out cs m w
         | (Some n, w) \<Rightarrow> channel_progress_loop ident out cs (add n) w)
      else channel_progress_loop ident out cs m w)"

definition channel_progress_bytes :: "download_state \<Rightarrow> world \<Rightarrow> (string, int64) gomap \<times> world" where
  "channel_progress_bytes st w =
     channel_progress_loop (dj_id (ds_job st)) (dj_output_path (ds_job st)) (mf_chunks (ds_mf st)) [(''cable'', 0), (''wifi'', 0)] w"

definition channel_rates :: "gotime \<Rightarrow> gotime \<Rightarrow> byte_sample list \<Rightarrow> channel_status \<Rightarrow> channel_status" where
  "channel_rates now startedAt samples cs =
     (let elapsed = seconds (now - startedAt) in
      if 2 \<le> length samples then
        (let y = last samples; x = last (butlast samples); d = seconds (bsm_at y - bsm_at x);
             cs = (if 0 < d \<and> bsm_bytes x \<le> bsm_bytes y
                   then cs\<lparr>cst_mbps_now := mbps (i64 (bsm_bytes y - bsm_bytes x)) d\<rparr> else cs)
         in if 0 < elapsed then cs\<lparr>cst_mbps_avg := mbps (cst_bytes_sent cs) elapsed\<rparr> else cs)
      else cs\<lparr>cst_mbps_now := 0, cst_mbps_avg := (if 0 < elapsed then mbps (cst_bytes_sent cs) elapsed else 0)\<rparr>)"

definition refresh_channel_rates :: "gotime \<Rightarrow> download_state \<Rightarrow> world \<Rightarrow> download_state \<times> world" where
  "refresh_channel_rates now st w =
     (let (bytes, w) = channel_progress_bytes st w;
          st = foldl (\<lambda>st name.
                 case map_of (ds_channels st) name of
                   None \<Rightarrow> st
                 | Some cs \<Rightarrow>
                     (let n = gomap_get bytes name 0;
                          st = add_channel_sample now name n st;
                          cs = channel_rates now (ds_started_at st) (gomap_get (ds_ch_samples st) name []) (cs\<lparr>cst_bytes_sent := n\<rparr>)
                      in put_channel name cs st)) st [''cable'', ''wifi'']
      in (show_channels st, w))"

definition count_chunks :: "manifest \<Rightarrow> download_job \<Rightarrow> download_job" where
  "count_chunks mf j =
     j\<lparr>dj_chunks_done := count_status StatusDone mf, dj_chunks_failed := count_status StatusFailed mf,
       dj_chunks_pending := int (length (filter (\<lambda>c. cs_status c \<notin> {StatusDone, StatusFailed, StatusSending}) (mf_chunks mf))),
       dj_chunks_sending := count_status StatusSending mf,
       dj_failed_chunks := map (\<lambda>c. \<lparr>cf_index = cs_index c, cf_attempts = cs_attempts c, cf_last_error = cs_last_error c,
          cf_channel = cs_channel c\<rparr>) (take 5 (filter (\<lambda>c. cs_status c = StatusFailed) (mf_chunks mf)))\<rparr>"

definition refresh_stats :: "gotime \<Rightarrow> int64 \<Rightarrow> download_state \<Rightarrow> world \<Rightarrow> download_state \<times> world" where
  "refresh_stats now doneBytes st w =
     (let (n, w) = estimate_progress st w;
          n = (if n < doneBytes then doneBytes else n);
          j = (ds_job st)\<lparr>dj_bytes_done := n\<rparr>;
          j = (if 0 < dj_total_bytes j then j\<lparr>dj_percent := percent_of n (dj_total_bytes j)\<rparr> else j);
          j = count_chunks (ds_mf st) j;
          delta = seconds (now - ds_last_at st); elapsed = seconds (now - ds_started_at st);
          diff = i64 (n - ds_last_bytes st);
          j = (if 0 < delta \<and> 0 \<le> diff then j\<lparr>dj_mbps_now := mbps diff delta\<rparr> else j);
          j = (if 0 < elapsed then j\<lparr>dj_mbps_avg := mbps n elapsed\<rparr> else j);
          (st, w) = refresh_channel_rates now (st\<lparr>ds_job := j, ds_samples := sample_window now n (ds_samples st)\<rparr>) w
      in (st\<lparr>ds_last_at := now, ds_last_bytes := dj_bytes_done (ds_job st)\<rparr>, w))"

definition bump_idle_gaps :: "local_channel list \<Rightarrow> (string, int) gomap \<Rightarrow> int \<Rightarrow> download_state \<Rightarrow> download_state" where
  "bump_idle_gaps channels inFlight limit st =
     foldl (\<lambda>st (name, ip).
       if limit \<le> gomap_get inFlight name 0 then st
       else if cst_state (gomap_get (ds_channels st) name zero_channel) \<in> {''active'', ''offline''}
       then st\<lparr>ds_idle_gap_ms := AList.update name (i64 (gomap_get (ds_idle_gap_ms st) name 0 + 100)) (ds_idle_gap_ms st)\<rparr>
       else st) st channels"

definition update_pipeline_telemetry :: "local_channel list \<Rightarrow> (string, int) gomap \<Rightarrow> chunk_state list \<Rightarrow> download_state \<Rightarrow> download_state" where
  "update_pipeline_telemetry channels inFlight pending st =
     st\<lparr>ds_job := (ds_job st)\<lparr>dj_in_flight := inFlight, dj_queue_depth := queue_depth channels (length pending),
        dj_idle_gap_ms := ds_idle_gap_ms st\<rparr>\<rparr>"

section \<open>Starting and stopping\<close>

text \<open>\<open>maybeRefreshConfig\<close>: \<open>loaded\<close> is the configuration on disk, if there is one and it can be read.\<close>

definition maybe_refresh_config :: "gotime \<Rightarrow> config option \<Rightarrow> downloader \<Rightarrow> downloader" where
  "maybe_refresh_config now loaded m =
     (if now - dw_last_reload m < 2 * second then m
      else (let m = m\<lparr>dw_last_reload := now\<rparr> in
        case loaded of
          None \<Rightarrow> m
        | Some cfg \<Rightarrow> m\<lparr>dw_cfg := cfg, dw_base_dir := join_path [cfg_receive_path cfg, ''Downloads''],
                        dw_root_recv := cfg_receive_path cfg\<rparr>))"

definition dl_terminal :: "download_state \<Rightarrow> bool" where
  "dl_terminal st \<longleftrightarrow> dj_status (ds_job st) \<noteq> ''running''"

definition dl_ident :: "download_state \<Rightarrow> string" where "dl_ident st = dj_id (ds_job st)"

definition prune_downloads :: "(string, download_state) gomap \<Rightarrow> (string, download_state) gomap" where
  "prune_downloads m = prune_records max_history dl_terminal ds_started_at dl_ident m"

interpretation downloads_table: pruned_table prune_downloads dl_terminal dl_ident max_history
  unfolding prune_downloads_def by (rule pruned_table_records)

definition upd_dl_job :: "(download_job \<Rightarrow> download_job) \<Rightarrow> download_state \<Rightarrow> download_state" where
  "upd_dl_job f st = st\<lparr>ds_job := f (ds_job st)\<rparr>"

definition two_channels :: "'v \<Rightarrow> (string, 'v) gomap" where
  "two_channels v = [(''cable'', v), (''wifi'', v)]"

definition offline_channels :: "(string, channel_status) gomap" where
  "offline_channels = two_channels (zero_channel\<lparr>cst_state := ''offline''\<rparr>)"

definition download_manifest :: "string \<Rightarrow> gotime \<Rightarrow> string \<Rightarrow> probe \<Rightarrow> int64 \<Rightarrow> string \<Rightarrow> string \<Rightarrow> plan \<Rightarrow> manifest" where
  "download_manifest ident now url p chunkSize safeName finalPath pl =
     \<lparr>mf_schema_version = 1, mf_transfer_id = ident, mf_type = ''internet_download'', mf_file_name = safeName,
      mf_total_bytes = pr_total p, mf_chunk_size = chunkSize, mf_created_at = now, mf_updated_at = now,
      mf_source = \<lparr>src_type = ''http'', src_address = pr_etag p, src_url = url, src_identity = '''', src_abs_path = '''', src_mod_time = 0\<rparr>,
      mf_target = \<lparr>tgt_type = ''file'', tgt_address = pr_last_modified p, tgt_path = finalPath\<rparr>,
      mf_chunks = map pending_chunk (pl_chunks pl)\<rparr>"

definition new_download :: "gotime \<Rightarrow> config \<Rightarrow> string \<Rightarrow> string \<Rightarrow> manifest \<Rightarrow> string \<Rightarrow> string \<Rightarrow> download_state" where
  "new_download now cfg recvAbs mfPath mf finalPath url =
     (let n = int (length (mf_chunks mf)) in
      \<lparr>ds_job = \<lparr>dj_id = mf_transfer_id mf, dj_url = url, dj_status = ''running'', dj_message = '''', dj_output_path = finalPath,
         dj_manifest_path = mfPath, dj_bytes_done = 0, dj_total_bytes = mf_total_bytes mf, dj_percent = 0, dj_mbps_now = 0,
         dj_mbps_avg = 0, dj_chunks_total = n, dj_chunks_done = 0, dj_chunks_failed = 0, dj_chunks_pending = n,
         dj_chunks_sending = 0, dj_resume_supported = True,
         dj_pipeline_mode = normalize_download_pipeline_mode (cfg_download_pipeline_mode cfg), dj_in_flight = two_channels 0,
         dj_queue_depth = two_channels 0, dj_idle_gap_ms = two_channels 0, dj_channels = offline_channels, dj_failed_chunks = []\<rparr>,
       ds_mf = mf, ds_cancel = None, ds_started_at = now, ds_last_at = now, ds_last_bytes = 0, ds_samples = [],
       ds_channels = offline_channels, ds_ch_samples = two_channels [], ds_idle_gap_ms = two_channels 0, ds_root_dir = recvAbs\<rparr>)"

text \<open>
  \<open>prepare\<close>. The outer \<open>None\<close> is a \<open>BuildPlan\<close> that does not return. \<open>infos\<close> are the interfaces that the scan
  finds, \<open>outputs\<close> the output paths of the downloads in the table.
\<close>

definition entry_names :: "string \<Rightarrow> string list option io" where
  "entry_names dir = io_bind (io_try (fs_read_dir dir)) (\<lambda>r.
     io_return (case r of Inl _ \<Rightarrow> None | Inr es \<Rightarrow> Some (map fst es)))"

definition reserve_output :: "download_env \<Rightarrow> gotime \<Rightarrow> config \<Rightarrow> string list \<Rightarrow> string \<Rightarrow> string \<Rightarrow> probe \<Rightarrow> int64 \<Rightarrow> plan \<Rightarrow> start_request \<Rightarrow> download_state io" where
  "reserve_output env now cfg outputs ident url p chunkSize pl req =
     (let baseDir = join_path [cfg_receive_path cfg, ''Downloads''];
          outputDir = (if trim_space (sr_output_dir req) = '''' then baseDir else trim_space (sr_output_dir req));
          outRootAbs = abs_path (de_cwd env) outputDir;
          recvAbs = abs_path (de_cwd env) (cfg_receive_path cfg);
          safeName = sanitize_file_name (pr_file_name p) in
      if \<not> is_under (de_cwd env) outRootAbs recvAbs then io_fail ''output_dir must stay inside''
      else
        io_bind (entry_names outRootAbs) (\<lambda>entries.
        io_bind (io_lift (unique_output_path (de_cwd env) outputs entries outRootAbs safeName)) (\<lambda>finalPath.
        let sessionDir = session_dir_for ident finalPath;
            mf = download_manifest ident now url p chunkSize safeName finalPath pl;
            mfPath = join_path [sessionDir, ''manifest.json'']
        in io_bind (fs_mkdir_all sessionDir) (\<lambda>_.
           io_bind (save_manifest (de_marshal env) now mfPath mf) (\<lambda>_.
           io_return (new_download now cfg recvAbs mfPath (mf\<lparr>mf_updated_at := now\<rparr>) finalPath url))))))"

definition prepare_download ::
    "download_env \<Rightarrow> gotime \<Rightarrow> interface_info list \<Rightarrow> config \<Rightarrow> string list \<Rightarrow> string \<Rightarrow> start_request \<Rightarrow> world \<Rightarrow>
     (download_state result \<times> world) option" where
  "prepare_download env now infos cfg outputs ident req w =
     (if sr_chunk_size_mb req < 0 \<or> 1024 < sr_chunk_size_mb req
      then Some (Inl ''chunk_size_mb must be between 0 and 1024'', w)
      else let url = normalize_download_url env (sr_url req) in
      if url = '''' then Some (Inl ''url is required'', w)
      else case fs_mkdir_all (join_path [cfg_receive_path cfg, ''Downloads'']) w of
        (Inl e, w) \<Rightarrow> Some (Inl e, w)
      | (Inr _, w) \<Rightarrow>
          (case probe_download env url (sr_file_name req) of
             Inl e \<Rightarrow> Some (Inl e, w)
           | Inr p \<Rightarrow>
               if pr_total p \<le> 0 then Some (Inl ''server did not provide valid content-length'', w)
               else if \<not> pr_accept_ranges p then Some (Inl ''server does not support Accept-Ranges'', w)
               else
                 (let chunkSize = choose_chunk_size (pr_total p) (sr_chunk_size_mb req)
                        (initial_channel_count (is_loopback_url env url) infos)
                  in case build_plan (pr_total p) chunkSize of
                       None \<Rightarrow> None
                     | Some (Inl e) \<Rightarrow> Some (Inl e, w)
                     | Some (Inr pl) \<Rightarrow> Some (reserve_output env now cfg outputs ident url p chunkSize pl req w))))"

definition set_download :: "string \<Rightarrow> download_state \<Rightarrow> downloader \<Rightarrow> downloader" where
  "set_download ident st m = m\<lparr>dw_jobs := AList.update ident st (dw_jobs m)\<rparr>"

definition prune_dl :: "downloader \<Rightarrow> downloader" where
  "prune_dl m = m\<lparr>dw_jobs := prune_downloads (dw_jobs m)\<rparr>"

text \<open>\<open>Start\<close>: the result is the job and the context of its run.\<close>

definition start_download ::
    "download_env \<Rightarrow> gotime \<Rightarrow> config option \<Rightarrow> interface_info list \<Rightarrow> int64 \<Rightarrow> start_request \<Rightarrow> downloader \<Rightarrow>
     ((download_job \<times> nat) result \<times> downloader) option" where
  "start_download env now loaded infos nano req m =
     (let m = maybe_refresh_config now loaded m; ident = download_id nano in
      case prepare_download env now infos (dw_cfg m) (map (\<lambda>(_, st). dj_output_path (ds_job st)) (dw_jobs m)) ident req (dw_world m) of
        None \<Rightarrow> None
      | Some (Inl e, w) \<Rightarrow> Some (Inl e, m\<lparr>dw_world := w\<rparr>)
      | Some (Inr st, w) \<Rightarrow>
          (let ctx = dw_next_ctx m; st = st\<lparr>ds_cancel := Some ctx\<rparr>
           in Some (Inr (ds_job st, ctx), prune_dl (set_download ident st (m\<lparr>dw_world := w, dw_next_ctx := Suc ctx\<rparr>)))))"

definition resume_download :: "gotime \<Rightarrow> string \<Rightarrow> downloader \<Rightarrow> (download_job \<times> nat) result \<times> downloader" where
  "resume_download now ident m =
     (case map_of (dw_jobs m) ident of
        None \<Rightarrow> (Inl ''job not found'', m)
      | Some st \<Rightarrow>
          if dj_status (ds_job st) \<noteq> ''canceled'' \<and> dj_status (ds_job st) \<noteq> ''failed'' then (Inl ''job is not resumable'', m)
          else
            (let ctx = dw_next_ctx m;
                 st = upd_dl_job (\<lambda>j. j\<lparr>dj_status := ''running'', dj_message := ''''\<rparr>)
                        (st\<lparr>ds_cancel := Some ctx, ds_started_at := now, ds_last_at := now, ds_last_bytes := dj_bytes_done (ds_job st)\<rparr>)
             in (Inr (ds_job st, ctx), set_download ident st (m\<lparr>dw_next_ctx := Suc ctx\<rparr>))))"

definition cancel_run :: "nat option \<Rightarrow> downloader \<Rightarrow> downloader" where
  "cancel_run c m = (case c of None \<Rightarrow> m | Some k \<Rightarrow> m\<lparr>dw_canceled := k # dw_canceled m\<rparr>)"

text \<open>\<open>Cancel\<close> sets the status at once; the run ends later.\<close>

definition cancel_download :: "string \<Rightarrow> downloader \<Rightarrow> bool \<times> downloader" where
  "cancel_download ident m =
     (case map_of (dw_jobs m) ident of
        None \<Rightarrow> (False, m)
      | Some st \<Rightarrow>
          (let st' = (if dj_status (ds_job st) = ''running''
                      then upd_dl_job (\<lambda>j. j\<lparr>dj_status := ''canceled'', dj_message := ''canceled''\<rparr>) st else st)
           in (True, prune_dl (set_download ident st' (cancel_run (ds_cancel st) m)))))"

text \<open>
  The end of \<open>run\<close>: \<open>r\<close> is the state of its workers as theory DownloadRun has it after \<open>run_finish\<close>. The run holds a
  pointer to the state, so a download that has been forgotten in the meantime is not put back.
\<close>

definition end_download :: "gotime \<Rightarrow> string \<Rightarrow> dl_run \<Rightarrow> downloader \<Rightarrow> downloader" where
  "end_download now ident r m =
     (case map_of (dw_jobs m) ident of
        None \<Rightarrow> m
      | Some st \<Rightarrow>
          (let (st, w) = refresh_stats now (dr_done_bytes r)
                 (upd_dl_job (\<lambda>j. j\<lparr>dj_status := dr_status r, dj_message := dr_message r\<rparr>) (st\<lparr>ds_mf := dr_mf r\<rparr>)) (dr_world r)
           in prune_dl (set_download ident st (m\<lparr>dw_world := w\<rparr>))))"

text \<open>\<open>List\<close> and \<open>Get\<close>.\<close>

definition list_downloads :: "downloader \<Rightarrow> download_job list" where
  "list_downloads m = rev (sort_key dj_id (map (\<lambda>(_, st). ds_job st) (dw_jobs m)))"

definition get_download :: "string \<Rightarrow> downloader \<Rightarrow> download_job option" where
  "get_download ident m = map_option ds_job (map_of (dw_jobs m) ident)"

section \<open>Restoring\<close>

text \<open>The part of \<open>restoreState\<close> that looks at the manifest: the target and the place of the manifest.\<close>

definition check_download_manifest :: "download_env \<Rightarrow> string \<Rightarrow> string \<Rightarrow> manifest \<Rightarrow> string result" where
  "check_download_manifest env manifestPath receiveRoot mf =
     (let outputPath = abs_path (de_cwd env) (trim_space (tgt_path (mf_target mf)));
          manifestAbs = abs_path (de_cwd env) manifestPath in
      if mf_type mf \<noteq> ''internet_download'' \<or> \<not> valid_download_id (mf_transfer_id mf) \<or> mf_total_bytes mf \<le> 0 \<or> mf_chunks mf = []
      then Inl ''unsupported download manifest''
      else if (case de_parse_url env (trim_space (src_url (mf_source mf))) of
                 Inl _ \<Rightarrow> True
               | Inr u \<Rightarrow> pu_scheme u \<noteq> ''http'' \<and> pu_scheme u \<noteq> ''https'' \<or> trim_space (pu_host u) = '''')
      then Inl ''invalid download source''
      else if \<not> is_abs (trim_space (tgt_path (mf_target mf))) \<or> \<not> is_under (de_cwd env) outputPath receiveRoot
      then Inl ''download target outside receive root''
      else if \<not> is_under (de_cwd env) manifestAbs receiveRoot then Inl ''manifest outside receive root''
      else if \<not> equal_fold (clean manifestAbs) (clean (join_path [session_dir_for (mf_transfer_id mf) outputPath, ''manifest.json'']))
      then Inl ''manifest path does not match download target''
      else case check_p2p_chunks (mf_total_bytes mf) 0 0 (mf_chunks mf) of
             Inl e \<Rightarrow> Inl e
           | Inr offset \<Rightarrow> if offset \<noteq> mf_total_bytes mf then Inl ''chunk plan size mismatch'' else Inr outputPath)"

definition final_complete :: "string \<Rightarrow> manifest \<Rightarrow> bool io" where
  "final_complete outputPath mf =
     io_bind (io_try (fs_stat outputPath)) (\<lambda>r.
       io_return (case r of Inr (isFile, sz) \<Rightarrow> isFile \<and> sz = mf_total_bytes mf \<and> all_done mf | Inl _ \<Rightarrow> False))"

text \<open>A done chunk whose part file is missing or has the wrong size is pending again.\<close>

definition unfinish_chunk :: "chunk_state \<Rightarrow> chunk_state" where
  "unfinish_chunk c = c\<lparr>cs_status := StatusPending, cs_bytes_done := 0, cs_completed_at := None, cs_last_error := ''''\<rparr>"

fun repair_chunks :: "string \<Rightarrow> string \<Rightarrow> chunk_state list \<Rightarrow> world \<Rightarrow> chunk_state list \<times> bool \<times> world" where
  "repair_chunks ident out [] w = ([], False, w)"
| "repair_chunks ident out (c # cs) w =
     (if cs_status c \<noteq> StatusDone then
        (let (cs, repaired, w) = repair_chunks ident out cs w in (c # cs, repaired, w))
      else case fs_stat (part_path_for ident out (cs_index c)) w of
        (r, w) \<Rightarrow>
          (let ok = (case r of Inr (isFile, sz) \<Rightarrow> isFile \<and> sz = cs_size c | Inl _ \<Rightarrow> False);
               (cs, repaired, w) = repair_chunks ident out cs w
           in (if ok then c # cs else unfinish_chunk c # cs, \<not> ok \<or> repaired, w)))"

definition restored_status :: "bool \<Rightarrow> manifest \<Rightarrow> string \<times> string" where
  "restored_status finalComplete mf =
     (if finalComplete then (''done'', '''')
      else if list_ex (\<lambda>c. cs_status c = StatusFailed \<and> max_chunk_attempts \<le> cs_attempts c) (mf_chunks mf)
      then (''failed'', ''download incomplete; ready to retry'')
      else (''canceled'', ''interrupted by agent restart; ready to resume''))"

definition restored_download :: "download_env \<Rightarrow> gotime \<Rightarrow> config \<Rightarrow> string \<Rightarrow> string \<Rightarrow> string \<Rightarrow> bool \<Rightarrow> manifest \<Rightarrow> world \<Rightarrow> download_state \<times> world" where
  "restored_download env now cfg manifestAbs receiveRoot outputPath finalComplete mf w =
     (let (status, message) = restored_status finalComplete mf;
          startedAt = (if mf_created_at mf \<noteq> 0 then mf_created_at mf else if mf_updated_at mf \<noteq> 0 then mf_updated_at mf else now);
          st = new_download now cfg receiveRoot manifestAbs mf outputPath (src_url (mf_source mf));
          st = upd_dl_job (\<lambda>j. j\<lparr>dj_status := status, dj_message := message, dj_chunks_pending := 0,
                 dj_resume_supported := (status \<noteq> ''done'')\<rparr>) (st\<lparr>ds_started_at := startedAt\<rparr>);
          (st, w) = refresh_stats now (if finalComplete then mf_total_bytes mf else done_bytes mf) st w
      in (upd_dl_job (\<lambda>j. j\<lparr>dj_mbps_now := 0, dj_mbps_avg := 0\<rparr>) (st\<lparr>ds_samples := []\<rparr>), w))"

definition restore_download :: "download_env \<Rightarrow> gotime \<Rightarrow> config \<Rightarrow> string \<Rightarrow> string \<Rightarrow> download_state io" where
  "restore_download env now cfg manifestPath receiveRoot =
     io_bind (load_file (de_unmarshal env) manifestPath) (\<lambda>mf.
     io_bind (io_lift (check_download_manifest env manifestPath receiveRoot mf)) (\<lambda>outputPath.
     let manifestAbs = abs_path (de_cwd env) manifestPath in
     io_bind (final_complete outputPath mf) (\<lambda>finalComplete.
     io_bind (\<lambda>w. if finalComplete then (Inr (mf, False), w)
              else let (cs, repaired, w) = repair_chunks (mf_transfer_id mf) outputPath (mf_chunks mf) w
                   in (Inr (mf\<lparr>mf_chunks := cs\<rparr>, repaired), w)) (\<lambda>(mf, repaired).
     io_bind (if repaired then io_bind (save_manifest (de_marshal env) now manifestAbs mf) (\<lambda>_. io_return (mf\<lparr>mf_updated_at := now\<rparr>))
              else io_return mf) (\<lambda>mf.
     \<lambda>w. let (st, w) = restored_download env now cfg manifestAbs receiveRoot outputPath finalComplete mf w in (Inr st, w))))))"

text \<open>
  \<open>restoreHistory\<close>. The walk over the receive root visits at most \<open>maxHistoryScanEntries\<close> entries; \<open>scan\<close> is the list of
  entries in its order (an assumption of the model is only that it lies below the root), and
  \<open>mtime\<close> the modification time of an entry, or nothing when \<open>Info\<close> fails.
\<close>

definition history_candidates :: "(string \<Rightarrow> gotime option) \<Rightarrow> (string \<times> node) list \<Rightarrow> string list" where
  "history_candidates mtime scan =
     (let seen = take (nat max_history_scan_entries) scan;
          files = map fst (filter (\<lambda>(p, n). n \<noteq> Symlink \<and> n \<noteq> Dir \<and> equal_fold (base_name p) ''manifest.json'') seen);
          files = filter (\<lambda>p. mtime p \<noteq> None) files
      in sort_key (\<lambda>p. - the (mtime p)) files)"

fun restore_downloads :: "download_env \<Rightarrow> gotime \<Rightarrow> string \<Rightarrow> string list \<Rightarrow> downloader \<Rightarrow> downloader" where
  "restore_downloads env now receiveRoot [] m = m"
| "restore_downloads env now receiveRoot (p # ps) m =
     (if max_history \<le> length (dw_jobs m) then m
      else
        (let (res, w) = restore_download env now (dw_cfg m) p receiveRoot (dw_world m);
             m = m\<lparr>dw_world := w\<rparr>;
             m = (case res of
                    Inl _ \<Rightarrow> m
                  | Inr st \<Rightarrow> if map_of (dw_jobs m) (dl_ident st) = None then set_download (dl_ident st) st m else m)
         in restore_downloads env now receiveRoot ps m))"

definition restore_history :: "download_env \<Rightarrow> gotime \<Rightarrow> (string \<Rightarrow> gotime option) \<Rightarrow> (string \<times> node) list \<Rightarrow> downloader \<Rightarrow> downloader" where
  "restore_history env now mtime scan m =
     (let rootAbs = abs_path (de_cwd env) (dw_root_recv m) in
      if trim_space rootAbs = '''' then m
      else restore_downloads env now rootAbs (history_candidates mtime scan) m)"

definition new_downloader :: "download_env \<Rightarrow> gotime \<Rightarrow> (string \<Rightarrow> gotime option) \<Rightarrow> (string \<times> node) list \<Rightarrow> config \<Rightarrow> world \<Rightarrow> downloader" where
  "new_downloader env now mtime scan cfg w =
     restore_history env now mtime scan
       \<lparr>dw_jobs = [], dw_base_dir = join_path [cfg_receive_path cfg, ''Downloads''], dw_cfg = cfg,
        dw_root_recv = cfg_receive_path cfg, dw_last_reload = now, dw_canceled = [], dw_next_ctx = 0, dw_world = w\<rparr>"

section \<open>Cleaning up and forgetting\<close>

record cleanup_preview =
  cpv_chunk_files :: int
  cpv_chunk_bytes :: int64
  cpv_manifest_path :: string
  cpv_final_file :: string
  cpv_actions :: "string list"

record cleanup_request =
  crq_delete_chunks :: "bool option"
  crq_delete_manifest :: "bool option"
  crq_delete_empty_dir :: "bool option"

record cleanup_result =
  crs_deleted_chunks :: int
  crs_freed_bytes :: int64
  crs_manifest_deleted :: bool
  crs_dir_deleted :: bool
  crs_remaining_chunks :: int
  crs_warnings :: "string list"

definition zero_result :: cleanup_result where
  "zero_result = \<lparr>crs_deleted_chunks = 0, crs_freed_bytes = 0, crs_manifest_deleted = False, crs_dir_deleted = False,
     crs_remaining_chunks = 0, crs_warnings = []\<rparr>"

definition part_pattern :: "string \<Rightarrow> string" where
  "part_pattern dir = join_path [dir, ''chunk*.part'']"

definition stat_size :: "string \<Rightarrow> world \<Rightarrow> int64 option \<times> world" where
  "stat_size p w = (case fs_stat p w of (Inl _, w) \<Rightarrow> (None, w) | (Inr (_, sz), w) \<Rightarrow> (Some sz, w))"

definition lstat_size :: "string \<Rightarrow> world \<Rightarrow> int64 option \<times> world" where
  "lstat_size p w =
     (case fs_lstat p w of
        (Inr (Some (File b)), w) \<Rightarrow> (Some (int (length b)), w)
      | (Inr (Some _), w) \<Rightarrow> (Some 0, w)
      | (_, w) \<Rightarrow> (None, w))"

fun sum_sizes :: "string list \<Rightarrow> world \<Rightarrow> int64 \<times> world" where
  "sum_sizes [] w = (0, w)"
| "sum_sizes (f # fs) w =
     (let (sz, w) = stat_size f w; (n, w) = sum_sizes fs w in (i64 ((case sz of None \<Rightarrow> 0 | Some k \<Rightarrow> k) + n), w))"

text \<open>\<open>PreviewCleanup\<close>: the refusal, or what a cleanup would do.\<close>

definition preview_cleanup :: "download_env \<Rightarrow> string \<Rightarrow> downloader \<Rightarrow> cleanup_preview result \<times> downloader" where
  "preview_cleanup env ident m =
     (case map_of (dw_jobs m) ident of None \<Rightarrow> (Inl ''job not found'', m) | Some st \<Rightarrow>
      let j = ds_job st in
      if dj_status j \<noteq> ''done'' then (Inl ''download not completed'', m)
      else case fs_stat (dj_output_path j) (dw_world m) of
        (Inl _, w) \<Rightarrow> (Inl ''final file missing'', m\<lparr>dw_world := w\<rparr>)
      | (Inr (_, sz), w) \<Rightarrow>
        (let m = m\<lparr>dw_world := w\<rparr>;
             rt = (if trim_space (ds_root_dir st) = '''' then dw_base_dir m else ds_root_dir st);
             rootAbs = abs_path (de_cwd env) rt;
             sessAbs = abs_path (de_cwd env) (session_dir_for (dj_id j) (dj_output_path j)) in
         if sz \<noteq> dj_total_bytes j then (Inl ''final size mismatch'', m)
         else if dj_chunks_done j \<noteq> dj_chunks_total j \<or> dj_chunks_failed j \<noteq> 0 \<or> dj_chunks_pending j \<noteq> 0 \<or> dj_chunks_sending j \<noteq> 0
         then (Inl ''chunk counters not safe for cleanup'', m)
         else if \<not> is_under (de_cwd env) sessAbs rootAbs then (Inl ''cleanup path outside allowed download root'', m)
         else if \<not> is_under (de_cwd env) (abs_path (de_cwd env) (dj_manifest_path j)) sessAbs
         then (Inl ''manifest path outside session directory'', m)
         else case fs_glob (part_pattern sessAbs) w of
           (Inl e, w) \<Rightarrow> (Inl e, m\<lparr>dw_world := w\<rparr>)
         | (Inr files, w) \<Rightarrow>
             (let (n, w) = sum_sizes files w
              in (Inr \<lparr>cpv_chunk_files = int (length files), cpv_chunk_bytes = n, cpv_manifest_path = dj_manifest_path j,
                    cpv_final_file = dj_output_path j,
                    cpv_actions = [''delete_chunks'', if cfg_keep_manifests (dw_cfg m) then ''keep_manifest'' else ''delete_manifest'']\<rparr>,
                  m\<lparr>dw_world := w\<rparr>))))"

fun remove_parts :: "(string \<Rightarrow> world \<Rightarrow> int64 option \<times> world) \<Rightarrow> string list \<Rightarrow> cleanup_result \<Rightarrow> world \<Rightarrow> cleanup_result \<times> world" where
  "remove_parts size_of [] res w = (res, w)"
| "remove_parts size_of (f # fs) res w =
     (let (sz, w) = size_of f w in
      case fs_remove f w of
        (Inl e, w) \<Rightarrow> remove_parts size_of fs (res\<lparr>crs_warnings := crs_warnings res @ [''could not remove '' @ base_name f @ '': '' @ e]\<rparr>) w
      | (Inr _, w) \<Rightarrow> remove_parts size_of fs (res\<lparr>crs_deleted_chunks := crs_deleted_chunks res + 1,
          crs_freed_bytes := (case sz of None \<Rightarrow> crs_freed_bytes res | Some n \<Rightarrow> i64 (crs_freed_bytes res + n))\<rparr>) w)"

definition glob_or_none :: "string \<Rightarrow> world \<Rightarrow> string list \<times> world" where
  "glob_or_none pattern w = (case fs_glob pattern w of (Inl _, w) \<Rightarrow> ([], w) | (Inr fs, w) \<Rightarrow> (fs, w))"

text \<open>An error counts as removed when the file was not there.\<close>

definition try_remove :: "string \<Rightarrow> world \<Rightarrow> unit result \<times> world" where
  "try_remove p w =
     (case fs_remove p w of (Inl e, w) \<Rightarrow> (if e = ''not exist'' then Inr () else Inl e, w) | (Inr _, w) \<Rightarrow> (Inr (), w))"

definition remove_empty_dir :: "string \<Rightarrow> cleanup_result \<Rightarrow> world \<Rightarrow> cleanup_result \<times> world" where
  "remove_empty_dir dir res w =
     (case fs_read_dir dir w of
        (Inr [], w) \<Rightarrow> (case fs_remove dir w of (Inl _, w) \<Rightarrow> (res, w) | (Inr _, w) \<Rightarrow> (res\<lparr>crs_dir_deleted := True\<rparr>, w))
      | (_, w) \<Rightarrow> (res, w))"

definition cleanup_files :: "bool \<Rightarrow> bool \<Rightarrow> bool \<Rightarrow> string \<Rightarrow> world \<Rightarrow> cleanup_result \<times> world" where
  "cleanup_files deleteChunks deleteManifest deleteEmptyDir manifestPath w =
     (let sessionDir = dir_name manifestPath;
          (res, w) = (if deleteChunks then (let (fs, w) = glob_or_none (part_pattern sessionDir) w in remove_parts stat_size fs zero_result w)
                      else (zero_result, w));
          (res, w) = (if deleteManifest \<and> trim_space manifestPath \<noteq> '''' then
                        (case try_remove manifestPath w of
                           (Inr _, w) \<Rightarrow> (res\<lparr>crs_manifest_deleted := True\<rparr>, w)
                         | (Inl e, w) \<Rightarrow> (res\<lparr>crs_warnings := crs_warnings res @ [''could not remove manifest: '' @ e]\<rparr>, w))
                      else (res, w));
          (remaining, w) = glob_or_none (part_pattern sessionDir) w;
          res = res\<lparr>crs_remaining_chunks := int (length remaining)\<rparr>
      in if deleteEmptyDir then remove_empty_dir sessionDir res w else (res, w))"

definition cleanup_download :: "download_env \<Rightarrow> string \<Rightarrow> cleanup_request \<Rightarrow> downloader \<Rightarrow> cleanup_result result \<times> downloader" where
  "cleanup_download env ident req m =
     (case preview_cleanup env ident m of
        (Inl e, m) \<Rightarrow> (Inl e, m)
      | (Inr p, m) \<Rightarrow>
          (let cfg = dw_cfg m; pick = (\<lambda>o' d. case o' of None \<Rightarrow> d | Some b \<Rightarrow> b);
               (res, w) = cleanup_files (pick (crq_delete_chunks req) (cfg_cleanup_completed_chunks cfg))
                 (pick (crq_delete_manifest req) (\<not> cfg_keep_manifests cfg))
                 (pick (crq_delete_empty_dir req) (cfg_cleanup_empty_download_dirs cfg)) (cpv_manifest_path p) (dw_world m)
           in (Inr res, m\<lparr>dw_world := w\<rparr>)))"

definition forget_files :: "string \<Rightarrow> string \<Rightarrow> world \<Rightarrow> cleanup_result result \<times> world" where
  "forget_files sessionAbs manifestAbs w =
     (case fs_glob (part_pattern sessionAbs) w of
        (Inl e, w) \<Rightarrow> (Inl e, w)
      | (Inr files, w) \<Rightarrow>
          (let (res, w) = remove_parts lstat_size files zero_result w in
           case try_remove manifestAbs w of
             (Inl e, w) \<Rightarrow> (Inl (''could not remove manifest: '' @ e), w)
           | (Inr _, w) \<Rightarrow>
               (let (remaining, w) = glob_or_none (part_pattern sessionAbs) w;
                    (res, w) = remove_empty_dir sessionAbs
                      (res\<lparr>crs_manifest_deleted := True, crs_remaining_chunks := int (length remaining)\<rparr>) w
                in (Inr res, w))))"

definition forget_download :: "download_env \<Rightarrow> string \<Rightarrow> downloader \<Rightarrow> cleanup_result result \<times> downloader" where
  "forget_download env ident m =
     (case map_of (dw_jobs m) ident of None \<Rightarrow> (Inl ''job not found'', m) | Some st \<Rightarrow>
      if dj_status (ds_job st) = ''running'' then (Inl ''active download cannot be removed'', m)
      else
        (let rt = (if trim_space (ds_root_dir st) = '''' then dw_root_recv m else ds_root_dir st);
             rt = (if trim_space rt = '''' then dw_base_dir m else rt);
             rootAbs = abs_path (de_cwd env) rt;
             outputAbs = abs_path (de_cwd env) (dj_output_path (ds_job st));
             sessionAbs = abs_path (de_cwd env) (session_dir_for ident outputAbs);
             manifestAbs = abs_path (de_cwd env) (dj_manifest_path (ds_job st)) in
         if \<not> is_under (de_cwd env) outputAbs rootAbs then (Inl ''download output outside allowed root'', m)
         else if \<not> is_under (de_cwd env) sessionAbs rootAbs then (Inl ''download session outside allowed root'', m)
         else if \<not> equal_fold (clean manifestAbs) (clean (join_path [sessionAbs, ''manifest.json'']))
         then (Inl ''manifest path does not match download session'', m)
         else case forget_files sessionAbs manifestAbs (dw_world m) of
           (Inl e, w) \<Rightarrow> (Inl e, m\<lparr>dw_world := w\<rparr>)
         | (Inr res, w) \<Rightarrow> (Inr res, m\<lparr>dw_world := w, dw_jobs := AList.delete ident (dw_jobs m)\<rparr>)))"

end
