(* ===== verification/DownloadChecks.thy ===== *)
theory DownloadChecks
  imports Downloads ChildPath HistoryChecks DownloadRace ReceiverDemo
begin

text \<open>
  What the table of downloads promises: what a restart accepts of a manifest on disk and how it repairs it, what
  forgetting a download may remove, and the runs that cancelling and resuming leave behind.
\<close>

section \<open>The session directory of a download\<close>

lemma valid_id_digits:
  assumes "valid_download_id j"
  shows "\<exists>d. j = ''dl-'' @ d \<and> d \<noteq> '''' \<and> list_all is_digit d"
proof -
  have "prefix ''dl-'' j" using assms by (auto simp: valid_download_id_def trim_prefix_def split: if_splits)
  then obtain d where "j = ''dl-'' @ d" unfolding prefix_def by blast
  then show ?thesis using assms by (auto simp: valid_download_id_def trim_prefix_def split: if_splits)
qed

lemma session_name_plain:
  assumes "valid_download_id j" "list_all (\<lambda>c. \<not> is_sep c) n"
  shows "plain (n @ ''.download.'' @ j)"
proof -
  obtain d where d: "j = ''dl-'' @ d" "d \<noteq> ''''" "list_all is_digit d" using valid_id_digits [OF assms(1)] by blast
  have "list_all (\<lambda>c. \<not> is_sep c) d" using d(3) digit_not_sep by (auto simp: list_all_iff)
  moreover have "list_all (\<lambda>c. \<not> is_sep c) ''.download.dl-''" by code_simp
  moreover have "is_digit (last (n @ ''.download.'' @ j))" using d by (auto simp: list_all_iff)
  ultimately show ?thesis using assms(2) d(1) by (auto simp: plain_def is_digit_def split: if_splits)
qed

lemma download_dir_child:
  assumes "valid_download_id j" "resolved out"
  shows "\<exists>e. child_of (session_dir_for j out) e" "session_dir_for j out \<noteq> out"
proof -
  obtain v cs where c: "drive v" "list_all plain cs" "out = abs_of v cs" using assms(2) unfolding resolved_def by blast
  obtain d where d: "j = ''dl-'' @ d" using valid_id_digits [OF assms(1)] by blast
  have "trim_left_by is_space j = j" using d by (simp add: trim_left_by_def is_space_def)
  then have t: "trim_space j \<noteq> ''''" using d
    by (auto simp: trim_space_def trim_by_def trim_right_by_def is_space_def dropWhile_append)
  then have s: "session_dir_for j out = out @ ''.download.'' @ j" by (simp add: session_dir_for_def)
  then show "session_dir_for j out \<noteq> out" by simp
  show "\<exists>e. child_of (session_dir_for j out) e"
  proof (cases cs rule: rev_cases)
    case Nil
    have "plain (''.download.'' @ j)" using session_name_plain [OF assms(1), of "''''"] by simp
    moreover have "session_dir_for j out = abs_of v ([] @ [''.download.'' @ j])" using s c(3) Nil by (simp add: abs_of_def)
    ultimately show ?thesis using c(1) unfolding child_of_def
      by (intro exI [of _ "abs_of v []"] exI [of _ v] exI [of _ "[]"] exI [of _ "''.download.'' @ j"]) simp
  next
    case (snoc ds n)
    then have n: "plain n" "list_all plain ds" using c(2) by auto
    then have "plain (n @ ''.download.'' @ j)" using session_name_plain [OF assms(1), of n] by (simp add: plain_def)
    moreover have "session_dir_for j out = abs_of v (ds @ [n @ ''.download.'' @ j])"
      unfolding s unfolding c(3) snoc by (simp only: abs_of_def join_with_snoc) simp
    ultimately show ?thesis using c(1) n(2) unfolding child_of_def by blast
  qed
qed


lemma session_dir_resolved: "valid_download_id j \<Longrightarrow> resolved out \<Longrightarrow> resolved (session_dir_for j out)"
  using download_dir_child(1) child_resolved by blast

lemma part_path_child:
  "valid_download_id j \<Longrightarrow> resolved out \<Longrightarrow> child_of (part_path_for j out i) (session_dir_for j out)"
  unfolding part_path_for_def using download_dir_child(1) plain_child part_name_plain by blast

text \<open>A manifest that passes the check for its session is no part file, nor is its temporary file or its directory.\<close>

lemma last_to_lower: "s \<noteq> [] \<Longrightarrow> last (to_lower s) = lower_char (last s)"
  by (simp add: to_lower_def last_map)

lemma manifest_apart:
  assumes "valid_download_id j" "resolved out"
    and "equal_fold (clean m) (clean (join_path [session_dir_for j out, ''manifest.json'']))" "resolved m"
  shows "last m \<noteq> CHR ''t''" "m \<noteq> ''''" "\<exists>e. child_of m e" "child_of q (session_dir_for j out) \<Longrightarrow> q \<noteq> dir_name m"
proof -
  obtain e where e: "child_of (session_dir_for j out) e" using download_dir_child(1) [OF assms(1,2)] by blast
  let ?x = "join_path [session_dir_for j out, ''manifest.json'']"
  have x: "child_of ?x (session_dir_for j out)" by (rule plain_child [OF e plain_names(1)])
  have fold: "to_lower m = to_lower ?x"
    using assms(3) unfolding equal_fold_def clean_resolved [OF assms(4)] clean_resolved [OF child_resolved [OF x]] .
  obtain v cs where m: "drive v" "list_all plain cs" "m = abs_of v cs" using assms(4) unfolding resolved_def by blast
  then show ne: "m \<noteq> ''''" by (simp add: abs_of_def)
  have "?x \<noteq> ''''" using fold ne by (auto simp: to_lower_def)
  then have "lower_char (last m) = lower_char (last ?x)"
    using fold last_to_lower [OF ne] last_to_lower [of ?x] by simp
  moreover have "last ?x = CHR ''n''" using last_child [OF e plain_names(1)] by simp
  ultimately have l: "lower_char (last m) = CHR ''n''" by (simp add: lower_char_def)
  then show "last m \<noteq> CHR ''t''" by (auto simp: lower_char_def)
  show ch: "\<exists>e. child_of m e"
  proof (cases cs rule: rev_cases)
    case Nil
    then have "last m = bs" using m by (simp add: abs_of_def)
    then show ?thesis using l by (simp add: bs_def lower_char_def)
  next
    case (snoc ds n)
    then show ?thesis using m unfolding child_of_def by auto
  qed
  show "q \<noteq> dir_name m" if q: "child_of q (session_dir_for j out)"
  proof
    assume d: "q = dir_name m"
    obtain e' where "child_of m e'" using ch by blast
    then have "child_of m q" using child_dir d by simp
    then obtain k where "m = q @ bs # k" using child_append [OF q] by blast
    moreover obtain n where "q = session_dir_for j out @ bs # n" using child_append [OF e q] by blast
    moreover have "?x = session_dir_for j out @ bs # ''manifest.json''"
      using join_child [OF e plain_names(1)] .
    ultimately have "to_lower n @ bs # to_lower k = to_lower ''manifest.json''"
      using fold by (simp add: to_lower_def)
    then have "bs \<in> set (to_lower ''manifest.json'')" by (metis in_set_conv_decomp)
    moreover have "bs \<notin> set (to_lower ''manifest.json'')" by code_simp
    ultimately show False by blast
  qed
qed


section \<open>Restoring a download\<close>

definition file_of_size :: "world \<Rightarrow> string \<Rightarrow> int \<Rightarrow> bool" where
  "file_of_size w p n \<longleftrightarrow> (case node_at w p of Some (File b) \<Rightarrow> int (length b) = n | _ \<Rightarrow> False)"

definition part_there :: "world \<Rightarrow> string \<Rightarrow> string \<Rightarrow> chunk_state \<Rightarrow> bool" where
  "part_there w j out c \<longleftrightarrow> cs_status c \<noteq> StatusDone \<or> file_of_size w (part_path_for j out (cs_index c)) (cs_size c)"

lemma fs_stat_nodes: "fs_stat p w = (r, w') \<Longrightarrow> node_at w' q = node_at w q"
  using touchesD [OF touches_more(1)] by blast

lemma fs_stat_file: "fs_stat p w = (Inr (True, n), w') \<Longrightarrow> file_of_size w p n"
  by (auto simp: fs_stat_def file_of_size_def split: if_splits option.splits node.splits)

lemma repair_chunks_spec:
  assumes "repair_chunks j out cs w = (cs', rep, w')"
  shows "(\<forall>q. node_at w' q = node_at w q) \<and> map cs_geom cs' = map cs_geom cs \<and> list_all (part_there w j out) cs'"
  using assms
proof (induction cs arbitrary: cs' rep w w')
  case (Cons c cs)
  obtain r w1 where st: "fs_stat (part_path_for j out (cs_index c)) w = (r, w1)" by force
  have n1: "node_at w1 q = node_at w q" for q using fs_stat_nodes [OF st] .
  have fs: "file_of_size w1 q n = file_of_size w q n" for q n by (simp add: file_of_size_def n1)
  have pt: "part_there w1 j out = part_there w j out" by (simp add: fun_eq_iff part_there_def fs)
  obtain ds rep' w2 where ds: "repair_chunks j out cs (if cs_status c = StatusDone then w1 else w) = (ds, rep', w2)"
    by (cases "repair_chunks j out cs (if cs_status c = StatusDone then w1 else w)") auto
  show ?case
  proof (cases "cs_status c = StatusDone")
    case False
    then have "cs' = c # ds" "w' = w2" using Cons.prems ds by simp_all
    then show ?thesis using Cons.IH [OF ds] False by (simp add: part_there_def)
  next
    case True
    have "part_there w j out (unfinish_chunk c)" by (simp add: part_there_def unfinish_chunk_def StatusPending_def StatusDone_def)
    moreover have "part_there w j out c" if "r = Inr (True, cs_size c)"
      using fs_stat_file [OF st [unfolded that]] by (simp add: part_there_def)
    moreover have "cs_geom (unfinish_chunk c) = cs_geom c" by (simp add: unfinish_chunk_def cs_geom_def)
    ultimately show ?thesis using Cons.prems Cons.IH [OF ds] ds True n1 pt st
      by (auto simp: Let_def split: sum.splits if_splits prod.splits)
  qed
qed simp

text \<open>The statistics read the file system and change neither the manifest nor the identity of the job.\<close>

lemma part_progress_nodes: "node_at (snd (part_progress j out c w)) q = node_at w q"
  using fs_stat_nodes [of "part_path_for j out (cs_index c)" w]
  by (auto simp: part_progress_def split: prod.splits sum.splits)

lemma sending_progress_nodes: "node_at (snd (sending_progress j out cs n w)) q = node_at w q"
proof (induction cs arbitrary: n w)
  case (Cons c cs)
  then show ?case using part_progress_nodes [of j out c w q] by (auto split: prod.splits option.splits)
qed simp

lemma channel_progress_nodes: "node_at (snd (channel_progress_loop j out cs m w)) q = node_at w q"
proof (induction cs arbitrary: m w)
  case (Cons c cs)
  then show ?case using part_progress_nodes [of j out c w q] by (auto simp: Let_def split: prod.splits option.splits)
qed simp

definition same_download :: "download_state \<Rightarrow> download_state \<Rightarrow> bool" where
  "same_download st st' \<longleftrightarrow> ds_mf st' = ds_mf st \<and> ds_root_dir st' = ds_root_dir st \<and> ds_cancel st' = ds_cancel st
     \<and> dj_id (ds_job st') = dj_id (ds_job st) \<and> dj_status (ds_job st') = dj_status (ds_job st)
     \<and> dj_output_path (ds_job st') = dj_output_path (ds_job st) \<and> dj_manifest_path (ds_job st') = dj_manifest_path (ds_job st)
     \<and> dj_total_bytes (ds_job st') = dj_total_bytes (ds_job st)"

lemma refresh_stats_frame:
  assumes "refresh_stats now n st w = (st', w')"
  shows "same_download st st' \<and> node_at w' q = node_at w q"
proof -
  obtain k w1 where e: "estimate_progress st w = (k, w1)" by force
  have n1: "node_at w1 q = node_at w q"
    using sending_progress_nodes [of "dj_id (ds_job st)" "dj_output_path (ds_job st)" "mf_chunks (ds_mf st)" "done_bytes (ds_mf st)" w q] e
    by (auto simp: estimate_progress_def Let_def split: prod.splits)
  have r: "same_download s (fst (refresh_channel_rates now s w1)) \<and> node_at (snd (refresh_channel_rates now s w1)) q = node_at w1 q" for s
    using channel_progress_nodes [of "dj_id (ds_job s)" "dj_output_path (ds_job s)" "mf_chunks (ds_mf s)" "[(''cable'', 0), (''wifi'', 0)]" w1 q]
    by (auto simp: refresh_channel_rates_def channel_progress_bytes_def Let_def same_download_def show_channels_def
        put_channel_def add_channel_sample_def split: prod.splits option.splits)
  have "\<exists>s s2. refresh_channel_rates now s w1 = (s2, w') \<and> same_download st s
      \<and> st' = s2\<lparr>ds_last_at := now, ds_last_bytes := dj_bytes_done (ds_job s2)\<rparr>"
    using assms e by (simp add: refresh_stats_def Let_def split: prod.split_asm)
      (intro exI conjI, assumption, simp add: same_download_def count_chunks_def, simp)
  then obtain s s2 where s: "refresh_channel_rates now s w1 = (s2, w')" "same_download st s"
    "st' = s2\<lparr>ds_last_at := now, ds_last_bytes := dj_bytes_done (ds_job s2)\<rparr>" by blast
  then show ?thesis using r [of s] n1 by (auto simp: same_download_def)
qed


lemma restored_download_frame:
  assumes "restored_download env now cfg mp rt out fin mf w = (st, w')"
  shows "ds_mf st = mf \<and> dj_id (ds_job st) = mf_transfer_id mf \<and> dj_status (ds_job st) = fst (restored_status fin mf)
    \<and> dj_output_path (ds_job st) = out \<and> dj_manifest_path (ds_job st) = mp \<and> dj_total_bytes (ds_job st) = mf_total_bytes mf
    \<and> ds_root_dir st = rt \<and> node_at w' q = node_at w q"
proof -
  obtain status message where s: "restored_status fin mf = (status, message)" by force
  have "\<exists>n s s2. refresh_stats now n s w = (s2, w') \<and> ds_mf s = mf \<and> dj_id (ds_job s) = mf_transfer_id mf
      \<and> dj_status (ds_job s) = status \<and> dj_output_path (ds_job s) = out \<and> dj_manifest_path (ds_job s) = mp
      \<and> dj_total_bytes (ds_job s) = mf_total_bytes mf \<and> ds_root_dir s = rt
      \<and> st = upd_dl_job (\<lambda>j. j\<lparr>dj_mbps_now := 0, dj_mbps_avg := 0\<rparr>) (s2\<lparr>ds_samples := []\<rparr>)"
    using assms unfolding restored_download_def s Let_def prod.case
    by (auto split: prod.split_asm)
      (intro exI conjI, assumption, simp_all add: upd_dl_job_def new_download_def Let_def)
  then obtain n s s2 where "refresh_stats now n s w = (s2, w')" and f: "ds_mf s = mf" "dj_id (ds_job s) = mf_transfer_id mf"
      "dj_status (ds_job s) = status" "dj_output_path (ds_job s) = out" "dj_manifest_path (ds_job s) = mp"
      "dj_total_bytes (ds_job s) = mf_total_bytes mf" "ds_root_dir s = rt"
      "st = upd_dl_job (\<lambda>j. j\<lparr>dj_mbps_now := 0, dj_mbps_avg := 0\<rparr>) (s2\<lparr>ds_samples := []\<rparr>)" by blast
  from refresh_stats_frame [OF this(1), of q] f show ?thesis by (simp add: same_download_def upd_dl_job_def s)
qed


text \<open>What the check of the manifest accepts.\<close>

lemma check_download_manifest_Inr:
  assumes "check_download_manifest env p rt mf = Inr out"
  shows "valid_download_id (mf_transfer_id mf)" "resolved out" "is_under (de_cwd env) out rt"
    "equal_fold (clean (abs_path (de_cwd env) p)) (clean (join_path [session_dir_for (mf_transfer_id mf) out, ''manifest.json'']))"
    "tiling 0 0 (mf_total_bytes mf) (map cs_geom (mf_chunks mf))" "0 < mf_total_bytes mf"
proof -
  let ?t = "trim_space (tgt_path (mf_target mf))"
  have c: "out = abs_path (de_cwd env) ?t" "valid_download_id (mf_transfer_id mf)" "0 < mf_total_bytes mf" "is_abs ?t"
    "is_under (de_cwd env) (abs_path (de_cwd env) ?t) rt"
    "equal_fold (clean (abs_path (de_cwd env) p)) (clean (join_path [session_dir_for (mf_transfer_id mf) (abs_path (de_cwd env) ?t), ''manifest.json'']))"
    "check_p2p_chunks (mf_total_bytes mf) 0 0 (mf_chunks mf) = Inr (mf_total_bytes mf)"
    using assms unfolding check_download_manifest_def Let_def by (auto split: if_splits sum.splits)
  then show "valid_download_id (mf_transfer_id mf)" "is_under (de_cwd env) out rt" "0 < mf_total_bytes mf"
    "equal_fold (clean (abs_path (de_cwd env) p)) (clean (join_path [session_dir_for (mf_transfer_id mf) out, ''manifest.json'']))"
    by simp_all
  show "resolved out" unfolding c(1) by (rule resolved_abs_path [OF c(4)])
  show "tiling 0 0 (mf_total_bytes mf) (map cs_geom (mf_chunks mf))"
    using check_p2p_chunks_iff [of 0 "mf_total_bytes mf" 0 "mf_chunks mf"] c(3,7) by simp
qed

lemma final_complete_Inr:
  assumes "final_complete out mf w = (Inr fin, w')"
  shows "(\<forall>q. node_at w' q = node_at w q) \<and> (fin \<longrightarrow> all_done mf \<and> file_of_size w out (mf_total_bytes mf))"
proof -
  obtain r w1 where s: "fs_stat out w = (r, w1)" by force
  then show ?thesis using assms fs_stat_nodes [OF s] fs_stat_file [of out w "mf_total_bytes mf" w1]
    by (auto simp: final_complete_def io_bind_def io_try_def io_return_def split: sum.splits)
qed

lemma part_last: "last (part_path_for j out i) = CHR ''t''"
  using part_path_suffix [of j out i] by auto

text \<open>The stages of a successful \<open>restoreState\<close>.\<close>

definition repaired_manifest :: "string \<Rightarrow> bool \<Rightarrow> manifest \<Rightarrow> (manifest \<times> bool) io" where
  "repaired_manifest out fin mf w =
     (if fin then (Inr (mf, False), w) else case repair_chunks (mf_transfer_id mf) out (mf_chunks mf) w of (cs, repaired, w) \<Rightarrow>
        (Inr (mf\<lparr>mf_chunks := cs\<rparr>, repaired), w))"

definition saved_if :: "download_env \<Rightarrow> gotime \<Rightarrow> string \<Rightarrow> bool \<Rightarrow> manifest \<Rightarrow> manifest io" where
  "saved_if env now path rep mf =
     (if rep then io_bind (save_manifest (de_marshal env) now path mf) (\<lambda>_. io_return (mf\<lparr>mf_updated_at := now\<rparr>)) else io_return mf)"

lemma restore_download_stages:
  assumes "restore_download env now cfg p rt w = (Inr st, w')"
  obtains mf out w1 fin w2 mf2 rep w3 mf3 w4 where "check_download_manifest env p rt mf = Inr out"
    "final_complete out mf w1 = (Inr fin, w2)" "repaired_manifest out fin mf w2 = (Inr (mf2, rep), w3)"
    "saved_if env now (abs_path (de_cwd env) p) rep mf2 w3 = (Inr mf3, w4)"
    "restored_download env now cfg (abs_path (de_cwd env) p) rt out fin mf3 w4 = (st, w')"
proof -
  have e: "(case x of (a, b) \<Rightarrow> (Inr a, b)) = (Inr st, w') \<longleftrightarrow> x = (st, w')" for x :: "download_state \<times> world"
    by (cases x) auto
  from assms show thesis
    unfolding restore_download_def Let_def io_bind_Inr io_lift_def e split_paired_Ex prod.case prod.inject
      repaired_manifest_def [symmetric] saved_if_def [symmetric]
    by (elim exE conjE) (rule that, assumption+)
qed

lemma repaired_manifest_spec:
  assumes "repaired_manifest out fin mf w = (Inr (mf2, rep), w')"
  shows "mf_transfer_id mf2 = mf_transfer_id mf \<and> mf_total_bytes mf2 = mf_total_bytes mf
    \<and> map cs_geom (mf_chunks mf2) = map cs_geom (mf_chunks mf) \<and> (\<forall>q. node_at w' q = node_at w q)
    \<and> (if fin then mf2 = mf \<and> \<not> rep else list_all (part_there w (mf_transfer_id mf) out) (mf_chunks mf2))"
  using assms repair_chunks_spec [of "mf_transfer_id mf" out "mf_chunks mf" w]
  by (auto simp: repaired_manifest_def split: if_splits prod.splits)

lemma saved_if_spec:
  assumes "saved_if env now m rep mf w = (Inr mf', w')" "valid_download_id j" "resolved out" "resolved m"
    and "equal_fold (clean m) (clean (join_path [session_dir_for j out, ''manifest.json'']))"
  shows "mf_transfer_id mf' = mf_transfer_id mf \<and> mf_total_bytes mf' = mf_total_bytes mf \<and> mf_chunks mf' = mf_chunks mf
    \<and> node_at w' (part_path_for j out i) = node_at w (part_path_for j out i) \<and> (\<not> rep \<longrightarrow> mf' = mf \<and> w' = w)"
proof (cases rep)
  case True
  let ?q = "part_path_for j out i"
  note a = manifest_apart [OF assms(2,3,5,4)]
  obtain e where e: "child_of m e" using a(3) by blast
  have "dir_name m \<noteq> m" using child_neq [OF e] child_dir [OF e] by metis
  moreover obtain x where "save_manifest (de_marshal env) now m mf w = (x, w')"
    and mf': "mf' = mf\<lparr>mf_updated_at := now\<rparr>"
    using assms(1) True by (auto simp: saved_if_def io_bind_Inr io_return_def)
  ultimately have "same_but {m, m @ ''.tmp'', dir_name m} w w'" using save_manifest_cases by blast
  moreover have "?q \<noteq> m" "?q \<noteq> m @ ''.tmp''" using a(1) part_last [of j out i] by auto
  ultimately show ?thesis using a(4) [OF part_path_child [OF assms(2,3)]] True mf' by (simp add: same_but_def)
qed (use assms(1) in \<open>simp add: saved_if_def io_return_def\<close>)

text \<open>
  C11: what a restart restores. Whatever manifests lie below the receive path, a download that \<open>restoreState\<close> accepts
  has a well-formed identifier, its output lies under the root, its chunks tile the file without gap or overlap,
  and it is not running. It is done only when all its chunks are and the output file has its full length; otherwise every
  chunk that is still recorded as done has a part file of exactly its size, since the others were reset to pending,
  whatever calls of the file system failed on the way.
\<close>

theorem restored_download_sound:
  assumes "restore_download env now cfg p rt w = (Inr st, w')" "is_abs p"
  shows "valid_download_id (dj_id (ds_job st)) \<and> is_under (de_cwd env) (dj_output_path (ds_job st)) rt
    \<and> tiling 0 0 (dj_total_bytes (ds_job st)) (map cs_geom (mf_chunks (ds_mf st)))
    \<and> (if dj_status (ds_job st) = ''done''
       then all_done (ds_mf st) \<and> file_of_size w' (dj_output_path (ds_job st)) (dj_total_bytes (ds_job st))
       else (dj_status (ds_job st) = ''failed'' \<or> dj_status (ds_job st) = ''canceled'')
         \<and> list_all (part_there w' (dj_id (ds_job st)) (dj_output_path (ds_job st))) (mf_chunks (ds_mf st)))"
proof -
  from assms(1) obtain mf out w1 fin w2 mf2 rep w3 mf3 w4 where
    l: "check_download_manifest env p rt mf = Inr out" "final_complete out mf w1 = (Inr fin, w2)" and
    r: "repaired_manifest out fin mf w2 = (Inr (mf2, rep), w3)" and
    s: "saved_if env now (abs_path (de_cwd env) p) rep mf2 w3 = (Inr mf3, w4)" and
    d: "restored_download env now cfg (abs_path (de_cwd env) p) rt out fin mf3 w4 = (st, w')"
    by (rule restore_download_stages)
  note c = check_download_manifest_Inr [OF l(1)] and m2 = repaired_manifest_spec [OF r]
  note f = final_complete_Inr [OF l(2)]
  note m3 = saved_if_spec [OF s c(1,2) resolved_abs_path [OF assms(2)] c(4)] and st = restored_download_frame [OF d]
  show ?thesis
  proof (cases fin)
    case True
    then have "file_of_size w' out (mf_total_bytes mf)" using f m2 m3 st by (simp add: file_of_size_def)
    then show ?thesis using True st c f m2 m3 by (simp add: restored_status_def)
  next
    case False
    have "part_there w' (mf_transfer_id mf) out x" if "part_there w2 (mf_transfer_id mf) out x" for x
      using that m2 m3 [of "cs_index x"] st by (simp add: part_there_def file_of_size_def)
    then have "list_all (part_there w' (mf_transfer_id mf) out) (mf_chunks mf3)" using m2 m3 False by (simp add: list_all_iff)
    then show ?thesis using st c m2 m3 False by (simp add: restored_status_def)
  qed
qed

text \<open>A manifest with two done chunks, of which one has lost its part file.\<close>

definition dc_out :: string where "dc_out = demo_root @ bs # ''a''"

definition dc_dir :: string where "dc_dir = demo_root @ bs # ''a.download.dl-1''"

definition dc_path :: string where "dc_path = dc_dir @ bs # ''manifest.json''"

definition dc_chunk :: "int64 \<Rightarrow> chunk_state" where
  "dc_chunk i = zero_chunk\<lparr>cs_index := i, cs_offset := i, cs_size := 1, cs_status := StatusDone, cs_bytes_done := 1\<rparr>"

definition dc_manifest :: manifest where
  "dc_manifest = \<lparr>mf_schema_version = 1, mf_transfer_id = ''dl-1'', mf_type = ''internet_download'', mf_file_name = ''a'',
     mf_total_bytes = 2, mf_chunk_size = 1, mf_created_at = 5, mf_updated_at = 5,
     mf_source = \<lparr>src_type = ''http'', src_address = '''', src_url = ''http://h/a'', src_identity = '''', src_abs_path = '''', src_mod_time = 0\<rparr>,
     mf_target = \<lparr>tgt_type = ''file'', tgt_address = '''', tgt_path = dc_out\<rparr>, mf_chunks = [dc_chunk 0, dc_chunk 1]\<rparr>"

definition dc_env :: download_env where
  "dc_env = \<lparr>de_cwd = demo_root, de_marshal = (\<lambda>m. Inr ''j''), de_unmarshal = (\<lambda>b. Inr dc_manifest),
     de_parse_url = (\<lambda>u. Inr \<lparr>pu_scheme = ''http'', pu_host = ''h'', pu_path = ''/a'', pu_escaped_path = ''/a''\<rparr>), de_url_string = pu_path,
     de_head = (\<lambda>u. Inl ''no''), de_range_get = (\<lambda>u. Inl ''no'')\<rparr>"

definition dc_part :: "int \<Rightarrow> string" where "dc_part k = dc_dir @ bs # ''chunk00000'' @ itoa k @ ''.part''"

definition dc_world :: "string \<Rightarrow> nat \<Rightarrow> world" where
  "dc_world m k = rd_world [(dc_dir, Dir), (dc_path, File m), (dc_part 1, File ''x'')] k"

definition dc_repaired :: manifest where
  "dc_repaired = dc_manifest\<lparr>mf_chunks := [dc_chunk 0, unfinish_chunk (dc_chunk 1)]\<rparr>"

definition dc_result :: "download_state \<times> world" where
  "dc_result = restored_download dc_env 5 (default_config Config.demo_env) dc_path demo_root dc_out False dc_repaired (dc_world ''j'' 20)"

lemma dc_paths: "is_abs dc_path" "abs_path demo_root dc_path = dc_path" "dir_name dc_path = dc_dir"
  "part_path_for ''dl-1'' dc_out 0 = dc_part 1" "part_path_for ''dl-1'' dc_out 1 = dc_part 2" by code_simp+

lemma dc_apart: "dc_dir \<noteq> dc_path" "dc_dir \<noteq> dc_part 1" "dc_dir \<noteq> dc_part 2" "dc_dir \<noteq> dc_out" "dc_dir \<noteq> dc_path @ ''.tmp''"
  "dc_path \<noteq> dc_part 1" "dc_path \<noteq> dc_part 2" "dc_path \<noteq> dc_out" "dc_part 1 \<noteq> dc_part 2" "dc_part 1 \<noteq> dc_out"
  "dc_part 1 \<noteq> dc_path @ ''.tmp''" "dc_part 2 \<noteq> dc_path @ ''.tmp''" by code_simp+

lemma dc_check: "check_download_manifest dc_env dc_path demo_root dc_manifest = Inr dc_out" by code_simp

lemma dc_load: "load_manifest (Inr dc_manifest) = Inr dc_manifest" by code_simp


lemmas dc_ne = dc_apart dc_apart[symmetric]

lemma dc_env [simp]: "de_cwd dc_env = demo_root" "de_marshal dc_env = (\<lambda>m. Inr ''j'')" "de_unmarshal dc_env = (\<lambda>b. Inr dc_manifest)"
  by (simp_all add: dc_env_def)

lemma dc_run_load: "load_file (\<lambda>b. Inr dc_manifest) dc_path (dc_world ''m'' 10) = (Inr dc_manifest, dc_world ''m'' 11)"
  by (simp add: load_file_def dc_world_def dc_load dc_ne io_run)

lemma dc_run_final: "final_complete dc_out dc_manifest (dc_world ''m'' 11) = (Inr False, dc_world ''m'' 12)"
  by (simp add: final_complete_def dc_world_def dc_ne io_run)

lemma dc_run_repair: "repair_chunks ''dl-1'' dc_out [dc_chunk 0, dc_chunk 1] (dc_world ''m'' 12)
    = ([dc_chunk 0, unfinish_chunk (dc_chunk 1)], True, dc_world ''m'' 14)"
  by (simp add: dc_world_def dc_chunk_def dc_paths [simplified] dc_ne io_run)

lemma dc_run_save: "save_manifest (\<lambda>m. Inr ''j'') 5 dc_path dc_repaired (dc_world ''m'' 14) = (Inr (), dc_world ''j'' 20)"
  by (simp add: save_manifest_def save_atomic_def write_sync_close_def dc_paths dc_world_def dc_ne io_run Let_def cong: io_bind_weak)

lemma dc_run: "restore_download dc_env 5 (default_config Config.demo_env) dc_path demo_root (dc_world ''m'' 10) = (Inr (fst dc_result), snd dc_result)"
proof -
  have m: "mf_transfer_id dc_manifest = ''dl-1''" "mf_chunks dc_manifest = [dc_chunk 0, dc_chunk 1]"
    "dc_manifest\<lparr>mf_chunks := [dc_chunk 0, unfinish_chunk (dc_chunk 1)]\<rparr> = dc_repaired" "dc_repaired\<lparr>mf_updated_at := 5\<rparr> = dc_repaired"
    by (simp_all add: dc_manifest_def dc_repaired_def)
  show ?thesis
    by (simp add: restore_download_def io_bind_def io_lift_def io_return_def dc_run_load dc_check dc_run_final dc_run_repair dc_run_save
        dc_paths m dc_result_def Let_def case_prod_beta' del: repair_chunks.simps)
qed

theorem restored_download_sound_witness:
  "list_all (part_there (snd dc_result) ''dl-1'' dc_out) [dc_chunk 0, unfinish_chunk (dc_chunk 1)]"
proof -
  have f: "restored_download dc_env 5 (default_config Config.demo_env) dc_path demo_root dc_out False dc_repaired (dc_world ''j'' 20)
      = (fst dc_result, snd dc_result)" by (simp add: dc_result_def)
  have "mf_transfer_id dc_repaired = ''dl-1''" "mf_chunks dc_repaired = [dc_chunk 0, unfinish_chunk (dc_chunk 1)]"
    "fst (restored_status False dc_repaired) \<noteq> ''done''"
    by (simp_all add: dc_repaired_def dc_manifest_def restored_status_def)
  then show ?thesis using restored_download_sound [OF dc_run dc_paths(1)] restored_download_frame [OF f] by simp
qed


section \<open>Forgetting a download\<close>

lemma remove_node: "fs_remove p w = (r, w') \<Longrightarrow> node_at w' q = node_at w q \<or> q = p \<and> node_at w' q = None"
  by (auto simp: fs_remove_def split: if_splits option.splits node.splits)

definition reads_only :: "(string \<Rightarrow> world \<Rightarrow> 'a \<times> world) \<Rightarrow> bool" where
  "reads_only f \<longleftrightarrow> (\<forall>p w q. node_at (snd (f p w)) q = node_at w q)"

lemma stat_size_reads: "reads_only stat_size"
  by (auto simp: reads_only_def stat_size_def fs_stat_def split: prod.splits sum.splits option.splits node.splits)

lemma lstat_size_reads: "reads_only lstat_size"
  by (auto simp: reads_only_def lstat_size_def fs_lstat_def split: prod.splits sum.splits option.splits node.splits)

lemma remove_parts_node:
  assumes "reads_only size_of" "remove_parts size_of fs res w = (res', w')"
  shows "node_at w' q = node_at w q \<or> q \<in> set fs \<and> node_at w' q = None"
  using assms(2)
proof (induction fs arbitrary: res w)
  case (Cons f fs)
  obtain sz w1 where 1: "size_of f w = (sz, w1)" by force
  obtain r w2 where 2: "fs_remove f w1 = (r, w2)" by force
  obtain res2 where 3: "remove_parts size_of fs res2 w2 = (res', w')"
    using Cons.prems 1 2 by (auto split: sum.splits)
  have "node_at w1 q = node_at w q" using assms(1) 1 unfolding reads_only_def by (metis snd_conv)
  then show ?case using Cons.IH [OF 3] remove_node [OF 2, of q] by auto
qed simp

lemma glob_or_none_spec:
  "glob_or_none pat w = (fs, w') \<Longrightarrow> (f \<in> set fs \<longrightarrow> glob_match pat f) \<and> node_at w' q = node_at w q"
  by (auto simp: glob_or_none_def fs_glob_def split: prod.splits sum.splits if_splits)

lemma try_remove_node: "try_remove p w = (r, w') \<Longrightarrow> node_at w' q = node_at w q \<or> q = p \<and> node_at w' q = None"
  using remove_node [of p w _ _ q] by (auto simp: try_remove_def split: prod.splits sum.splits)

lemma remove_empty_dir_node:
  "remove_empty_dir d res w = (res', w') \<Longrightarrow> node_at w' q = node_at w q \<or> q = d \<and> node_at w' q = None"
  using touchesD [OF touches_calls(10), of d w _ _ q]
  by (auto simp: remove_empty_dir_def split: prod.splits sum.splits list.splits dest!: remove_node [of _ _ _ _ q])

lemma forget_files_node:
  assumes "forget_files S mp w = (r, w')"
  shows "node_at w' q = node_at w q \<or> node_at w' q = None \<and> (q = S \<or> q = mp \<or> glob_match (part_pattern S) q)"
proof -
  obtain fs w1 where g: "fs_glob (part_pattern S) w = (fs, w1)" by force
  have n1: "node_at w1 q = node_at w q" using touchesD [OF touches_calls(9) g] by simp
  show ?thesis
  proof (cases fs)
    case (Inl e)
    then show ?thesis using assms g n1 by (simp add: forget_files_def)
  next
    case (Inr files)
    have m: "\<forall>f \<in> set files. glob_match (part_pattern S) f" using g Inr by (auto simp: fs_glob_def split: if_splits)
    obtain res w2 where p: "remove_parts lstat_size files zero_result w1 = (res, w2)" by force
    note n2 = remove_parts_node [OF lstat_size_reads p, of q]
    obtain t w3 where t: "try_remove mp w2 = (t, w3)" by force
    note n3 = try_remove_node [OF t, of q]
    obtain rem w4 where gl: "glob_or_none (part_pattern S) w3 = (rem, w4)" by force
    have n4: "node_at w4 q = node_at w3 q" using glob_or_none_spec [OF gl] by blast
    show ?thesis
    proof (cases t)
      case (Inl e)
      then show ?thesis using assms g Inr p t n1 n2 n3 m by (auto simp: forget_files_def)
    next
      case t': (Inr u)
      obtain res2 res3 where "remove_empty_dir S res2 w4 = (res3, w')"
        using assms g Inr p t gl t' by (auto simp: forget_files_def Let_def split: prod.splits)
      from remove_empty_dir_node [OF this, of q] show ?thesis using n1 n2 n3 n4 m by auto
    qed
  qed
qed


lemma part_pattern_matches:
  assumes "child_of S e" "no_meta S" "glob_match (part_pattern S) q"
  shows "\<exists>t. q = S @ bs # t"
proof -
  have "plain ''chunk*.part''" by code_simp
  then have p: "part_pattern S = (S @ [bs]) @ ''chunk*.part''" unfolding part_pattern_def using join_child [OF assms(1)] by simp
  have "no_meta (S @ [bs])" using assms(2) by (auto simp: no_meta_def bs_def)
  from glob_literal [OF this assms(3) [unfolded p]] show ?thesis by auto
qed



text \<open>Forgetting the download above, whose output file is complete on the disk by now.\<close>

definition dc_files :: "nat \<Rightarrow> world" where
  "dc_files k = rd_world [(dc_dir, Dir), (dc_path, File ''j''), (dc_part 1, File ''x''), (dc_out, File ''ab'')] k"

definition dc_downloads :: downloader where
  "dc_downloads = \<lparr>dw_jobs = [(''dl-1'', fst dc_result)], dw_base_dir = demo_root, dw_cfg = default_config Config.demo_env,
     dw_root_recv = demo_root, dw_last_reload = 0, dw_canceled = [], dw_next_ctx = 0, dw_world = dc_files 10\<rparr>"

lemma dc_job: "dj_output_path (ds_job (fst dc_result)) = dc_out" "dj_manifest_path (ds_job (fst dc_result)) = dc_path"
  "dj_status (ds_job (fst dc_result)) = ''canceled''" "ds_root_dir (fst dc_result) = demo_root"
proof -
  have f: "restored_download dc_env 5 (default_config Config.demo_env) dc_path demo_root dc_out False dc_repaired (dc_world ''j'' 20)
      = (fst dc_result, snd dc_result)" by (simp add: dc_result_def)
  have "fst (restored_status False dc_repaired) = ''canceled''" by code_simp
  then show "dj_output_path (ds_job (fst dc_result)) = dc_out" "dj_manifest_path (ds_job (fst dc_result)) = dc_path"
    "dj_status (ds_job (fst dc_result)) = ''canceled''" "ds_root_dir (fst dc_result) = demo_root"
    using restored_download_frame [OF f] by simp_all
qed

lemma dc_forget_checks: "abs_path demo_root dc_out = dc_out" "session_dir_for ''dl-1'' dc_out = dc_dir" "abs_path demo_root dc_dir = dc_dir"
  "is_under demo_root dc_out (abs_path demo_root demo_root)" "is_under demo_root dc_dir (abs_path demo_root demo_root)" "trim_space demo_root \<noteq> ''''"
  "equal_fold (clean dc_path) (clean (join_path [dc_dir, ''manifest.json'']))" "is_abs dc_out" "valid_download_id ''dl-1''" "no_meta dc_dir"
  "pattern_ok (part_pattern dc_dir)" "glob_match (part_pattern dc_dir) (dc_part 1)" "\<not> glob_match (part_pattern dc_dir) dc_path"
  "\<not> glob_match (part_pattern dc_dir) dc_dir" "\<not> glob_match (part_pattern dc_dir) dc_out" "dir_name dc_out \<noteq> clean dc_dir" "dir_name dc_dir \<noteq> clean dc_dir"
  by code_simp+

lemma dc_forget_runs: "\<exists>res. forget_files dc_dir dc_path (dc_files 10) = (Inr res, rd_world [(dc_out, File ''ab'')] 17)"
  by (simp add: forget_files_def glob_or_none_def try_remove_def remove_empty_dir_def lstat_size_def fs_read_dir_def entries_of_def
      dc_files_def dc_forget_checks dc_ne io_run Let_def)



section \<open>The runs of a download\<close>

text \<open>
  The table and the runs at work: each run is a download and the context it was started with. A run that ends takes
  the manifest the table holds (all runs of a download share it), and sees whether its context has been cancelled.
\<close>

inductive dl_step :: "downloader \<times> (string \<times> nat) list \<Rightarrow> downloader \<times> (string \<times> nat) list \<Rightarrow> bool" where
  Start: "start_download env now loaded infos nano req m = Some (Inr (j, ctx), m') \<Longrightarrow> dl_step (m, runs) (m', (dj_id j, ctx) # runs)"
| Resume: "resume_download now i m = (Inr (j, ctx), m') \<Longrightarrow> dl_step (m, runs) (m', (i, ctx) # runs)"
| Cancel: "cancel_download i m = (b, m') \<Longrightarrow> dl_step (m, runs) (m', runs)"
| Ended: "(i, ctx) \<in> set runs \<Longrightarrow> map_of (dw_jobs m) i = Some st \<Longrightarrow> dr_mf r = ds_mf st \<Longrightarrow> dr_world r = dw_world m \<Longrightarrow>
    dr_canceled r = (ctx \<in> set (dw_canceled m)) \<Longrightarrow> re_output env = dj_output_path (ds_job st) \<Longrightarrow>
    dl_step (m, runs) (end_download now i (run_finish env r) m, remove1 (i, ctx) runs)"

inductive dl_reach :: "downloader \<times> (string \<times> nat) list \<Rightarrow> downloader \<times> (string \<times> nat) list \<Rightarrow> bool" for s where
  Refl: "dl_reach s s"
| Next: "dl_reach s t \<Longrightarrow> dl_step t u \<Longrightarrow> dl_reach s u"

lemma prune_one: "prune_downloads [(k, st)] = [(k, st)]"
  by (simp add: prune_downloads_def prune_records_def max_history_def)

definition single :: "download_state \<Rightarrow> nat list \<Rightarrow> nat \<Rightarrow> world \<Rightarrow> downloader" where
  "single st cancels k w = \<lparr>dw_jobs = [(''dl-1'', st)], dw_base_dir = demo_root, dw_cfg = default_config Config.demo_env,
     dw_root_recv = demo_root, dw_last_reload = 0, dw_canceled = cancels, dw_next_ctx = k, dw_world = w\<rparr>"

lemma resume_single:
  assumes "dj_status (ds_job st) = ''canceled''"
  shows "\<exists>st' j. resume_download now ''dl-1'' (single st cs k w) = (Inr (j, k), single st' cs (Suc k) w)
    \<and> dj_status (ds_job st') = ''running'' \<and> ds_cancel st' = Some k"
  using assms by (simp add: resume_download_def single_def set_download_def upd_dl_job_def Let_def)

lemma cancel_single:
  assumes "ds_cancel st = Some c"
  shows "\<exists>st'. cancel_download ''dl-1'' (single st cs k w) = (True, single st' (c # cs) k w) \<and> ds_cancel st' = Some c
    \<and> (dj_status (ds_job st) = ''running'' \<longrightarrow> dj_status (ds_job st') = ''canceled'')"
  using assms by (simp add: cancel_download_def single_def set_download_def upd_dl_job_def cancel_run_def prune_dl_def prune_one Let_def)


lemma end_single:
  assumes "dr_canceled r"
  shows "\<exists>st' w'. end_download now ''dl-1'' (run_finish env r) (single st cs k w) = single st' cs k w'
    \<and> dj_status (ds_job st') = ''canceled'' \<and> ds_cancel st' = ds_cancel st"
proof -
  let ?s = "upd_dl_job (\<lambda>j. j\<lparr>dj_status := ''canceled'', dj_message := ''canceled''\<rparr>) (st\<lparr>ds_mf := mark_canceled_pending (dr_mf r)\<rparr>)"
  obtain s w' where f: "refresh_stats now (dr_done_bytes r) ?s (dr_world r) = (s, w')" by force
  have "end_download now ''dl-1'' (run_finish env r) (single st cs k w) = single s cs k w'"
    using assms f by (simp add: end_download_def run_finish_def single_def set_download_def prune_dl_def prune_one)
  then show ?thesis using refresh_stats_frame [OF f] by (auto simp: same_download_def upd_dl_job_def)
qed

text \<open>
  C13: cancelling and resuming can leave two runs of one download at work, one of which can no longer be cancelled. A
  download is cancelled while its run is busy: the status is \<open>canceled\<close> at once, so the download can be resumed before
  the old run has ended. When the old run then ends, it sets the status of the resumed download to \<open>canceled\<close>, so it can
  be resumed a third time: now two runs that are not cancelled fetch the same chunks into the same
  part files, and \<open>Cancel\<close> reaches only the last one.
\<close>

theorem two_runs_one_download:
  "\<exists>m st. dl_reach (dc_downloads, []) (m, [(''dl-1'', 2), (''dl-1'', 1)]) \<and> map_of (dw_jobs m) ''dl-1'' = Some st
     \<and> dj_status (ds_job st) = ''running'' \<and> ds_cancel st = Some 2 \<and> dw_canceled m = [0]
     \<and> dw_canceled (snd (cancel_download ''dl-1'' m)) = [2, 0]"
proof -
  let ?i = "''dl-1''" and ?w = "dc_files 10"
  have d: "dc_downloads = single (fst dc_result) [] 0 ?w" by (simp add: dc_downloads_def single_def)
  obtain s1 j1 where 1: "resume_download 0 ?i (single (fst dc_result) [] 0 ?w) = (Inr (j1, 0), single s1 [] 1 ?w)"
      "dj_status (ds_job s1) = ''running''" "ds_cancel s1 = Some 0"
    using resume_single [OF dc_job(3)] by fastforce
  obtain s2 where 2: "cancel_download ?i (single s1 [] 1 ?w) = (True, single s2 [0] 1 ?w)" "dj_status (ds_job s2) = ''canceled''"
    using cancel_single [OF 1(3)] 1(2) by blast
  obtain s3 j3 where 3: "resume_download 0 ?i (single s2 [0] 1 ?w) = (Inr (j3, 1), single s3 [0] 2 ?w)"
    using resume_single [OF 2(2), of 0 "[0]" 1 ?w] by (auto simp: numeral_2_eq_2)
  let ?env = "race_env\<lparr>re_output := dj_output_path (ds_job s3)\<rparr>"
  let ?r = "race_start\<lparr>dr_mf := ds_mf s3, dr_world := ?w, dr_canceled := True\<rparr>"
  obtain s4 w4 where 4: "end_download 0 ?i (run_finish ?env ?r) (single s3 [0] 2 ?w) = single s4 [0] 2 w4"
      "dj_status (ds_job s4) = ''canceled''"
    using end_single [of ?r 0 ?env s3 "[0]" 2 ?w] by auto
  obtain s5 j5 where 5: "resume_download 0 ?i (single s4 [0] 2 w4) = (Inr (j5, 2), single s5 [0] 3 w4)"
      "dj_status (ds_job s5) = ''running''" "ds_cancel s5 = Some 2"
    using resume_single [OF 4(2), of 0 "[0]" 2 w4] by (auto simp: numeral_3_eq_3)
  obtain s6 where 6: "cancel_download ?i (single s5 [0] 3 w4) = (True, single s6 [2, 0] 3 w4)"
    using cancel_single [OF 5(3)] by blast
  have s: "map_of (dw_jobs (single x cs k w)) ?i = Some x" "dw_world (single x cs k w) = w" "dw_canceled (single x cs k w) = cs"
    for x cs k w by (simp_all add: single_def)
  have "dl_step (single s3 [0] 2 ?w, [(?i, 1), (?i, 0)]) (single s4 [0] 2 w4, [(?i, 1)])"
    using dl_step.Ended [of ?i 0 "[(?i, 1), (?i, 0)]" "single s3 [0] 2 ?w" s3 ?r ?env 0] 4(1) by (simp add: s)
  then have "dl_reach (dc_downloads, []) (single s4 [0] 2 w4, [(?i, 1)])"
    using dl_reach.Next [OF dl_reach.Next [OF dl_reach.Next [OF dl_reach.Refl dl_step.Resume [OF 1(1)]] dl_step.Cancel [OF 2(1)]]
        dl_step.Resume [OF 3]] unfolding d by (rule dl_reach.Next [rotated])
  from dl_reach.Next [OF this dl_step.Resume [OF 5(1)]] show ?thesis
    using 5 6 s by (intro exI [of _ "single s5 [0] 3 w4"] exI [of _ s5]) simp
qed

end
