(* ===== verification/Spec2Isabelle.thy ===== *)
theory Spec2Isabelle
  imports SplitCli Discovery DownloadRace EndToEnd SenderStart HistoryChecks PullChecks MultiRecv DownloadChecks
begin

text \<open>A verification library of MultiSend.\<close>

end
